(* ===== verification/Prelude.thy ===== *)
theory Prelude
  imports Main "HOL-Library.Word"
begin

text \<open>
  Shared vocabulary of the velux2mqtt development: the machine integers of the Rust sources, the
  outcome of a fallible computation (a value, an error returned with the question mark operator, or
  a panic), slices and arrays with Rust's bounds checks, big-endian conversions, and the generic
  lemmas and named collections the component theories use.
\<close>

unbundle bit_operations_syntax

section \<open>Collections of facts\<close>

named_theorems wire_simps \<open>evaluation of slices, arrays and byte conversions\<close>
named_theorems no_panic \<open>a computation never panics\<close>
named_theorems wf_intros \<open>operations keep the well-formedness of their data\<close>

section \<open>Machine integers\<close>

type_synonym u8 = "8 word"
type_synonym u16 = "16 word"
type_synonym u32 = "32 word"

text \<open>Signed integers share the representation of the unsigned ones and are read with \<open>sint\<close>.\<close>

type_synonym i8 = "8 word"
type_synonym i16 = "16 word"

section \<open>Outcomes\<close>

text \<open>
  \<open>Ok\<close> and \<open>Err\<close> are the constructors of Rust's \<open>Result\<close>; \<open>Panic\<close> is an abort (an index or a slice
  range out of bounds), which no caller can observe as a value. \<open>and_then\<close> is sequencing with the
  question mark operator: an error and a panic both end the computation.
\<close>

datatype ('e, 'a) outcome = Ok 'a | Err 'e | Panic

primrec and_then :: "('e, 'a) outcome \<Rightarrow> ('a \<Rightarrow> ('e, 'b) outcome) \<Rightarrow> ('e, 'b) outcome" where
  "and_then (Ok x) f = f x"
| "and_then (Err e) f = Err e"
| "and_then Panic f = Panic"

primrec map_ok :: "('a \<Rightarrow> 'b) \<Rightarrow> ('e, 'a) outcome \<Rightarrow> ('e, 'b) outcome" where
  "map_ok f (Ok x) = Ok (f x)"
| "map_ok f (Err e) = Err e"
| "map_ok f Panic = Panic"

lemma and_then_cong [fundef_cong]:
  assumes "r = r'" and "\<And>x. r' = Ok x \<Longrightarrow> f x = g x"
  shows "and_then r f = and_then r' g"
  using assms by (cases r') auto

lemma and_then_eq_Ok_iff: "and_then r f = Ok y \<longleftrightarrow> (\<exists>x. r = Ok x \<and> f x = Ok y)"
  by (cases r) auto

lemma and_then_eq_Err_iff:
  "and_then r f = Err e \<longleftrightarrow> r = Err e \<or> (\<exists>x. r = Ok x \<and> f x = Err e)"
  by (cases r) auto

lemma map_ok_eq_Ok_iff: "map_ok f r = Ok y \<longleftrightarrow> (\<exists>x. r = Ok x \<and> f x = y)"
  by (cases r) auto

lemma map_ok_eq_Err_iff [simp]: "map_ok f r = Err e \<longleftrightarrow> r = Err e"
  by (cases r) auto

lemma and_then_eq_Panic_iff:
  "and_then r f = Panic \<longleftrightarrow> r = Panic \<or> (\<exists>x. r = Ok x \<and> f x = Panic)"
  by (cases r) auto

lemmas outcome_iffs = and_then_eq_Ok_iff and_then_eq_Err_iff map_ok_eq_Ok_iff

lemma and_then_not_Panic [no_panic]:
  assumes "r \<noteq> Panic" and "\<And>x. r = Ok x \<Longrightarrow> f x \<noteq> Panic"
  shows "and_then r f \<noteq> Panic"
  using assms by (cases r) auto

lemma map_ok_not_Panic [simp, no_panic]: "map_ok f r \<noteq> Panic \<longleftrightarrow> r \<noteq> Panic"
  by (cases r) auto

text \<open>Collecting an iterator of results stops at the first error.\<close>

primrec collect_ok :: "('a \<Rightarrow> ('e, 'b) outcome) \<Rightarrow> 'a list \<Rightarrow> ('e, 'b list) outcome" where
  "collect_ok f [] = Ok []"
| "collect_ok f (x # xs) = and_then (f x) (\<lambda>y. and_then (collect_ok f xs) (\<lambda>ys. Ok (y # ys)))"

lemma collect_ok_not_Panic [no_panic]:
  "(\<And>x. x \<in> set xs \<Longrightarrow> f x \<noteq> Panic) \<Longrightarrow> collect_ok f xs \<noteq> Panic"
  by (induction xs) (auto simp: and_then_eq_Panic_iff)

lemma collect_ok_map: "(\<And>x. x \<in> set xs \<Longrightarrow> f x = Ok (g x)) \<Longrightarrow> collect_ok f xs = Ok (map g xs)"
  by (induction xs) auto

lemma collect_ok_length: "collect_ok f xs = Ok ys \<Longrightarrow> length ys = length xs"
  by (induction xs arbitrary: ys) (auto simp: outcome_iffs)

lemma collect_ok_all:
  "collect_ok f xs = Ok ys \<Longrightarrow> (\<And>x y. f x = Ok y \<Longrightarrow> P y) \<Longrightarrow> list_all P ys"
  by (induction xs arbitrary: ys) (auto simp: outcome_iffs)

section \<open>Slices\<close>

text \<open>\<open>byte_at p i\<close> is \<open>p[i]\<close> and \<open>byte_slice p lo hi\<close> is \<open>&p[lo..hi]\<close>; both panic out of range.\<close>

definition byte_at :: "'a list \<Rightarrow> nat \<Rightarrow> ('e, 'a) outcome" where
  "byte_at p i = (if i < length p then Ok (p ! i) else Panic)"

definition byte_slice :: "'a list \<Rightarrow> nat \<Rightarrow> nat \<Rightarrow> ('e, 'a list) outcome" where
  "byte_slice p lo hi =
     (if lo \<le> hi \<and> hi \<le> length p then Ok (take (hi - lo) (drop lo p)) else Panic)"

lemma byte_at_Ok [simp]: "i < length p \<Longrightarrow> byte_at p i = Ok (p ! i)"
  by (simp add: byte_at_def)

lemma byte_slice_Ok [simp]:
  "lo \<le> hi \<Longrightarrow> hi \<le> length p \<Longrightarrow> byte_slice p lo hi = Ok (take (hi - lo) (drop lo p))"
  by (simp add: byte_slice_def)

lemma byte_at_not_Err [simp]: "byte_at p i \<noteq> Err e"
  by (simp add: byte_at_def)

lemma byte_slice_not_Err [simp]: "byte_slice p lo hi \<noteq> Err e"
  by (simp add: byte_slice_def)

text \<open>\<open>write_bytes off bs p\<close> is \<open>p[off..off + bs.len()].copy_from_slice(bs)\<close>.\<close>

definition write_bytes :: "nat \<Rightarrow> 'a list \<Rightarrow> 'a list \<Rightarrow> 'a list" where
  "write_bytes off bs p = take off p @ bs @ drop (off + length bs) p"

lemma length_write_bytes [simp]:
  "off + length bs \<le> length p \<Longrightarrow> length (write_bytes off bs p) = length p"
  by (simp add: write_bytes_def)

lemma nth_write_bytes:
  "off + length bs \<le> length p \<Longrightarrow> i < length p \<Longrightarrow>
     write_bytes off bs p ! i = (if off \<le> i \<and> i < off + length bs then bs ! (i - off) else p ! i)"
  by (auto simp: write_bytes_def nth_append)

lemma slice_write_same [wire_simps]:
  "n = length bs \<Longrightarrow> k + n \<le> length p \<Longrightarrow> take n (drop k (write_bytes k bs p)) = bs"
  by (simp add: write_bytes_def)

lemma slice_write_other [wire_simps]:
  "k + n \<le> off \<or> off + length bs \<le> k \<Longrightarrow> off + length bs \<le> length p \<Longrightarrow>
     take n (drop k (write_bytes off bs p)) = take n (drop k p)"
  by (rule nth_equalityI) (auto simp: nth_write_bytes)

lemma slice_update_other [wire_simps]:
  "i < k \<or> k + n \<le> i \<Longrightarrow> take n (drop k (p[i := v])) = take n (drop k p)"
  by (rule nth_equalityI) (auto simp: nth_list_update)

lemmas take_write_same [wire_simps] = slice_write_same [where k = 0, simplified]
lemmas take_write_other [wire_simps] = slice_write_other [where k = 0, simplified]
lemmas take_update_other [wire_simps] = slice_update_other [where k = 0, simplified]

section \<open>Big-endian bytes\<close>

definition u16_to_be_bytes :: "u16 \<Rightarrow> u8 list" where
  "u16_to_be_bytes w = [ucast (drop_bit 8 w), ucast w]"

definition u16_from_be_bytes :: "u8 \<Rightarrow> u8 \<Rightarrow> u16" where
  "u16_from_be_bytes b0 b1 = push_bit 8 (ucast b0) OR ucast b1"

definition u32_to_be_bytes :: "u32 \<Rightarrow> u8 list" where
  "u32_to_be_bytes w =
     [ucast (drop_bit 24 w), ucast (drop_bit 16 w), ucast (drop_bit 8 w), ucast w]"

definition u32_from_be_bytes :: "u8 \<Rightarrow> u8 \<Rightarrow> u8 \<Rightarrow> u8 \<Rightarrow> u32" where
  "u32_from_be_bytes b0 b1 b2 b3 =
     push_bit 24 (ucast b0) OR push_bit 16 (ucast b1) OR push_bit 8 (ucast b2) OR ucast b3"

lemma length_be_bytes [simp]: "length (u16_to_be_bytes w) = 2" "length (u32_to_be_bytes d) = 4"
  by (simp_all add: u16_to_be_bytes_def u32_to_be_bytes_def)

lemma u16_from_to_be_bytes [simp]:
  "u16_from_be_bytes (ucast (drop_bit 8 w)) (ucast w) = w"
  unfolding u16_from_be_bytes_def
  by (rule bit_word_eqI) (auto simp: bit_simps)

lemma u16_be_bytes_nth [simp]: "u16_from_be_bytes (u16_to_be_bytes w ! 0) (u16_to_be_bytes w ! Suc 0) = w"
  by (simp add: u16_to_be_bytes_def)

lemma bit_u8_beyond [simp]: "\<not> bit (b :: u8) (8 + n)"
  using bit_imp_le_length [of b "8 + n"] by auto

lemma u16_to_from_be_bytes [simp]: "u16_to_be_bytes (u16_from_be_bytes b0 b1) = [b0, b1]"
  unfolding u16_to_be_bytes_def u16_from_be_bytes_def
  by (auto intro!: bit_word_eqI simp: bit_simps)

lemma u32_from_to_be_bytes [simp]:
  "u32_from_be_bytes (ucast (drop_bit 24 w)) (ucast (drop_bit 16 w)) (ucast (drop_bit 8 w)) (ucast w) = w"
proof (rule bit_word_eqI)
  fix n assume "n < LENGTH(32)"
  then consider "n < 8" | "8 \<le> n" "n < 16" | "16 \<le> n" "n < 24" | "24 \<le> n" "n < 32"
    by fastforce
  then show "bit (u32_from_be_bytes (ucast (drop_bit 24 w)) (ucast (drop_bit 16 w))
      (ucast (drop_bit 8 w)) (ucast w)) n = bit w n"
    by cases (auto simp: u32_from_be_bytes_def bit_simps)
qed

section \<open>Conversions\<close>

text \<open>\<open>u8::try_from\<close> on a \<open>usize\<close>.\<close>

definition u8_try_from :: "nat \<Rightarrow> u8 option" where
  "u8_try_from n = (if n < 256 then Some (of_nat n) else None)"

definition u8_from_bool :: "bool \<Rightarrow> u8" where
  "u8_from_bool b = (if b then 1 else 0)"

lemma u8_try_from_Some_iff: "u8_try_from n = Some b \<longleftrightarrow> n < 256 \<and> n = unat b"
proof -
  have "unat (of_nat n :: u8) = n" if "n < 256"
    using that by (simp add: unat_of_nat)
  moreover have "unat b < 256"
    using unsigned_less [of b, where 'a = nat] by simp
  ultimately show ?thesis
    by (auto simp: u8_try_from_def unat_of_nat)
qed

lemma unat_u8_less [simp]: "unat (b :: u8) < 256"
  using unsigned_less [of b, where 'a = nat] by simp

end
