(* ===== verification/Command_Id.thy ===== *)
theory Command_Id
  imports Prelude
begin

text \<open>
  KLF command identifiers (\<open>src/klf200/command_id.rs\<close>): the 16-bit identifier, the table of known
  commands that the macro \<open>known_commands!\<close> expands to, the kind of a command (read off the suffix
  of its name) and the confirmation a request waits for.
\<close>

section \<open>Identifiers\<close>

datatype CommandId = CommandId (raw: u16)

datatype CommandKind = RequestKind | ConfirmationKind | NotificationKind | UnknownKind

record KnownCommand =
  kc_id :: CommandId
  kc_name :: string

text \<open>The constants of \<open>impl CommandId\<close> that the macro generates.\<close>

abbreviation "GW_ERROR_NTF \<equiv> CommandId 0x0000"
abbreviation "GW_REBOOT_REQ \<equiv> CommandId 0x0001"
abbreviation "GW_REBOOT_CFM \<equiv> CommandId 0x0002"
abbreviation "GW_SET_FACTORY_DEFAULT_REQ \<equiv> CommandId 0x0003"
abbreviation "GW_SET_FACTORY_DEFAULT_CFM \<equiv> CommandId 0x0004"
abbreviation "GW_GET_VERSION_REQ \<equiv> CommandId 0x0008"
abbreviation "GW_GET_VERSION_CFM \<equiv> CommandId 0x0009"
abbreviation "GW_GET_PROTOCOL_VERSION_REQ \<equiv> CommandId 0x000A"
abbreviation "GW_GET_PROTOCOL_VERSION_CFM \<equiv> CommandId 0x000B"
abbreviation "GW_GET_STATE_REQ \<equiv> CommandId 0x000C"
abbreviation "GW_GET_STATE_CFM \<equiv> CommandId 0x000D"
abbreviation "GW_LEAVE_LEARN_STATE_REQ \<equiv> CommandId 0x000E"
abbreviation "GW_LEAVE_LEARN_STATE_CFM \<equiv> CommandId 0x000F"
abbreviation "GW_GET_NETWORK_SETUP_REQ \<equiv> CommandId 0x00E0"
abbreviation "GW_GET_NETWORK_SETUP_CFM \<equiv> CommandId 0x00E1"
abbreviation "GW_SET_NETWORK_SETUP_REQ \<equiv> CommandId 0x00E2"
abbreviation "GW_SET_NETWORK_SETUP_CFM \<equiv> CommandId 0x00E3"
abbreviation "GW_CS_GET_SYSTEMTABLE_DATA_REQ \<equiv> CommandId 0x0100"
abbreviation "GW_CS_GET_SYSTEMTABLE_DATA_CFM \<equiv> CommandId 0x0101"
abbreviation "GW_CS_GET_SYSTEMTABLE_DATA_NTF \<equiv> CommandId 0x0102"
abbreviation "GW_CS_DISCOVER_NODES_REQ \<equiv> CommandId 0x0103"
abbreviation "GW_CS_DISCOVER_NODES_CFM \<equiv> CommandId 0x0104"
abbreviation "GW_CS_DISCOVER_NODES_NTF \<equiv> CommandId 0x0105"
abbreviation "GW_CS_REMOVE_NODES_REQ \<equiv> CommandId 0x0106"
abbreviation "GW_CS_REMOVE_NODES_CFM \<equiv> CommandId 0x0107"
abbreviation "GW_CS_VIRGIN_STATE_REQ \<equiv> CommandId 0x0108"
abbreviation "GW_CS_VIRGIN_STATE_CFM \<equiv> CommandId 0x0109"
abbreviation "GW_CS_CONTROLLER_COPY_REQ \<equiv> CommandId 0x010A"
abbreviation "GW_CS_CONTROLLER_COPY_CFM \<equiv> CommandId 0x010B"
abbreviation "GW_CS_CONTROLLER_COPY_NTF \<equiv> CommandId 0x010C"
abbreviation "GW_CS_CONTROLLER_COPY_CANCEL_NTF \<equiv> CommandId 0x010D"
abbreviation "GW_CS_RECEIVE_KEY_REQ \<equiv> CommandId 0x010E"
abbreviation "GW_CS_RECEIVE_KEY_CFM \<equiv> CommandId 0x010F"
abbreviation "GW_CS_RECEIVE_KEY_NTF \<equiv> CommandId 0x0110"
abbreviation "GW_CS_PGC_JOB_NTF \<equiv> CommandId 0x0111"
abbreviation "GW_CS_SYSTEM_TABLE_UPDATE_NTF \<equiv> CommandId 0x0112"
abbreviation "GW_CS_GENERATE_NEW_KEY_REQ \<equiv> CommandId 0x0113"
abbreviation "GW_CS_GENERATE_NEW_KEY_CFM \<equiv> CommandId 0x0114"
abbreviation "GW_CS_GENERATE_NEW_KEY_NTF \<equiv> CommandId 0x0115"
abbreviation "GW_CS_REPAIR_KEY_REQ \<equiv> CommandId 0x0116"
abbreviation "GW_CS_REPAIR_KEY_CFM \<equiv> CommandId 0x0117"
abbreviation "GW_CS_REPAIR_KEY_NTF \<equiv> CommandId 0x0118"
abbreviation "GW_CS_ACTIVATE_CONFIGURATION_MODE_REQ \<equiv> CommandId 0x0119"
abbreviation "GW_CS_ACTIVATE_CONFIGURATION_MODE_CFM \<equiv> CommandId 0x011A"
abbreviation "GW_GET_NODE_INFORMATION_REQ \<equiv> CommandId 0x0200"
abbreviation "GW_GET_NODE_INFORMATION_CFM \<equiv> CommandId 0x0201"
abbreviation "GW_GET_ALL_NODES_INFORMATION_REQ \<equiv> CommandId 0x0202"
abbreviation "GW_GET_ALL_NODES_INFORMATION_CFM \<equiv> CommandId 0x0203"
abbreviation "GW_GET_ALL_NODES_INFORMATION_NTF \<equiv> CommandId 0x0204"
abbreviation "GW_GET_ALL_NODES_INFORMATION_FINISHED_NTF \<equiv> CommandId 0x0205"
abbreviation "GW_SET_NODE_VARIATION_REQ \<equiv> CommandId 0x0206"
abbreviation "GW_SET_NODE_VARIATION_CFM \<equiv> CommandId 0x0207"
abbreviation "GW_SET_NODE_NAME_REQ \<equiv> CommandId 0x0208"
abbreviation "GW_SET_NODE_NAME_CFM \<equiv> CommandId 0x0209"
abbreviation "GW_NODE_INFORMATION_CHANGED_NTF \<equiv> CommandId 0x020C"
abbreviation "GW_SET_NODE_ORDER_AND_PLACEMENT_REQ \<equiv> CommandId 0x020D"
abbreviation "GW_SET_NODE_ORDER_AND_PLACEMENT_CFM \<equiv> CommandId 0x020E"
abbreviation "GW_GET_NODE_INFORMATION_NTF \<equiv> CommandId 0x0210"
abbreviation "GW_NODE_STATE_POSITION_CHANGED_NTF \<equiv> CommandId 0x0211"
abbreviation "GW_GET_GROUP_INFORMATION_REQ \<equiv> CommandId 0x0220"
abbreviation "GW_GET_GROUP_INFORMATION_CFM \<equiv> CommandId 0x0221"
abbreviation "GW_SET_GROUP_INFORMATION_REQ \<equiv> CommandId 0x0222"
abbreviation "GW_SET_GROUP_INFORMATION_CFM \<equiv> CommandId 0x0223"
abbreviation "GW_GROUP_INFORMATION_CHANGED_NTF \<equiv> CommandId 0x0224"
abbreviation "GW_DELETE_GROUP_REQ \<equiv> CommandId 0x0225"
abbreviation "GW_DELETE_GROUP_CFM \<equiv> CommandId 0x0226"
abbreviation "GW_NEW_GROUP_REQ \<equiv> CommandId 0x0227"
abbreviation "GW_NEW_GROUP_CFM \<equiv> CommandId 0x0228"
abbreviation "GW_GET_ALL_GROUPS_INFORMATION_REQ \<equiv> CommandId 0x0229"
abbreviation "GW_GET_ALL_GROUPS_INFORMATION_CFM \<equiv> CommandId 0x022A"
abbreviation "GW_GET_ALL_GROUPS_INFORMATION_NTF \<equiv> CommandId 0x022B"
abbreviation "GW_GET_ALL_GROUPS_INFORMATION_FINISHED_NTF \<equiv> CommandId 0x022C"
abbreviation "GW_GROUP_DELETED_NTF \<equiv> CommandId 0x022D"
abbreviation "GW_GET_GROUP_INFORMATION_NTF \<equiv> CommandId 0x0230"
abbreviation "GW_HOUSE_STATUS_MONITOR_ENABLE_REQ \<equiv> CommandId 0x0240"
abbreviation "GW_HOUSE_STATUS_MONITOR_ENABLE_CFM \<equiv> CommandId 0x0241"
abbreviation "GW_HOUSE_STATUS_MONITOR_DISABLE_REQ \<equiv> CommandId 0x0242"
abbreviation "GW_HOUSE_STATUS_MONITOR_DISABLE_CFM \<equiv> CommandId 0x0243"
abbreviation "GW_COMMAND_SEND_REQ \<equiv> CommandId 0x0300"
abbreviation "GW_COMMAND_SEND_CFM \<equiv> CommandId 0x0301"
abbreviation "GW_COMMAND_RUN_STATUS_NTF \<equiv> CommandId 0x0302"
abbreviation "GW_COMMAND_REMAINING_TIME_NTF \<equiv> CommandId 0x0303"
abbreviation "GW_SESSION_FINISHED_NTF \<equiv> CommandId 0x0304"
abbreviation "GW_STATUS_REQUEST_REQ \<equiv> CommandId 0x0305"
abbreviation "GW_STATUS_REQUEST_CFM \<equiv> CommandId 0x0306"
abbreviation "GW_STATUS_REQUEST_NTF \<equiv> CommandId 0x0307"
abbreviation "GW_WINK_SEND_REQ \<equiv> CommandId 0x0308"
abbreviation "GW_WINK_SEND_CFM \<equiv> CommandId 0x0309"
abbreviation "GW_WINK_SEND_NTF \<equiv> CommandId 0x030A"
abbreviation "GW_SET_LIMITATION_REQ \<equiv> CommandId 0x0310"
abbreviation "GW_SET_LIMITATION_CFM \<equiv> CommandId 0x0311"
abbreviation "GW_GET_LIMITATION_STATUS_REQ \<equiv> CommandId 0x0312"
abbreviation "GW_GET_LIMITATION_STATUS_CFM \<equiv> CommandId 0x0313"
abbreviation "GW_LIMITATION_STATUS_NTF \<equiv> CommandId 0x0314"
abbreviation "GW_MODE_SEND_REQ \<equiv> CommandId 0x0320"
abbreviation "GW_MODE_SEND_CFM \<equiv> CommandId 0x0321"
abbreviation "GW_MODE_SEND_NTF \<equiv> CommandId 0x0322"
abbreviation "GW_INITIALIZE_SCENE_REQ \<equiv> CommandId 0x0400"
abbreviation "GW_INITIALIZE_SCENE_CFM \<equiv> CommandId 0x0401"
abbreviation "GW_INITIALIZE_SCENE_NTF \<equiv> CommandId 0x0402"
abbreviation "GW_INITIALIZE_SCENE_CANCEL_REQ \<equiv> CommandId 0x0403"
abbreviation "GW_INITIALIZE_SCENE_CANCEL_CFM \<equiv> CommandId 0x0404"
abbreviation "GW_RECORD_SCENE_REQ \<equiv> CommandId 0x0405"
abbreviation "GW_RECORD_SCENE_CFM \<equiv> CommandId 0x0406"
abbreviation "GW_RECORD_SCENE_NTF \<equiv> CommandId 0x0407"
abbreviation "GW_DELETE_SCENE_REQ \<equiv> CommandId 0x0408"
abbreviation "GW_DELETE_SCENE_CFM \<equiv> CommandId 0x0409"
abbreviation "GW_RENAME_SCENE_REQ \<equiv> CommandId 0x040A"
abbreviation "GW_RENAME_SCENE_CFM \<equiv> CommandId 0x040B"
abbreviation "GW_GET_SCENE_LIST_REQ \<equiv> CommandId 0x040C"
abbreviation "GW_GET_SCENE_LIST_CFM \<equiv> CommandId 0x040D"
abbreviation "GW_GET_SCENE_LIST_NTF \<equiv> CommandId 0x040E"
abbreviation "GW_GET_SCENE_INFOAMATION_REQ \<equiv> CommandId 0x040F"
abbreviation "GW_GET_SCENE_INFOAMATION_CFM \<equiv> CommandId 0x0410"
abbreviation "GW_GET_SCENE_INFOAMATION_NTF \<equiv> CommandId 0x0411"
abbreviation "GW_ACTIVATE_SCENE_REQ \<equiv> CommandId 0x0412"
abbreviation "GW_ACTIVATE_SCENE_CFM \<equiv> CommandId 0x0413"
abbreviation "GW_STOP_SCENE_REQ \<equiv> CommandId 0x0415"
abbreviation "GW_STOP_SCENE_CFM \<equiv> CommandId 0x0416"
abbreviation "GW_SCENE_INFORMATION_CHANGED_NTF \<equiv> CommandId 0x0419"
abbreviation "GW_ACTIVATE_PRODUCTGROUP_REQ \<equiv> CommandId 0x0447"
abbreviation "GW_ACTIVATE_PRODUCTGROUP_CFM \<equiv> CommandId 0x0448"
abbreviation "GW_ACTIVATE_PRODUCTGROUP_NTF \<equiv> CommandId 0x0449"
abbreviation "GW_GET_CONTACT_INPUT_LINK_LIST_REQ \<equiv> CommandId 0x0460"
abbreviation "GW_GET_CONTACT_INPUT_LINK_LIST_CFM \<equiv> CommandId 0x0461"
abbreviation "GW_SET_CONTACT_INPUT_LINK_REQ \<equiv> CommandId 0x0462"
abbreviation "GW_SET_CONTACT_INPUT_LINK_CFM \<equiv> CommandId 0x0463"
abbreviation "GW_REMOVE_CONTACT_INPUT_LINK_REQ \<equiv> CommandId 0x0464"
abbreviation "GW_REMOVE_CONTACT_INPUT_LINK_CFM \<equiv> CommandId 0x0465"
abbreviation "GW_GET_ACTIVATION_LOG_HEADER_REQ \<equiv> CommandId 0x0500"
abbreviation "GW_GET_ACTIVATION_LOG_HEADER_CFM \<equiv> CommandId 0x0501"
abbreviation "GW_CLEAR_ACTIVATION_LOG_REQ \<equiv> CommandId 0x0502"
abbreviation "GW_CLEAR_ACTIVATION_LOG_CFM \<equiv> CommandId 0x0503"
abbreviation "GW_GET_ACTIVATION_LOG_LINE_REQ \<equiv> CommandId 0x0504"
abbreviation "GW_GET_ACTIVATION_LOG_LINE_CFM \<equiv> CommandId 0x0505"
abbreviation "GW_ACTIVATION_LOG_UPDATED_NTF \<equiv> CommandId 0x0506"
abbreviation "GW_GET_MULTIPLE_ACTIVATION_LOG_LINES_REQ \<equiv> CommandId 0x0507"
abbreviation "GW_GET_MULTIPLE_ACTIVATION_LOG_LINES_NTF \<equiv> CommandId 0x0508"
abbreviation "GW_GET_MULTIPLE_ACTIVATION_LOG_LINES_CFM \<equiv> CommandId 0x0509"
abbreviation "GW_SET_UTC_REQ \<equiv> CommandId 0x2000"
abbreviation "GW_SET_UTC_CFM \<equiv> CommandId 0x2001"
abbreviation "GW_RTC_SET_TIME_ZONE_REQ \<equiv> CommandId 0x2002"
abbreviation "GW_RTC_SET_TIME_ZONE_CFM \<equiv> CommandId 0x2003"
abbreviation "GW_GET_LOCAL_TIME_REQ \<equiv> CommandId 0x2004"
abbreviation "GW_GET_LOCAL_TIME_CFM \<equiv> CommandId 0x2005"
abbreviation "GW_PASSWORD_ENTER_REQ \<equiv> CommandId 0x3000"
abbreviation "GW_PASSWORD_ENTER_CFM \<equiv> CommandId 0x3001"
abbreviation "GW_PASSWORD_CHANGE_REQ \<equiv> CommandId 0x3002"
abbreviation "GW_PASSWORD_CHANGE_CFM \<equiv> CommandId 0x3003"
abbreviation "GW_PASSWORD_CHANGE_NTF \<equiv> CommandId 0x3004"

section \<open>The table of known commands\<close>

definition known_command :: "CommandId \<Rightarrow> string \<Rightarrow> KnownCommand" where
  "known_command i n = \<lparr>kc_id = i, kc_name = n\<rparr>"

definition ALL_KNOWN_COMMANDS :: "KnownCommand list" where
  "ALL_KNOWN_COMMANDS =
    [known_command GW_ERROR_NTF ''GW_ERROR_NTF'',
     known_command GW_REBOOT_REQ ''GW_REBOOT_REQ'',
     known_command GW_REBOOT_CFM ''GW_REBOOT_CFM'',
     known_command GW_SET_FACTORY_DEFAULT_REQ ''GW_SET_FACTORY_DEFAULT_REQ'',
     known_command GW_SET_FACTORY_DEFAULT_CFM ''GW_SET_FACTORY_DEFAULT_CFM'',
     known_command GW_GET_VERSION_REQ ''GW_GET_VERSION_REQ'',
     known_command GW_GET_VERSION_CFM ''GW_GET_VERSION_CFM'',
     known_command GW_GET_PROTOCOL_VERSION_REQ ''GW_GET_PROTOCOL_VERSION_REQ'',
     known_command GW_GET_PROTOCOL_VERSION_CFM ''GW_GET_PROTOCOL_VERSION_CFM'',
     known_command GW_GET_STATE_REQ ''GW_GET_STATE_REQ'',
     known_command GW_GET_STATE_CFM ''GW_GET_STATE_CFM'',
     known_command GW_LEAVE_LEARN_STATE_REQ ''GW_LEAVE_LEARN_STATE_REQ'',
     known_command GW_LEAVE_LEARN_STATE_CFM ''GW_LEAVE_LEARN_STATE_CFM'',
     known_command GW_GET_NETWORK_SETUP_REQ ''GW_GET_NETWORK_SETUP_REQ'',
     known_command GW_GET_NETWORK_SETUP_CFM ''GW_GET_NETWORK_SETUP_CFM'',
     known_command GW_SET_NETWORK_SETUP_REQ ''GW_SET_NETWORK_SETUP_REQ'',
     known_command GW_SET_NETWORK_SETUP_CFM ''GW_SET_NETWORK_SETUP_CFM'',
     known_command GW_CS_GET_SYSTEMTABLE_DATA_REQ ''GW_CS_GET_SYSTEMTABLE_DATA_REQ'',
     known_command GW_CS_GET_SYSTEMTABLE_DATA_CFM ''GW_CS_GET_SYSTEMTABLE_DATA_CFM'',
     known_command GW_CS_GET_SYSTEMTABLE_DATA_NTF ''GW_CS_GET_SYSTEMTABLE_DATA_NTF'',
     known_command GW_CS_DISCOVER_NODES_REQ ''GW_CS_DISCOVER_NODES_REQ'',
     known_command GW_CS_DISCOVER_NODES_CFM ''GW_CS_DISCOVER_NODES_CFM'',
     known_command GW_CS_DISCOVER_NODES_NTF ''GW_CS_DISCOVER_NODES_NTF'',
     known_command GW_CS_REMOVE_NODES_REQ ''GW_CS_REMOVE_NODES_REQ'',
     known_command GW_CS_REMOVE_NODES_CFM ''GW_CS_REMOVE_NODES_CFM'',
     known_command GW_CS_VIRGIN_STATE_REQ ''GW_CS_VIRGIN_STATE_REQ'',
     known_command GW_CS_VIRGIN_STATE_CFM ''GW_CS_VIRGIN_STATE_CFM'',
     known_command GW_CS_CONTROLLER_COPY_REQ ''GW_CS_CONTROLLER_COPY_REQ'',
     known_command GW_CS_CONTROLLER_COPY_CFM ''GW_CS_CONTROLLER_COPY_CFM'',
     known_command GW_CS_CONTROLLER_COPY_NTF ''GW_CS_CONTROLLER_COPY_NTF'',
     known_command GW_CS_CONTROLLER_COPY_CANCEL_NTF ''GW_CS_CONTROLLER_COPY_CANCEL_NTF'',
     known_command GW_CS_RECEIVE_KEY_REQ ''GW_CS_RECEIVE_KEY_REQ'',
     known_command GW_CS_RECEIVE_KEY_CFM ''GW_CS_RECEIVE_KEY_CFM'',
     known_command GW_CS_RECEIVE_KEY_NTF ''GW_CS_RECEIVE_KEY_NTF'',
     known_command GW_CS_PGC_JOB_NTF ''GW_CS_PGC_JOB_NTF'',
     known_command GW_CS_SYSTEM_TABLE_UPDATE_NTF ''GW_CS_SYSTEM_TABLE_UPDATE_NTF'',
     known_command GW_CS_GENERATE_NEW_KEY_REQ ''GW_CS_GENERATE_NEW_KEY_REQ'',
     known_command GW_CS_GENERATE_NEW_KEY_CFM ''GW_CS_GENERATE_NEW_KEY_CFM'',
     known_command GW_CS_GENERATE_NEW_KEY_NTF ''GW_CS_GENERATE_NEW_KEY_NTF'',
     known_command GW_CS_REPAIR_KEY_REQ ''GW_CS_REPAIR_KEY_REQ'',
     known_command GW_CS_REPAIR_KEY_CFM ''GW_CS_REPAIR_KEY_CFM'',
     known_command GW_CS_REPAIR_KEY_NTF ''GW_CS_REPAIR_KEY_NTF'',
     known_command GW_CS_ACTIVATE_CONFIGURATION_MODE_REQ ''GW_CS_ACTIVATE_CONFIGURATION_MODE_REQ'',
     known_command GW_CS_ACTIVATE_CONFIGURATION_MODE_CFM ''GW_CS_ACTIVATE_CONFIGURATION_MODE_CFM'',
     known_command GW_GET_NODE_INFORMATION_REQ ''GW_GET_NODE_INFORMATION_REQ'',
     known_command GW_GET_NODE_INFORMATION_CFM ''GW_GET_NODE_INFORMATION_CFM'',
     known_command GW_GET_ALL_NODES_INFORMATION_REQ ''GW_GET_ALL_NODES_INFORMATION_REQ'',
     known_command GW_GET_ALL_NODES_INFORMATION_CFM ''GW_GET_ALL_NODES_INFORMATION_CFM'',
     known_command GW_GET_ALL_NODES_INFORMATION_NTF ''GW_GET_ALL_NODES_INFORMATION_NTF'',
     known_command GW_GET_ALL_NODES_INFORMATION_FINISHED_NTF ''GW_GET_ALL_NODES_INFORMATION_FINISHED_NTF'',
     known_command GW_SET_NODE_VARIATION_REQ ''GW_SET_NODE_VARIATION_REQ'',
     known_command GW_SET_NODE_VARIATION_CFM ''GW_SET_NODE_VARIATION_CFM'',
     known_command GW_SET_NODE_NAME_REQ ''GW_SET_NODE_NAME_REQ'',
     known_command GW_SET_NODE_NAME_CFM ''GW_SET_NODE_NAME_CFM'',
     known_command GW_NODE_INFORMATION_CHANGED_NTF ''GW_NODE_INFORMATION_CHANGED_NTF'',
     known_command GW_SET_NODE_ORDER_AND_PLACEMENT_REQ ''GW_SET_NODE_ORDER_AND_PLACEMENT_REQ'',
     known_command GW_SET_NODE_ORDER_AND_PLACEMENT_CFM ''GW_SET_NODE_ORDER_AND_PLACEMENT_CFM'',
     known_command GW_GET_NODE_INFORMATION_NTF ''GW_GET_NODE_INFORMATION_NTF'',
     known_command GW_NODE_STATE_POSITION_CHANGED_NTF ''GW_NODE_STATE_POSITION_CHANGED_NTF'',
     known_command GW_GET_GROUP_INFORMATION_REQ ''GW_GET_GROUP_INFORMATION_REQ'',
     known_command GW_GET_GROUP_INFORMATION_CFM ''GW_GET_GROUP_INFORMATION_CFM'',
     known_command GW_SET_GROUP_INFORMATION_REQ ''GW_SET_GROUP_INFORMATION_REQ'',
     known_command GW_SET_GROUP_INFORMATION_CFM ''GW_SET_GROUP_INFORMATION_CFM'',
     known_command GW_GROUP_INFORMATION_CHANGED_NTF ''GW_GROUP_INFORMATION_CHANGED_NTF'',
     known_command GW_DELETE_GROUP_REQ ''GW_DELETE_GROUP_REQ'',
     known_command GW_DELETE_GROUP_CFM ''GW_DELETE_GROUP_CFM'',
     known_command GW_NEW_GROUP_REQ ''GW_NEW_GROUP_REQ'',
     known_command GW_NEW_GROUP_CFM ''GW_NEW_GROUP_CFM'',
     known_command GW_GET_ALL_GROUPS_INFORMATION_REQ ''GW_GET_ALL_GROUPS_INFORMATION_REQ'',
     known_command GW_GET_ALL_GROUPS_INFORMATION_CFM ''GW_GET_ALL_GROUPS_INFORMATION_CFM'',
     known_command GW_GET_ALL_GROUPS_INFORMATION_NTF ''GW_GET_ALL_GROUPS_INFORMATION_NTF'',
     known_command GW_GET_ALL_GROUPS_INFORMATION_FINISHED_NTF ''GW_GET_ALL_GROUPS_INFORMATION_FINISHED_NTF'',
     known_command GW_GROUP_DELETED_NTF ''GW_GROUP_DELETED_NTF'',
     known_command GW_GET_GROUP_INFORMATION_NTF ''GW_GET_GROUP_INFORMATION_NTF'',
     known_command GW_HOUSE_STATUS_MONITOR_ENABLE_REQ ''GW_HOUSE_STATUS_MONITOR_ENABLE_REQ'',
     known_command GW_HOUSE_STATUS_MONITOR_ENABLE_CFM ''GW_HOUSE_STATUS_MONITOR_ENABLE_CFM'',
     known_command GW_HOUSE_STATUS_MONITOR_DISABLE_REQ ''GW_HOUSE_STATUS_MONITOR_DISABLE_REQ'',
     known_command GW_HOUSE_STATUS_MONITOR_DISABLE_CFM ''GW_HOUSE_STATUS_MONITOR_DISABLE_CFM'',
     known_command GW_COMMAND_SEND_REQ ''GW_COMMAND_SEND_REQ'',
     known_command GW_COMMAND_SEND_CFM ''GW_COMMAND_SEND_CFM'',
     known_command GW_COMMAND_RUN_STATUS_NTF ''GW_COMMAND_RUN_STATUS_NTF'',
     known_command GW_COMMAND_REMAINING_TIME_NTF ''GW_COMMAND_REMAINING_TIME_NTF'',
     known_command GW_SESSION_FINISHED_NTF ''GW_SESSION_FINISHED_NTF'',
     known_command GW_STATUS_REQUEST_REQ ''GW_STATUS_REQUEST_REQ'',
     known_command GW_STATUS_REQUEST_CFM ''GW_STATUS_REQUEST_CFM'',
     known_command GW_STATUS_REQUEST_NTF ''GW_STATUS_REQUEST_NTF'',
     known_command GW_WINK_SEND_REQ ''GW_WINK_SEND_REQ'',
     known_command GW_WINK_SEND_CFM ''GW_WINK_SEND_CFM'',
     known_command GW_WINK_SEND_NTF ''GW_WINK_SEND_NTF'',
     known_command GW_SET_LIMITATION_REQ ''GW_SET_LIMITATION_REQ'',
     known_command GW_SET_LIMITATION_CFM ''GW_SET_LIMITATION_CFM'',
     known_command GW_GET_LIMITATION_STATUS_REQ ''GW_GET_LIMITATION_STATUS_REQ'',
     known_command GW_GET_LIMITATION_STATUS_CFM ''GW_GET_LIMITATION_STATUS_CFM'',
     known_command GW_LIMITATION_STATUS_NTF ''GW_LIMITATION_STATUS_NTF'',
     known_command GW_MODE_SEND_REQ ''GW_MODE_SEND_REQ'',
     known_command GW_MODE_SEND_CFM ''GW_MODE_SEND_CFM'',
     known_command GW_MODE_SEND_NTF ''GW_MODE_SEND_NTF'',
     known_command GW_INITIALIZE_SCENE_REQ ''GW_INITIALIZE_SCENE_REQ'',
     known_command GW_INITIALIZE_SCENE_CFM ''GW_INITIALIZE_SCENE_CFM'',
     known_command GW_INITIALIZE_SCENE_NTF ''GW_INITIALIZE_SCENE_NTF'',
     known_command GW_INITIALIZE_SCENE_CANCEL_REQ ''GW_INITIALIZE_SCENE_CANCEL_REQ'',
     known_command GW_INITIALIZE_SCENE_CANCEL_CFM ''GW_INITIALIZE_SCENE_CANCEL_CFM'',
     known_command GW_RECORD_SCENE_REQ ''GW_RECORD_SCENE_REQ'',
     known_command GW_RECORD_SCENE_CFM ''GW_RECORD_SCENE_CFM'',
     known_command GW_RECORD_SCENE_NTF ''GW_RECORD_SCENE_NTF'',
     known_command GW_DELETE_SCENE_REQ ''GW_DELETE_SCENE_REQ'',
     known_command GW_DELETE_SCENE_CFM ''GW_DELETE_SCENE_CFM'',
     known_command GW_RENAME_SCENE_REQ ''GW_RENAME_SCENE_REQ'',
     known_command GW_RENAME_SCENE_CFM ''GW_RENAME_SCENE_CFM'',
     known_command GW_GET_SCENE_LIST_REQ ''GW_GET_SCENE_LIST_REQ'',
     known_command GW_GET_SCENE_LIST_CFM ''GW_GET_SCENE_LIST_CFM'',
     known_command GW_GET_SCENE_LIST_NTF ''GW_GET_SCENE_LIST_NTF'',
     known_command GW_GET_SCENE_INFOAMATION_REQ ''GW_GET_SCENE_INFOAMATION_REQ'',
     known_command GW_GET_SCENE_INFOAMATION_CFM ''GW_GET_SCENE_INFOAMATION_CFM'',
     known_command GW_GET_SCENE_INFOAMATION_NTF ''GW_GET_SCENE_INFOAMATION_NTF'',
     known_command GW_ACTIVATE_SCENE_REQ ''GW_ACTIVATE_SCENE_REQ'',
     known_command GW_ACTIVATE_SCENE_CFM ''GW_ACTIVATE_SCENE_CFM'',
     known_command GW_STOP_SCENE_REQ ''GW_STOP_SCENE_REQ'',
     known_command GW_STOP_SCENE_CFM ''GW_STOP_SCENE_CFM'',
     known_command GW_SCENE_INFORMATION_CHANGED_NTF ''GW_SCENE_INFORMATION_CHANGED_NTF'',
     known_command GW_ACTIVATE_PRODUCTGROUP_REQ ''GW_ACTIVATE_PRODUCTGROUP_REQ'',
     known_command GW_ACTIVATE_PRODUCTGROUP_CFM ''GW_ACTIVATE_PRODUCTGROUP_CFM'',
     known_command GW_ACTIVATE_PRODUCTGROUP_NTF ''GW_ACTIVATE_PRODUCTGROUP_NTF'',
     known_command GW_GET_CONTACT_INPUT_LINK_LIST_REQ ''GW_GET_CONTACT_INPUT_LINK_LIST_REQ'',
     known_command GW_GET_CONTACT_INPUT_LINK_LIST_CFM ''GW_GET_CONTACT_INPUT_LINK_LIST_CFM'',
     known_command GW_SET_CONTACT_INPUT_LINK_REQ ''GW_SET_CONTACT_INPUT_LINK_REQ'',
     known_command GW_SET_CONTACT_INPUT_LINK_CFM ''GW_SET_CONTACT_INPUT_LINK_CFM'',
     known_command GW_REMOVE_CONTACT_INPUT_LINK_REQ ''GW_REMOVE_CONTACT_INPUT_LINK_REQ'',
     known_command GW_REMOVE_CONTACT_INPUT_LINK_CFM ''GW_REMOVE_CONTACT_INPUT_LINK_CFM'',
     known_command GW_GET_ACTIVATION_LOG_HEADER_REQ ''GW_GET_ACTIVATION_LOG_HEADER_REQ'',
     known_command GW_GET_ACTIVATION_LOG_HEADER_CFM ''GW_GET_ACTIVATION_LOG_HEADER_CFM'',
     known_command GW_CLEAR_ACTIVATION_LOG_REQ ''GW_CLEAR_ACTIVATION_LOG_REQ'',
     known_command GW_CLEAR_ACTIVATION_LOG_CFM ''GW_CLEAR_ACTIVATION_LOG_CFM'',
     known_command GW_GET_ACTIVATION_LOG_LINE_REQ ''GW_GET_ACTIVATION_LOG_LINE_REQ'',
     known_command GW_GET_ACTIVATION_LOG_LINE_CFM ''GW_GET_ACTIVATION_LOG_LINE_CFM'',
     known_command GW_ACTIVATION_LOG_UPDATED_NTF ''GW_ACTIVATION_LOG_UPDATED_NTF'',
     known_command GW_GET_MULTIPLE_ACTIVATION_LOG_LINES_REQ ''GW_GET_MULTIPLE_ACTIVATION_LOG_LINES_REQ'',
     known_command GW_GET_MULTIPLE_ACTIVATION_LOG_LINES_NTF ''GW_GET_MULTIPLE_ACTIVATION_LOG_LINES_NTF'',
     known_command GW_GET_MULTIPLE_ACTIVATION_LOG_LINES_CFM ''GW_GET_MULTIPLE_ACTIVATION_LOG_LINES_CFM'',
     known_command GW_SET_UTC_REQ ''GW_SET_UTC_REQ'',
     known_command GW_SET_UTC_CFM ''GW_SET_UTC_CFM'',
     known_command GW_RTC_SET_TIME_ZONE_REQ ''GW_RTC_SET_TIME_ZONE_REQ'',
     known_command GW_RTC_SET_TIME_ZONE_CFM ''GW_RTC_SET_TIME_ZONE_CFM'',
     known_command GW_GET_LOCAL_TIME_REQ ''GW_GET_LOCAL_TIME_REQ'',
     known_command GW_GET_LOCAL_TIME_CFM ''GW_GET_LOCAL_TIME_CFM'',
     known_command GW_PASSWORD_ENTER_REQ ''GW_PASSWORD_ENTER_REQ'',
     known_command GW_PASSWORD_ENTER_CFM ''GW_PASSWORD_ENTER_CFM'',
     known_command GW_PASSWORD_CHANGE_REQ ''GW_PASSWORD_CHANGE_REQ'',
     known_command GW_PASSWORD_CHANGE_CFM ''GW_PASSWORD_CHANGE_CFM'',
     known_command GW_PASSWORD_CHANGE_NTF ''GW_PASSWORD_CHANGE_NTF'']"

section \<open>Lookup\<close>

text \<open>\<open>str::ends_with\<close> and \<open>str::strip_suffix\<close>.\<close>

definition ends_with :: "string \<Rightarrow> string \<Rightarrow> bool" where
  "ends_with s suf \<longleftrightarrow>
     length suf \<le> length s \<and> drop (length s - length suf) s = suf"

definition strip_suffix :: "string \<Rightarrow> string \<Rightarrow> string option" where
  "strip_suffix s suf = (if ends_with s suf then Some (take (length s - length suf) s) else None)"

definition KnownCommand_kind :: "KnownCommand \<Rightarrow> CommandKind" where
  "KnownCommand_kind c =
     (if ends_with (kc_name c) ''_REQ'' then RequestKind
      else if ends_with (kc_name c) ''_CFM'' then ConfirmationKind
      else if ends_with (kc_name c) ''_NTF'' then NotificationKind
      else UnknownKind)"

definition known :: "CommandId \<Rightarrow> KnownCommand option" where
  "known c = find (\<lambda>command. kc_id command = c) ALL_KNOWN_COMMANDS"

definition command_name :: "CommandId \<Rightarrow> string option" where
  "command_name c = map_option kc_name (known c)"

definition kind :: "CommandId \<Rightarrow> CommandKind" where
  "kind c = (case known c of None \<Rightarrow> UnknownKind | Some k \<Rightarrow> KnownCommand_kind k)"

definition expected_confirmation :: "CommandId \<Rightarrow> CommandId option" where
  "expected_confirmation c =
     (case command_name c of
        None \<Rightarrow> None
      | Some n \<Rightarrow>
          (case strip_suffix n ''_REQ'' of
             None \<Rightarrow> None
           | Some request_prefix \<Rightarrow>
               map_option kc_id
                 (find (\<lambda>candidate. strip_suffix (kc_name candidate) ''_CFM'' = Some request_prefix)
                    ALL_KNOWN_COMMANDS)))"

section \<open>Reference tables\<close>

text \<open>
  The protocol's request/confirmation pairs, written out. The code derives them from the names in
  the table of known commands; the lemmas below show that the derivation computes exactly this
  relation. \<open>request_stems\<close> lists what the two names of a pair have in common.
\<close>

definition confirmed_commands :: "(CommandId \<times> CommandId) list" where
  "confirmed_commands =
    [(GW_REBOOT_REQ, GW_REBOOT_CFM), (GW_SET_FACTORY_DEFAULT_REQ, GW_SET_FACTORY_DEFAULT_CFM),
     (GW_GET_VERSION_REQ, GW_GET_VERSION_CFM),
     (GW_GET_PROTOCOL_VERSION_REQ, GW_GET_PROTOCOL_VERSION_CFM),
     (GW_GET_STATE_REQ, GW_GET_STATE_CFM),
     (GW_LEAVE_LEARN_STATE_REQ, GW_LEAVE_LEARN_STATE_CFM),
     (GW_GET_NETWORK_SETUP_REQ, GW_GET_NETWORK_SETUP_CFM),
     (GW_SET_NETWORK_SETUP_REQ, GW_SET_NETWORK_SETUP_CFM),
     (GW_CS_GET_SYSTEMTABLE_DATA_REQ, GW_CS_GET_SYSTEMTABLE_DATA_CFM),
     (GW_CS_DISCOVER_NODES_REQ, GW_CS_DISCOVER_NODES_CFM),
     (GW_CS_REMOVE_NODES_REQ, GW_CS_REMOVE_NODES_CFM),
     (GW_CS_VIRGIN_STATE_REQ, GW_CS_VIRGIN_STATE_CFM),
     (GW_CS_CONTROLLER_COPY_REQ, GW_CS_CONTROLLER_COPY_CFM),
     (GW_CS_RECEIVE_KEY_REQ, GW_CS_RECEIVE_KEY_CFM),
     (GW_CS_GENERATE_NEW_KEY_REQ, GW_CS_GENERATE_NEW_KEY_CFM),
     (GW_CS_REPAIR_KEY_REQ, GW_CS_REPAIR_KEY_CFM),
     (GW_CS_ACTIVATE_CONFIGURATION_MODE_REQ, GW_CS_ACTIVATE_CONFIGURATION_MODE_CFM),
     (GW_GET_NODE_INFORMATION_REQ, GW_GET_NODE_INFORMATION_CFM),
     (GW_GET_ALL_NODES_INFORMATION_REQ, GW_GET_ALL_NODES_INFORMATION_CFM),
     (GW_SET_NODE_VARIATION_REQ, GW_SET_NODE_VARIATION_CFM),
     (GW_SET_NODE_NAME_REQ, GW_SET_NODE_NAME_CFM),
     (GW_SET_NODE_ORDER_AND_PLACEMENT_REQ, GW_SET_NODE_ORDER_AND_PLACEMENT_CFM),
     (GW_GET_GROUP_INFORMATION_REQ, GW_GET_GROUP_INFORMATION_CFM),
     (GW_SET_GROUP_INFORMATION_REQ, GW_SET_GROUP_INFORMATION_CFM),
     (GW_DELETE_GROUP_REQ, GW_DELETE_GROUP_CFM), (GW_NEW_GROUP_REQ, GW_NEW_GROUP_CFM),
     (GW_GET_ALL_GROUPS_INFORMATION_REQ, GW_GET_ALL_GROUPS_INFORMATION_CFM),
     (GW_HOUSE_STATUS_MONITOR_ENABLE_REQ, GW_HOUSE_STATUS_MONITOR_ENABLE_CFM),
     (GW_HOUSE_STATUS_MONITOR_DISABLE_REQ, GW_HOUSE_STATUS_MONITOR_DISABLE_CFM),
     (GW_COMMAND_SEND_REQ, GW_COMMAND_SEND_CFM),
     (GW_STATUS_REQUEST_REQ, GW_STATUS_REQUEST_CFM), (GW_WINK_SEND_REQ, GW_WINK_SEND_CFM),
     (GW_SET_LIMITATION_REQ, GW_SET_LIMITATION_CFM),
     (GW_GET_LIMITATION_STATUS_REQ, GW_GET_LIMITATION_STATUS_CFM),
     (GW_MODE_SEND_REQ, GW_MODE_SEND_CFM), (GW_INITIALIZE_SCENE_REQ, GW_INITIALIZE_SCENE_CFM),
     (GW_INITIALIZE_SCENE_CANCEL_REQ, GW_INITIALIZE_SCENE_CANCEL_CFM),
     (GW_RECORD_SCENE_REQ, GW_RECORD_SCENE_CFM), (GW_DELETE_SCENE_REQ, GW_DELETE_SCENE_CFM),
     (GW_RENAME_SCENE_REQ, GW_RENAME_SCENE_CFM),
     (GW_GET_SCENE_LIST_REQ, GW_GET_SCENE_LIST_CFM),
     (GW_GET_SCENE_INFOAMATION_REQ, GW_GET_SCENE_INFOAMATION_CFM),
     (GW_ACTIVATE_SCENE_REQ, GW_ACTIVATE_SCENE_CFM), (GW_STOP_SCENE_REQ, GW_STOP_SCENE_CFM),
     (GW_ACTIVATE_PRODUCTGROUP_REQ, GW_ACTIVATE_PRODUCTGROUP_CFM),
     (GW_GET_CONTACT_INPUT_LINK_LIST_REQ, GW_GET_CONTACT_INPUT_LINK_LIST_CFM),
     (GW_SET_CONTACT_INPUT_LINK_REQ, GW_SET_CONTACT_INPUT_LINK_CFM),
     (GW_REMOVE_CONTACT_INPUT_LINK_REQ, GW_REMOVE_CONTACT_INPUT_LINK_CFM),
     (GW_GET_ACTIVATION_LOG_HEADER_REQ, GW_GET_ACTIVATION_LOG_HEADER_CFM),
     (GW_CLEAR_ACTIVATION_LOG_REQ, GW_CLEAR_ACTIVATION_LOG_CFM),
     (GW_GET_ACTIVATION_LOG_LINE_REQ, GW_GET_ACTIVATION_LOG_LINE_CFM),
     (GW_GET_MULTIPLE_ACTIVATION_LOG_LINES_REQ, GW_GET_MULTIPLE_ACTIVATION_LOG_LINES_CFM),
     (GW_SET_UTC_REQ, GW_SET_UTC_CFM), (GW_RTC_SET_TIME_ZONE_REQ, GW_RTC_SET_TIME_ZONE_CFM),
     (GW_GET_LOCAL_TIME_REQ, GW_GET_LOCAL_TIME_CFM),
     (GW_PASSWORD_ENTER_REQ, GW_PASSWORD_ENTER_CFM),
     (GW_PASSWORD_CHANGE_REQ, GW_PASSWORD_CHANGE_CFM)]"

definition request_stems :: "string list" where
  "request_stems =
    [''GW_REBOOT'', ''GW_SET_FACTORY_DEFAULT'', ''GW_GET_VERSION'',
     ''GW_GET_PROTOCOL_VERSION'', ''GW_GET_STATE'', ''GW_LEAVE_LEARN_STATE'',
     ''GW_GET_NETWORK_SETUP'', ''GW_SET_NETWORK_SETUP'', ''GW_CS_GET_SYSTEMTABLE_DATA'',
     ''GW_CS_DISCOVER_NODES'', ''GW_CS_REMOVE_NODES'', ''GW_CS_VIRGIN_STATE'',
     ''GW_CS_CONTROLLER_COPY'', ''GW_CS_RECEIVE_KEY'', ''GW_CS_GENERATE_NEW_KEY'',
     ''GW_CS_REPAIR_KEY'', ''GW_CS_ACTIVATE_CONFIGURATION_MODE'', ''GW_GET_NODE_INFORMATION'',
     ''GW_GET_ALL_NODES_INFORMATION'', ''GW_SET_NODE_VARIATION'', ''GW_SET_NODE_NAME'',
     ''GW_SET_NODE_ORDER_AND_PLACEMENT'', ''GW_GET_GROUP_INFORMATION'',
     ''GW_SET_GROUP_INFORMATION'', ''GW_DELETE_GROUP'', ''GW_NEW_GROUP'',
     ''GW_GET_ALL_GROUPS_INFORMATION'', ''GW_HOUSE_STATUS_MONITOR_ENABLE'',
     ''GW_HOUSE_STATUS_MONITOR_DISABLE'', ''GW_COMMAND_SEND'', ''GW_STATUS_REQUEST'',
     ''GW_WINK_SEND'', ''GW_SET_LIMITATION'', ''GW_GET_LIMITATION_STATUS'', ''GW_MODE_SEND'',
     ''GW_INITIALIZE_SCENE'', ''GW_INITIALIZE_SCENE_CANCEL'', ''GW_RECORD_SCENE'',
     ''GW_DELETE_SCENE'', ''GW_RENAME_SCENE'', ''GW_GET_SCENE_LIST'',
     ''GW_GET_SCENE_INFOAMATION'', ''GW_ACTIVATE_SCENE'', ''GW_STOP_SCENE'',
     ''GW_ACTIVATE_PRODUCTGROUP'', ''GW_GET_CONTACT_INPUT_LINK_LIST'',
     ''GW_SET_CONTACT_INPUT_LINK'', ''GW_REMOVE_CONTACT_INPUT_LINK'',
     ''GW_GET_ACTIVATION_LOG_HEADER'', ''GW_CLEAR_ACTIVATION_LOG'',
     ''GW_GET_ACTIVATION_LOG_LINE'', ''GW_GET_MULTIPLE_ACTIVATION_LOG_LINES'', ''GW_SET_UTC'',
     ''GW_RTC_SET_TIME_ZONE'', ''GW_GET_LOCAL_TIME'', ''GW_PASSWORD_ENTER'',
     ''GW_PASSWORD_CHANGE'']"

text \<open>The commands the gateway sends without being asked, or after a confirmation.\<close>

definition notifications :: "CommandId list" where
  "notifications =
    [GW_ERROR_NTF, GW_CS_GET_SYSTEMTABLE_DATA_NTF, GW_CS_DISCOVER_NODES_NTF,
     GW_CS_CONTROLLER_COPY_NTF, GW_CS_CONTROLLER_COPY_CANCEL_NTF, GW_CS_RECEIVE_KEY_NTF,
     GW_CS_PGC_JOB_NTF, GW_CS_SYSTEM_TABLE_UPDATE_NTF, GW_CS_GENERATE_NEW_KEY_NTF,
     GW_CS_REPAIR_KEY_NTF, GW_GET_ALL_NODES_INFORMATION_NTF,
     GW_GET_ALL_NODES_INFORMATION_FINISHED_NTF, GW_NODE_INFORMATION_CHANGED_NTF,
     GW_GET_NODE_INFORMATION_NTF, GW_NODE_STATE_POSITION_CHANGED_NTF,
     GW_GROUP_INFORMATION_CHANGED_NTF, GW_GET_ALL_GROUPS_INFORMATION_NTF,
     GW_GET_ALL_GROUPS_INFORMATION_FINISHED_NTF, GW_GROUP_DELETED_NTF,
     GW_GET_GROUP_INFORMATION_NTF, GW_COMMAND_RUN_STATUS_NTF, GW_COMMAND_REMAINING_TIME_NTF,
     GW_SESSION_FINISHED_NTF, GW_STATUS_REQUEST_NTF, GW_WINK_SEND_NTF,
     GW_LIMITATION_STATUS_NTF, GW_MODE_SEND_NTF, GW_INITIALIZE_SCENE_NTF, GW_RECORD_SCENE_NTF,
     GW_GET_SCENE_LIST_NTF, GW_GET_SCENE_INFOAMATION_NTF, GW_SCENE_INFORMATION_CHANGED_NTF,
     GW_ACTIVATE_PRODUCTGROUP_NTF, GW_ACTIVATION_LOG_UPDATED_NTF,
     GW_GET_MULTIPLE_ACTIVATION_LOG_LINES_NTF, GW_PASSWORD_CHANGE_NTF]"

section \<open>Suffixes\<close>

lemma ends_with_iff: "ends_with s suf \<longleftrightarrow> (\<exists>p. s = p @ suf)"
  by (auto simp: ends_with_def) (metis append_take_drop_id)

lemma strip_suffix_Some_iff: "strip_suffix s suf = Some p \<longleftrightarrow> s = p @ suf"
  by (auto simp: strip_suffix_def ends_with_def) (metis append_take_drop_id)

lemma strip_suffix_append [simp]: "strip_suffix (p @ suf) suf = Some p"
  by (simp add: strip_suffix_Some_iff)

lemma strip_suffix_None_iff: "strip_suffix s suf = None \<longleftrightarrow> \<not> ends_with s suf"
  by (simp add: strip_suffix_def)

text \<open>Four-character suffixes are read off the reversed string, which evaluates quickly.\<close>

lemma strip_suffix_4:
  "strip_suffix s [a, b, c, d] =
     (case rev s of
        w # x # y # z # r \<Rightarrow>
          if w = d \<and> x = c \<and> y = b \<and> z = a then Some (rev r) else None
      | _ \<Rightarrow> None)"
proof (cases "strip_suffix s [a, b, c, d]")
  case None
  then have "\<nexists>p. s = p @ [a, b, c, d]" by (simp add: strip_suffix_None_iff ends_with_iff)
  moreover have "s = rev r @ [a, b, c, d]" if "rev s = d # c # b # a # r" for r
    using that by (metis append.assoc append_Cons append_Nil rev.simps(2) rev_rev_ident)
  ultimately show ?thesis using None by (auto split: list.splits)
next
  case (Some p)
  then show ?thesis by (auto simp: strip_suffix_Some_iff)
qed

section \<open>The table as a map\<close>

lemma map_option_find:
  "map_option f (find (\<lambda>k. g k = Some t) ks) =
     map_of (List.map_filter (\<lambda>k. map_option (\<lambda>u. (u, f k)) (g k)) ks) t"
  by (induction ks) (auto simp: map_filter_simps split: option.splits)

lemma bind_find:
  assumes "distinct (map f ks)"
  shows "Option.bind (find (\<lambda>k. f k = c) ks) g =
     map_of (List.map_filter (\<lambda>k. map_option (Pair (f k)) (g k)) ks) c"
proof -
  have none: "map_of (List.map_filter (\<lambda>k. map_option (Pair (f k)) (g k)) ks) c = None"
    if "c \<notin> f ` set ks" for c ks
    using that by (induction ks) (auto simp: map_filter_simps split: option.splits)
  show ?thesis using assms
    by (induction ks) (auto simp: map_filter_simps none split: option.splits)
qed

lemma map_of_zip_compose:
  assumes "length ts = length cs" "length cs = length ds" "distinct ts"
  shows "Option.bind (map_of (zip cs ts) c) (map_of (zip ts ds)) = map_of (zip cs ds) c"
  using assms
proof (induction ts cs ds rule: list_induct3)
  case (Cons t ts c' cs d ds)
  have "t \<notin> ran (map_of (zip cs ts))"
    using Cons by (auto simp: ran_def dest!: map_of_SomeD dest: set_zip_rightD)
  moreover have "Option.bind m (\<lambda>a. if a = t then Some d else f a) = Option.bind m f"
    if "m \<noteq> Some t" for m f
    using that by (cases m) auto
  ultimately show ?case using Cons by (auto simp: ran_def)
qed auto

lemma known_ids_ascending: "successively (<) (map (raw \<circ> kc_id) ALL_KNOWN_COMMANDS)"
  by (simp add: ALL_KNOWN_COMMANDS_def known_command_def)

lemma distinct_known_ids: "distinct (map kc_id ALL_KNOWN_COMMANDS)"
proof -
  have "sorted_wrt (<) (map (raw \<circ> kc_id) ALL_KNOWN_COMMANDS)"
    using known_ids_ascending by (simp add: successively_conv_sorted_wrt)
  then have "distinct (map raw (map kc_id ALL_KNOWN_COMMANDS))"
    by (simp add: strict_sorted_iff flip: map_map)
  then show ?thesis by (auto simp: distinct_map intro: inj_on_imageI2 [of raw])
qed

lemma known_Some_iff: "known c = Some k \<longleftrightarrow> k \<in> set ALL_KNOWN_COMMANDS \<and> kc_id k = c"
proof
  assume "known c = Some k"
  then show "k \<in> set ALL_KNOWN_COMMANDS \<and> kc_id k = c"
    by (auto simp: known_def find_Some_iff)
next
  assume k: "k \<in> set ALL_KNOWN_COMMANDS \<and> kc_id k = c"
  then obtain k' where k': "known c = Some k'"
    by (cases "known c") (auto simp: known_def find_None_iff)
  then have "k' \<in> set ALL_KNOWN_COMMANDS" "kc_id k' = c"
    by (auto simp: known_def find_Some_iff)
  with k k' distinct_known_ids show "known c = Some k" by (auto simp: distinct_map inj_on_def)
qed

lemma request_entries:
  "List.map_filter (\<lambda>k. map_option (Pair (kc_id k)) (strip_suffix (kc_name k) ''_REQ'')) ALL_KNOWN_COMMANDS
     = zip (map fst confirmed_commands) request_stems"
  by (simp add: ALL_KNOWN_COMMANDS_def known_command_def map_filter_simps strip_suffix_4
      confirmed_commands_def request_stems_def)

lemma confirmation_entries:
  "List.map_filter (\<lambda>k. map_option (\<lambda>t. (t, kc_id k)) (strip_suffix (kc_name k) ''_CFM'')) ALL_KNOWN_COMMANDS
     = zip request_stems (map snd confirmed_commands)"
  by (simp add: ALL_KNOWN_COMMANDS_def known_command_def map_filter_simps strip_suffix_4
      confirmed_commands_def request_stems_def)

lemma distinct_request_stems: "distinct request_stems"
  by (simp add: request_stems_def)

lemma length_request_stems: "length request_stems = length confirmed_commands"
  by (simp add: request_stems_def confirmed_commands_def)

text \<open>The confirmation the code looks up by name is the one of the protocol's table.\<close>

lemma expected_confirmation_eq: "expected_confirmation c = map_of confirmed_commands c"
proof -
  have "expected_confirmation c =
      Option.bind (Option.bind (known c) (\<lambda>k. strip_suffix (kc_name k) ''_REQ''))
        (\<lambda>t. map_option kc_id
          (find (\<lambda>k. strip_suffix (kc_name k) ''_CFM'' = Some t) ALL_KNOWN_COMMANDS))"
    by (auto simp: expected_confirmation_def command_name_def split: option.splits)
  also have "\<dots> = Option.bind (map_of (zip (map fst confirmed_commands) request_stems) c)
      (map_of (zip request_stems (map snd confirmed_commands)))"
    by (simp add: known_def bind_find [OF distinct_known_ids] map_option_find request_entries
        confirmation_entries)
  also have "\<dots> = map_of (zip (map fst confirmed_commands) (map snd confirmed_commands)) c"
    by (rule map_of_zip_compose) (simp_all add: length_request_stems distinct_request_stems)
  finally show ?thesis by (simp add: zip_map_fst_snd)
qed

text \<open>The kind of a command, read off its name, agrees with the two columns of the table.\<close>

lemma kind_Request_iff: "kind c = RequestKind \<longleftrightarrow> c \<in> fst ` set confirmed_commands"
proof -
  have "kind c = RequestKind \<longleftrightarrow> Option.bind (known c) (\<lambda>k. strip_suffix (kc_name k) ''_REQ'') \<noteq> None"
    by (auto simp: kind_def KnownCommand_kind_def strip_suffix_def split: option.splits)
  also have "\<dots> \<longleftrightarrow> c \<in> fst ` set (zip (map fst confirmed_commands) request_stems)"
    by (simp add: known_def bind_find [OF distinct_known_ids] request_entries map_of_eq_None_iff)
  also have "\<dots> \<longleftrightarrow> c \<in> set (map fst (zip (map fst confirmed_commands) request_stems))"
    by simp
  finally show ?thesis by (simp add: length_request_stems del: map_zip_map)
qed

lemma kind_iff:
  "kind c = k \<longleftrightarrow> k = UnknownKind \<and> known c = None
     \<or> c \<in> set (map kc_id (filter (\<lambda>d. KnownCommand_kind d = k) ALL_KNOWN_COMMANDS))"
proof (cases "known c")
  case None
  then have "c \<notin> kc_id ` set ALL_KNOWN_COMMANDS" by (auto simp: known_def find_None_iff)
  then show ?thesis using None by (auto simp: kind_def)
next
  case (Some d)
  have "c \<in> set (map kc_id (filter P ALL_KNOWN_COMMANDS)) \<longleftrightarrow> P d" for P
  proof -
    have "c \<in> set (map kc_id (filter P ALL_KNOWN_COMMANDS)) \<longleftrightarrow> (\<exists>e. known c = Some e \<and> P e)"
      by (auto simp: known_Some_iff)
    then show ?thesis using Some by simp
  qed
  from this [of "\<lambda>d. KnownCommand_kind d = k"] show ?thesis using Some by (simp add: kind_def)
qed

lemma KnownCommand_kind_code:
  "KnownCommand_kind d =
     (case strip_suffix (kc_name d) ''_REQ'' of Some _ \<Rightarrow> RequestKind
      | None \<Rightarrow> case strip_suffix (kc_name d) ''_CFM'' of Some _ \<Rightarrow> ConfirmationKind
      | None \<Rightarrow> case strip_suffix (kc_name d) ''_NTF'' of Some _ \<Rightarrow> NotificationKind
      | None \<Rightarrow> UnknownKind)"
  by (simp add: KnownCommand_kind_def strip_suffix_def)

lemma notification_entries:
  "map kc_id (filter (\<lambda>d. KnownCommand_kind d = NotificationKind) ALL_KNOWN_COMMANDS) = notifications"
  by (simp add: ALL_KNOWN_COMMANDS_def known_command_def KnownCommand_kind_code strip_suffix_4
      notifications_def)

lemma confirmation_kinds:
  "map kc_id (filter (\<lambda>d. KnownCommand_kind d = ConfirmationKind) ALL_KNOWN_COMMANDS)
     = map snd confirmed_commands"
  by (simp add: ALL_KNOWN_COMMANDS_def known_command_def KnownCommand_kind_code strip_suffix_4
      confirmed_commands_def)

lemma known_kinds: "filter (\<lambda>d. KnownCommand_kind d = UnknownKind) ALL_KNOWN_COMMANDS = []"
  by (simp add: ALL_KNOWN_COMMANDS_def known_command_def KnownCommand_kind_code strip_suffix_4)

lemma kind_Notification_iff: "kind c = NotificationKind \<longleftrightarrow> c \<in> set notifications"
  by (simp add: kind_iff notification_entries)

lemma kind_Confirmation_iff: "kind c = ConfirmationKind \<longleftrightarrow> c \<in> snd ` set confirmed_commands"
  by (simp add: kind_iff confirmation_kinds)

lemma kind_Unknown_iff: "kind c = UnknownKind \<longleftrightarrow> known c = None"
  by (simp add: kind_iff known_kinds)
lemma confirmation_known: "d \<in> snd ` set confirmed_commands \<Longrightarrow> kind d = ConfirmationKind"
  by (simp add: kind_Confirmation_iff)

lemma distinct_requests: "distinct (map fst confirmed_commands)"
  by (simp add: confirmed_commands_def)

lemma distinct_confirmations: "distinct (map snd confirmed_commands)"
  by (simp add: confirmed_commands_def)

section \<open>Properties\<close>

text \<open>
  C40. The confirmation the client waits for, found through the names of the commands, is the one of
  the protocol's table, and no two requests share one.
\<close>

theorem confirmations_by_table:
  "expected_confirmation c = map_of confirmed_commands c
   \<and> distinct (map fst confirmed_commands) \<and> distinct (map snd confirmed_commands)
   \<and> (kind c = RequestKind \<longleftrightarrow> c \<in> fst ` set confirmed_commands)
   \<and> (kind c = ConfirmationKind \<longleftrightarrow> c \<in> snd ` set confirmed_commands)"
  by (simp only: expected_confirmation_eq distinct_requests distinct_confirmations kind_Request_iff
      kind_Confirmation_iff simp_thms)

end
