(* ===== verification/Klf_Error.thy ===== *)
theory Klf_Error
  imports Command_Id
begin

text \<open>
  The error type of the KLF client (\<open>src/klf200/error.rs\<close>). Its texts are in the theory
  \<open>Klf_Display\<close>.
\<close>

datatype klf_error =
    PayloadTooLarge nat
  | FrameTooShort nat
  | InvalidProtocolId u8
  | InvalidFrameLength nat nat
  | InvalidChecksum u8 u8
  | InvalidSlipEscape u8
  | IncompleteSlipEscape
  | SlipFrameTooLarge nat
  | InvalidUtf8
  | StringTooLong nat nat
  | SessionIdsExhausted
  | SessionIdInUse u16
  | UnsupportedRequest CommandId
  | MissingConfirmation CommandId
  | RequestTimeout CommandId
  | ConnectTimeout
  | ConnectionClosed
  | ClientClosed
  | AuthenticationRejected
  | DiscoveryRejected u8
  | UnexpectedResponseError string CommandId
  | Io string
  | Tls string
  | Protocol string
  | EmptyCertificateFile
  | TruncatedPayload CommandId nat nat
  | InvalidPayloadLength CommandId nat nat
  | InvalidRequest string

type_synonym 'a result = "(klf_error, 'a) outcome"

end
