(* ===== verification/Rust_Str.thy ===== *)
theory Rust_Str
  imports Prelude
begin

text \<open>
  The part of Rust's \<open>str\<close> and \<open>String\<close> the sources use. A Rust string is the sequence of its UTF-8
  bytes, so it is modelled as a HOL string whose characters are those bytes; that the bytes are
  valid UTF-8 is the invariant of the Rust type and appears as the predicate \<open>str_valid\<close>.
\<close>

section \<open>Bytes and UTF-8\<close>

definition as_bytes :: "string \<Rightarrow> u8 list" where
  "as_bytes s = map of_char s"

definition str_of_bytes :: "u8 list \<Rightarrow> string" where
  "str_of_bytes bs = map (\<lambda>b. char_of (unat b)) bs"

definition utf8_cont :: "u8 \<Rightarrow> bool" where
  "utf8_cont b \<longleftrightarrow> 0x80 \<le> b \<and> b \<le> 0xBF"

text \<open>The validity check of \<open>std::str::from_utf8\<close>: no overlong forms, no surrogates, at most U+10FFFF.\<close>

fun utf8_valid :: "u8 list \<Rightarrow> bool" where
  "utf8_valid [] = True"
| "utf8_valid (b0 # bs) =
     (if b0 \<le> 0x7F then utf8_valid bs
      else (case bs of
        [] \<Rightarrow> False
      | b1 # bs1 \<Rightarrow>
          if 0xC2 \<le> b0 \<and> b0 \<le> 0xDF then utf8_cont b1 \<and> utf8_valid bs1
          else (case bs1 of
            [] \<Rightarrow> False
          | b2 # bs2 \<Rightarrow>
              if 0xE0 \<le> b0 \<and> b0 \<le> 0xEF then
                (if b0 = 0xE0 then 0xA0 \<le> b1 \<and> b1 \<le> 0xBF
                 else if b0 = 0xED then 0x80 \<le> b1 \<and> b1 \<le> 0x9F
                 else utf8_cont b1)
                \<and> utf8_cont b2 \<and> utf8_valid bs2
              else (case bs2 of
                [] \<Rightarrow> False
              | b3 # bs3 \<Rightarrow>
                  if 0xF0 \<le> b0 \<and> b0 \<le> 0xF4 then
                    (if b0 = 0xF0 then 0x90 \<le> b1 \<and> b1 \<le> 0xBF
                     else if b0 = 0xF4 then 0x80 \<le> b1 \<and> b1 \<le> 0x8F
                     else utf8_cont b1)
                    \<and> utf8_cont b2 \<and> utf8_cont b3 \<and> utf8_valid bs3
                  else False))))"

definition str_valid :: "string \<Rightarrow> bool" where
  "str_valid s \<longleftrightarrow> utf8_valid (as_bytes s)"

definition from_utf8 :: "u8 list \<Rightarrow> string option" where
  "from_utf8 bs = (if utf8_valid bs then Some (str_of_bytes bs) else None)"

lemma unat_of_char [simp]: "unat (of_char c :: u8) = of_char c"
proof -
  have "unat (of_char c :: u8) = unat (of_nat (of_char c) :: u8)"
    by (simp add: of_nat_of_char)
  also have "\<dots> = of_char c mod 256"
    by (simp only: unat_of_nat) simp
  finally show ?thesis by simp
qed

lemma of_char_char_of_u8 [simp]: "(of_char (char_of (unat b)) :: u8) = b"
proof -
  have "(of_char (char_of (unat b)) :: u8) = of_nat (of_char (char_of (unat b)))"
    by (rule of_nat_of_char [symmetric])
  also have "\<dots> = of_nat (unat b)"
    by (simp only: of_char_of) simp
  finally show ?thesis by simp
qed

lemma as_bytes_str_of_bytes [simp]: "as_bytes (str_of_bytes bs) = bs"
  by (simp add: as_bytes_def str_of_bytes_def comp_def)

lemma str_of_bytes_as_bytes [simp]: "str_of_bytes (as_bytes s) = s"
  by (simp add: as_bytes_def str_of_bytes_def comp_def)

lemma length_as_bytes [simp]: "length (as_bytes s) = length s"
  by (simp add: as_bytes_def)

lemma from_utf8_as_bytes: "str_valid s \<Longrightarrow> from_utf8 (as_bytes s) = Some s"
  by (simp add: from_utf8_def str_valid_def)

lemma from_utf8_Some_iff: "from_utf8 bs = Some s \<longleftrightarrow> str_valid s \<and> bs = as_bytes s"
  by (auto simp: from_utf8_def str_valid_def)

lemma utf8_valid_ascii: "(\<And>b. b \<in> set bs \<Longrightarrow> b \<le> 0x7F) \<Longrightarrow> utf8_valid bs"
  by (induction bs) auto

section \<open>Prefixes, splitting, trimming\<close>

text \<open>\<open>str::strip_prefix\<close>, \<open>str::split\<close> on an ASCII separator and \<open>str::trim_matches\<close> on a character.\<close>

definition strip_prefix :: "string \<Rightarrow> string \<Rightarrow> string option" where
  "strip_prefix s pre = (if take (length pre) s = pre then Some (drop (length pre) s) else None)"

fun split_on :: "char \<Rightarrow> string \<Rightarrow> string list" where
  "split_on sep [] = [[]]"
| "split_on sep (c # cs) =
     (if c = sep then [] # split_on sep cs
      else (case split_on sep cs of [] \<Rightarrow> [[c]] | seg # segs \<Rightarrow> (c # seg) # segs))"

definition trim_matches :: "char \<Rightarrow> string \<Rightarrow> string" where
  "trim_matches c s = rev (dropWhile (\<lambda>x. x = c) (rev (dropWhile (\<lambda>x. x = c) s)))"

text \<open>
  \<open>str::trim\<close> removes the characters with the Unicode property White\_Space, here by their encodings.
\<close>

definition whitespace :: "string list" where
  "whitespace =
     [[CHR 0x09], [CHR 0x0A], [CHR 0x0B], [CHR 0x0C], [CHR 0x0D], [CHR 0x20],
      [CHR 0xC2, CHR 0x85], [CHR 0xC2, CHR 0xA0], [CHR 0xE1, CHR 0x9A, CHR 0x80],
      [CHR 0xE2, CHR 0x80, CHR 0x80], [CHR 0xE2, CHR 0x80, CHR 0x81],
      [CHR 0xE2, CHR 0x80, CHR 0x82], [CHR 0xE2, CHR 0x80, CHR 0x83],
      [CHR 0xE2, CHR 0x80, CHR 0x84], [CHR 0xE2, CHR 0x80, CHR 0x85],
      [CHR 0xE2, CHR 0x80, CHR 0x86], [CHR 0xE2, CHR 0x80, CHR 0x87],
      [CHR 0xE2, CHR 0x80, CHR 0x88], [CHR 0xE2, CHR 0x80, CHR 0x89],
      [CHR 0xE2, CHR 0x80, CHR 0x8A], [CHR 0xE2, CHR 0x80, CHR 0xA8],
      [CHR 0xE2, CHR 0x80, CHR 0xA9], [CHR 0xE2, CHR 0x80, CHR 0xAF],
      [CHR 0xE2, CHR 0x81, CHR 0x9F], [CHR 0xE3, CHR 0x80, CHR 0x80]]"

function trim_leading :: "string list \<Rightarrow> string \<Rightarrow> string" where
  "trim_leading ws s =
     (case find (\<lambda>w. w \<noteq> [] \<and> take (length w) s = w) ws of
        None \<Rightarrow> s
      | Some w \<Rightarrow> trim_leading ws (drop (length w) s))"
  by pat_completeness auto
termination
proof (relation "measure (\<lambda>(ws, s). length s)")
  fix ws s w
  assume "find (\<lambda>w. w \<noteq> [] \<and> take (length w) s = w) ws = Some w"
  then have "w \<noteq> []" "take (length w) s = w" by (auto simp: find_Some_iff)
  then show "((ws, drop (length w) s), (ws, s)) \<in> measure (\<lambda>(ws, s). length s)"
    by (cases s) auto
qed simp

declare trim_leading.simps [simp del]

definition trim :: "string \<Rightarrow> string" where
  "trim s = rev (trim_leading (map rev whitespace) (rev (trim_leading whitespace s)))"

lemma strip_prefix_append [simp]: "strip_prefix (pre @ s) pre = Some s"
  by (simp add: strip_prefix_def)

lemma strip_prefix_Some_iff: "strip_prefix s pre = Some r \<longleftrightarrow> s = pre @ r"
  by (auto simp: strip_prefix_def) (metis append_take_drop_id)

lemma split_on_not_Nil [simp]: "split_on sep s \<noteq> []"
  by (cases s) (auto split: list.splits)

lemma split_on_no_sep: "sep \<notin> set s \<Longrightarrow> split_on sep s = [s]"
  by (induction s) auto

lemma split_on_append:
  "sep \<notin> set s \<Longrightarrow> split_on sep (s @ sep # t) = s # split_on sep t"
  by (induction s) auto

lemma trim_leading_id:
  assumes "\<And>w. w \<in> set ws \<Longrightarrow> w \<noteq> [] \<Longrightarrow> take (length w) s \<noteq> w"
  shows "trim_leading ws s = s"
proof -
  have "find (\<lambda>w. w \<noteq> [] \<and> take (length w) s = w) ws = None"
    using assms by (auto simp: find_None_iff)
  then show ?thesis by (subst trim_leading.simps) simp
qed

section \<open>ASCII case, decimal numbers\<close>

definition to_ascii_lowercase :: "char \<Rightarrow> char" where
  "to_ascii_lowercase c =
     (let n = of_char c :: nat in if 65 \<le> n \<and> n \<le> 90 then char_of (n + 32) else c)"

definition eq_ignore_ascii_case :: "string \<Rightarrow> string \<Rightarrow> bool" where
  "eq_ignore_ascii_case s t \<longleftrightarrow> map to_ascii_lowercase s = map to_ascii_lowercase t"

definition is_ascii_digit :: "char \<Rightarrow> bool" where
  "is_ascii_digit c \<longleftrightarrow> (let n = of_char c :: nat in 48 \<le> n \<and> n \<le> 57)"

definition is_ascii_alphanumeric :: "char \<Rightarrow> bool" where
  "is_ascii_alphanumeric c \<longleftrightarrow>
     (let n = of_char c :: nat in
        48 \<le> n \<and> n \<le> 57 \<or> 65 \<le> n \<and> n \<le> 90 \<or> 97 \<le> n \<and> n \<le> 122)"

text \<open>The decimal display of an unsigned integer.\<close>

definition digit_char :: "nat \<Rightarrow> char" where
  "digit_char d = char_of (48 + d)"

fun nat_display :: "nat \<Rightarrow> string" where
  "nat_display n =
     (if n < 10 then [digit_char n] else nat_display (n div 10) @ [digit_char (n mod 10)])"

declare nat_display.simps [simp del]

text \<open>
  \<open>str::parse::<u8>\<close>: an optional plus sign, then at least one digit; \<open>None\<close> stands for every parse
  error, a value above 255 included.
\<close>

definition parse_digit :: "nat option \<Rightarrow> char \<Rightarrow> nat option" where
  "parse_digit acc c =
     (case acc of
        None \<Rightarrow> None
      | Some n \<Rightarrow>
          if is_ascii_digit c \<and> n * 10 + (of_char c - 48) \<le> 255
          then Some (n * 10 + (of_char c - 48)) else None)"

definition parse_u8 :: "string \<Rightarrow> u8 option" where
  "parse_u8 s =
     (let digits = (case s of c # cs \<Rightarrow> if c = CHR ''+'' then cs else s | [] \<Rightarrow> [])
      in if digits = [] then None else map_option of_nat (foldl parse_digit (Some 0) digits))"

lemma of_char_digit_char [simp]: "d < 10 \<Longrightarrow> (of_char (digit_char d) :: nat) = 48 + d"
  by (simp add: digit_char_def)

lemma is_ascii_digit_char: "d < 10 \<Longrightarrow> is_ascii_digit (digit_char d)"
  by (simp add: is_ascii_digit_def)

lemma nat_display_digits: "c \<in> set (nat_display n) \<Longrightarrow> is_ascii_digit c"
proof (induction n rule: nat_display.induct)
  case (1 n)
  then show ?case
    by (cases "n < 10") (auto simp: nat_display.simps [of n] is_ascii_digit_char)
qed

lemma nat_display_not_Nil [simp]: "nat_display n \<noteq> []"
  by (subst nat_display.simps) auto

lemma parse_digit_char:
  "d < 10 \<Longrightarrow> n * 10 + d \<le> 255 \<Longrightarrow> parse_digit (Some n) (digit_char d) = Some (n * 10 + d)"
  by (simp add: parse_digit_def is_ascii_digit_char)

lemma parse_nat_display: "n \<le> 255 \<Longrightarrow> foldl parse_digit (Some 0) (nat_display n) = Some n"
proof (induction n rule: nat_display.induct)
  case (1 n)
  show ?case
  proof (cases "n < 10")
    case True
    then show ?thesis
      by (subst nat_display.simps) (simp add: parse_digit_char)
  next
    case False
    with 1 have "foldl parse_digit (Some 0) (nat_display (n div 10)) = Some (n div 10)"
      by simp
    moreover have "n div 10 * 10 + n mod 10 = n" by simp
    ultimately show ?thesis using False "1.prems"
      by (subst nat_display.simps) (simp add: parse_digit_char)
  qed
qed

text \<open>Reading back what display writes.\<close>

lemma parse_u8_display [simp]: "parse_u8 (nat_display (unat b)) = Some b"
proof -
  obtain c cs where eq: "nat_display (unat b) = c # cs"
    using nat_display_not_Nil [of "unat b"] by (cases "nat_display (unat b)") auto
  then have "is_ascii_digit c" using nat_display_digits [of c "unat b"] by simp
  then have "c \<noteq> CHR ''+''" by (auto simp: is_ascii_digit_def)
  moreover have "unat b \<le> 255" using unat_u8_less [of b] by linarith
  ultimately show ?thesis
    using parse_nat_display [of "unat b"] by (simp add: parse_u8_def eq)
qed

lemma nat_display_inj: "nat_display (unat (a :: u8)) = nat_display (unat b) \<Longrightarrow> a = b"
  by (metis option.inject parse_u8_display)

end
