(* ===== verification/Klf_Types.thy ===== *)
theory Klf_Types
  imports Klf_Error Rust_Str
begin

text \<open>
  The protocol value types (\<open>src/klf200/types.rs\<close>): identifiers, the session-ID allocator, positions
  and percentages, the node bit sets, group and contact-input records, and fixed-width strings.
\<close>

section \<open>Identifiers\<close>

datatype NodeId = NodeId (node_id_get: u8)
datatype GroupId = GroupId (group_id_get: u8)
datatype SessionId = SessionId (session_id_get: u16)

text \<open>The derived \<open>Ord\<close> of the identifiers, which orders the maps and sets keyed by them.\<close>

instantiation NodeId :: linorder
begin

definition less_eq_NodeId :: "NodeId \<Rightarrow> NodeId \<Rightarrow> bool" where
  "less_eq_NodeId a b \<longleftrightarrow> node_id_get a \<le> node_id_get b"

definition less_NodeId :: "NodeId \<Rightarrow> NodeId \<Rightarrow> bool" where
  "less_NodeId a b \<longleftrightarrow> node_id_get a < node_id_get b"

instance
  by standard (auto simp: less_eq_NodeId_def less_NodeId_def NodeId.expand)

end

instantiation GroupId :: linorder
begin

definition less_eq_GroupId :: "GroupId \<Rightarrow> GroupId \<Rightarrow> bool" where
  "less_eq_GroupId a b \<longleftrightarrow> group_id_get a \<le> group_id_get b"

definition less_GroupId :: "GroupId \<Rightarrow> GroupId \<Rightarrow> bool" where
  "less_GroupId a b \<longleftrightarrow> group_id_get a < group_id_get b"

instance
  by standard (auto simp: less_eq_GroupId_def less_GroupId_def GroupId.expand)

end

lemma NodeId_less [simp]: "NodeId a < NodeId b \<longleftrightarrow> a < b" "NodeId a \<le> NodeId b \<longleftrightarrow> a \<le> b"
  by (simp_all add: less_NodeId_def less_eq_NodeId_def)

lemma GroupId_less [simp]: "GroupId a < GroupId b \<longleftrightarrow> a < b" "GroupId a \<le> GroupId b \<longleftrightarrow> a \<le> b"
  by (simp_all add: less_GroupId_def less_eq_GroupId_def)

definition SessionId_MIN :: SessionId where "SessionId_MIN = SessionId 1"
definition SessionId_MAX :: SessionId where "SessionId_MAX = SessionId 0xFFFF"

definition SessionId_new :: "u16 \<Rightarrow> SessionId option" where
  "SessionId_new value = (if value = 0 then None else Some (SessionId value))"

text \<open>The invariant of the type: \<open>SessionId::new\<close> is the only public constructor.\<close>

definition session_valid :: "SessionId \<Rightarrow> bool" where
  "session_valid s \<longleftrightarrow> session_id_get s \<noteq> 0"

section \<open>The session-ID allocator\<close>

record SessionIdAllocator =
  alloc_next :: u16
  alloc_active :: "u16 set"

definition SessionIdAllocator_new :: SessionIdAllocator where
  "SessionIdAllocator_new = \<lparr>alloc_next = session_id_get SessionId_MIN, alloc_active = {}\<rparr>"

definition starting_at :: "SessionId \<Rightarrow> SessionIdAllocator" where
  "starting_at session_id = \<lparr>alloc_next = session_id_get session_id, alloc_active = {}\<rparr>"

text \<open>The loop of \<open>allocate\<close>; its first argument counts the iterations of \<open>for _ in 0..u16::MAX\<close> left.\<close>

fun allocate_loop :: "nat \<Rightarrow> SessionIdAllocator \<Rightarrow> SessionIdAllocator \<times> SessionId result" where
  "allocate_loop 0 a = (a, Err SessionIdsExhausted)"
| "allocate_loop (Suc n) a =
     (let candidate = alloc_next a;
          a' = a\<lparr>alloc_next := if candidate = 0xFFFF then 1 else candidate + 1\<rparr>
      in if candidate \<notin> alloc_active a'
         then (a'\<lparr>alloc_active := insert candidate (alloc_active a')\<rparr>, Ok (SessionId candidate))
         else allocate_loop n a')"

definition allocate :: "SessionIdAllocator \<Rightarrow> SessionIdAllocator \<times> SessionId result" where
  "allocate a = allocate_loop 65535 a"

definition reserve :: "SessionIdAllocator \<Rightarrow> SessionId \<Rightarrow> SessionIdAllocator \<times> unit result" where
  "reserve a session_id =
     (if session_id_get session_id \<notin> alloc_active a
      then (a\<lparr>alloc_active := insert (session_id_get session_id) (alloc_active a)\<rparr>, Ok ())
      else (a, Err (SessionIdInUse (session_id_get session_id))))"

definition release :: "SessionIdAllocator \<Rightarrow> SessionId \<Rightarrow> SessionIdAllocator \<times> bool" where
  "release a session_id =
     (a\<lparr>alloc_active := alloc_active a - {session_id_get session_id}\<rparr>,
      session_id_get session_id \<in> alloc_active a)"

definition is_active :: "SessionIdAllocator \<Rightarrow> SessionId \<Rightarrow> bool" where
  "is_active a session_id \<longleftrightarrow> session_id_get session_id \<in> alloc_active a"

section \<open>Positions\<close>

datatype RawPosition = RawPosition (raw_position_get: u16)

datatype Percentage = Percentage (percentage_raw: u16)

instantiation Percentage :: linorder
begin

definition less_eq_Percentage :: "Percentage \<Rightarrow> Percentage \<Rightarrow> bool" where
  "less_eq_Percentage a b \<longleftrightarrow> percentage_raw a \<le> percentage_raw b"

definition less_Percentage :: "Percentage \<Rightarrow> Percentage \<Rightarrow> bool" where
  "less_Percentage a b \<longleftrightarrow> percentage_raw a < percentage_raw b"

instance
  by standard (auto simp: less_eq_Percentage_def less_Percentage_def Percentage.expand)

end

lemma Percentage_less [simp]:
  "Percentage a < Percentage b \<longleftrightarrow> a < b" "Percentage a \<le> Percentage b \<longleftrightarrow> a \<le> b"
  by (simp_all add: less_Percentage_def less_eq_Percentage_def)

definition FULLY_OPEN :: Percentage where "FULLY_OPEN = Percentage 0"
definition FULLY_CLOSED :: Percentage where "FULLY_CLOSED = Percentage 0xC800"

definition from_percent :: "u8 \<Rightarrow> Percentage" where
  "from_percent percent =
     (let bounded = (if percent > 100 then 100 else percent)
      in Percentage ((ucast bounded :: u16) * 512))"

definition rounded_percent :: "Percentage \<Rightarrow> u8" where
  "rounded_percent p =
     (let rounded = ((ucast (percentage_raw p) :: u32) + 256) div 512
      in (case u8_try_from (unat rounded) of
            Some percent \<Rightarrow> min percent 100
          | None \<Rightarrow> 100))"

datatype StandardParameter =
    Relative Percentage
  | NoFeedback
  | PercentagePoint i16
  | Target
  | Current
  | Default
  | Ignore
  | UnknownParameter RawPosition

text \<open>\<open>i16::try_from\<close> on a \<open>u16\<close>, \<open>i16::clamp\<close> and \<open>u16::try_from\<close> on an \<open>i32\<close>.\<close>

definition i16_try_from_u16 :: "u16 \<Rightarrow> i16 option" where
  "i16_try_from_u16 w = (if w \<le> 0x7FFF then Some w else None)"

definition i16_clamp :: "i16 \<Rightarrow> i16 \<Rightarrow> i16 \<Rightarrow> i16" where
  "i16_clamp lo hi w = (if sint w < sint lo then lo else if sint hi < sint w then hi else w)"

definition u16_try_from_i32 :: "int \<Rightarrow> u16 option" where
  "u16_try_from_i32 i = (if 0 \<le> i \<and> i \<le> 0xFFFF then Some (of_int i) else None)"

definition StandardParameter_from_raw :: "u16 \<Rightarrow> StandardParameter" where
  "StandardParameter_from_raw r =
     (if r \<le> 0xC800 then Relative (Percentage r)
      else if 0xC900 \<le> r \<and> r \<le> 0xD0D0 then
        (case i16_try_from_u16 (r - 0xC900) of
           Some offset \<Rightarrow> PercentagePoint (offset - 1000)
         | None \<Rightarrow> UnknownParameter (RawPosition r))
      else if r = 0xD100 then Target
      else if r = 0xD200 then Current
      else if r = 0xD300 then Default
      else if r = 0xD400 then Ignore
      else if r = 0xF7FF then NoFeedback
      else UnknownParameter (RawPosition r))"

fun StandardParameter_to_raw :: "StandardParameter \<Rightarrow> RawPosition" where
  "StandardParameter_to_raw (Relative percentage) = RawPosition (percentage_raw percentage)"
| "StandardParameter_to_raw NoFeedback = RawPosition 0xF7FF"
| "StandardParameter_to_raw (PercentagePoint tenths) =
     (let bounded = i16_clamp (-1000) 1000 tenths
      in RawPosition (case u16_try_from_i32 (sint bounded + 1000) of
           Some offset \<Rightarrow> offset + 0xC900
         | None \<Rightarrow> 0xC900))"
| "StandardParameter_to_raw Target = RawPosition 0xD100"
| "StandardParameter_to_raw Current = RawPosition 0xD200"
| "StandardParameter_to_raw Default = RawPosition 0xD300"
| "StandardParameter_to_raw Ignore = RawPosition 0xD400"
| "StandardParameter_to_raw (UnknownParameter r) = r"

datatype ProtocolTimestamp = ProtocolTimestamp (unix_seconds: u32)

section \<open>Bit sets and records\<close>

text \<open>Rust's fixed-size arrays are lists; their lengths are the invariants of the records below.\<close>

record NetworkSetup =
  net_ip_address :: "u8 list"
  net_subnet_mask :: "u8 list"
  net_default_gateway :: "u8 list"
  net_dhcp :: bool

record Alias =
  alias_kind :: u16
  alias_value :: u16

definition ACTUATOR_COUNT :: nat where "ACTUATOR_COUNT = 200"
definition ACTUATOR_BYTES :: nat where "ACTUATOR_BYTES = ACTUATOR_COUNT div 8"

record ActuatorSet =
  act_bytes :: "u8 list"

datatype BeaconSet = BeaconSet (beacon_byte: u8)

record NodeSet =
  ns_actuators :: ActuatorSet
  ns_beacons :: BeaconSet

record GroupInformation =
  gi_group_id :: GroupId
  gi_order :: u16
  gi_placement :: u8
  gi_name :: string
  gi_velocity :: u8
  gi_node_variation :: u8
  gi_group_type :: u8
  gi_object_count :: u8
  gi_actuators :: ActuatorSet
  gi_revision :: u16

record NewGroupInformation =
  ng_order :: u16
  ng_placement :: u8
  ng_name :: string
  ng_velocity :: u8
  ng_node_variation :: u8
  ng_group_type :: u8
  ng_object_count :: u8
  ng_actuators :: ActuatorSet

record ContactInputLink =
  ci_contact_input_id :: u8
  ci_assignment :: u8
  ci_action_id :: u8
  ci_command_originator :: u8
  ci_priority_level :: u8
  ci_parameter_id :: u8
  ci_position :: StandardParameter
  ci_velocity :: u8
  ci_lock_priority_level :: u8
  ci_priority_level_settings :: "u8 list"
  ci_success_output_id :: u8
  ci_error_output_id :: u8

definition NodeSet_new :: "ActuatorSet \<Rightarrow> BeaconSet \<Rightarrow> NodeSet" where
  "NodeSet_new actuators beacons = \<lparr>ns_actuators = actuators, ns_beacons = beacons\<rparr>"

definition BEACON_MASK :: u8 where "BEACON_MASK = 0b00000111"

definition BeaconSet_from_byte :: "u8 \<Rightarrow> BeaconSet" where
  "BeaconSet_from_byte byte = BeaconSet (byte AND BEACON_MASK)"

definition BeaconSet_contains :: "BeaconSet \<Rightarrow> nat \<Rightarrow> bool" where
  "BeaconSet_contains b index \<longleftrightarrow> index < 3 \<and> beacon_byte b AND push_bit index 1 \<noteq> 0"

definition BeaconSet_set :: "BeaconSet \<Rightarrow> nat \<Rightarrow> bool \<Rightarrow> BeaconSet \<times> bool" where
  "BeaconSet_set b index enabled =
     (if index \<ge> 3 then (b, False)
      else if enabled then (BeaconSet (beacon_byte b OR push_bit index 1), True)
      else (BeaconSet (beacon_byte b AND NOT (push_bit index 1)), True))"

definition ActuatorSet_new :: ActuatorSet where
  "ActuatorSet_new = \<lparr>act_bytes = replicate ACTUATOR_BYTES 0\<rparr>"

definition ActuatorSet_from_bytes :: "u8 list \<Rightarrow> ActuatorSet" where
  "ActuatorSet_from_bytes bytes = \<lparr>act_bytes = bytes\<rparr>"

definition ActuatorSet_contains :: "ActuatorSet \<Rightarrow> nat \<Rightarrow> bool" where
  "ActuatorSet_contains s index \<longleftrightarrow>
     index < ACTUATOR_COUNT \<and> act_bytes s ! (index div 8) AND push_bit (index mod 8) 1 \<noteq> 0"

definition ActuatorSet_insert :: "ActuatorSet \<Rightarrow> nat \<Rightarrow> ActuatorSet \<times> bool" where
  "ActuatorSet_insert s index =
     (if index \<ge> ACTUATOR_COUNT then (s, False)
      else
        let was_present = ActuatorSet_contains s index
        in (s\<lparr>act_bytes := (act_bytes s)
                [index div 8 := act_bytes s ! (index div 8) OR push_bit (index mod 8) 1]\<rparr>,
            \<not> was_present))"

definition ActuatorSet_remove :: "ActuatorSet \<Rightarrow> nat \<Rightarrow> ActuatorSet \<times> bool" where
  "ActuatorSet_remove s index =
     (if index \<ge> ACTUATOR_COUNT then (s, False)
      else
        let was_present = ActuatorSet_contains s index
        in (s\<lparr>act_bytes := (act_bytes s)
                [index div 8 := act_bytes s ! (index div 8) AND NOT (push_bit (index mod 8) 1)]\<rparr>,
            was_present))"

definition ActuatorSet_iter :: "ActuatorSet \<Rightarrow> nat list" where
  "ActuatorSet_iter s = filter (ActuatorSet_contains s) [0..<ACTUATOR_COUNT]"

section \<open>Fixed-width strings\<close>

definition decode_fixed_string :: "u8 list \<Rightarrow> string result" where
  "decode_fixed_string field =
     (case from_utf8 (takeWhile (\<lambda>byte. byte \<noteq> 0) field) of
        Some s \<Rightarrow> Ok s
      | None \<Rightarrow> Err InvalidUtf8)"

definition encode_fixed_string :: "nat \<Rightarrow> string \<Rightarrow> u8 list result" where
  "encode_fixed_string n value =
     (let maximum = n - 1
      in if 0 \<in> set (as_bytes value)
         then Err (InvalidRequest ''fixed-width strings cannot contain NUL bytes'')
         else if length value > maximum then Err (StringTooLong (length value) maximum)
         else Ok (write_bytes 0 (as_bytes value) (replicate n 0)))"

section \<open>Well-formed data\<close>

definition actuators_wf :: "ActuatorSet \<Rightarrow> bool" where
  "actuators_wf s \<longleftrightarrow> length (act_bytes s) = ACTUATOR_BYTES"

definition beacons_wf :: "BeaconSet \<Rightarrow> bool" where
  "beacons_wf b \<longleftrightarrow> beacon_byte b AND NOT BEACON_MASK = 0"

definition node_set_wf :: "NodeSet \<Rightarrow> bool" where
  "node_set_wf s \<longleftrightarrow> actuators_wf (ns_actuators s) \<and> beacons_wf (ns_beacons s)"

definition network_setup_wf :: "NetworkSetup \<Rightarrow> bool" where
  "network_setup_wf s \<longleftrightarrow> length (net_ip_address s) = 4 \<and> length (net_subnet_mask s) = 4
     \<and> length (net_default_gateway s) = 4"

definition group_wf :: "GroupInformation \<Rightarrow> bool" where
  "group_wf g \<longleftrightarrow> actuators_wf (gi_actuators g) \<and> str_valid (gi_name g)"

text \<open>A parameter is canonical when it is the one read back from its own raw value.\<close>

fun parameter_wf :: "StandardParameter \<Rightarrow> bool" where
  "parameter_wf (Relative p) \<longleftrightarrow> percentage_raw p \<le> 0xC800"
| "parameter_wf (PercentagePoint t) \<longleftrightarrow> -1000 \<le> sint t \<and> sint t \<le> 1000"
| "parameter_wf (UnknownParameter r) \<longleftrightarrow>
     StandardParameter_from_raw (raw_position_get r) = UnknownParameter r"
| "parameter_wf _ \<longleftrightarrow> True"

definition contact_link_wf :: "ContactInputLink \<Rightarrow> bool" where
  "contact_link_wf l \<longleftrightarrow> length (ci_priority_level_settings l) = 5 \<and> parameter_wf (ci_position l)"

section \<open>Index sets\<close>

text \<open>
  What the callers of a bit set rely on: membership below a bound, insertion and removal of one
  index. The lemmas are proved once for both bit sets of the protocol.
\<close>

locale index_set =
  fixes inv :: "'s \<Rightarrow> bool"
    and bound :: nat
    and mem :: "'s \<Rightarrow> nat \<Rightarrow> bool"
    and add :: "'s \<Rightarrow> nat \<Rightarrow> 's"
    and del :: "'s \<Rightarrow> nat \<Rightarrow> 's"
  assumes mem_bound: "mem s i \<Longrightarrow> i < bound"
    and mem_add: "inv s \<Longrightarrow> i < bound \<Longrightarrow> mem (add s i) j \<longleftrightarrow> j = i \<or> mem s j"
    and mem_del: "inv s \<Longrightarrow> i < bound \<Longrightarrow> mem (del s i) j \<longleftrightarrow> j \<noteq> i \<and> mem s j"
    and add_beyond: "bound \<le> i \<Longrightarrow> add s i = s"
    and del_beyond: "bound \<le> i \<Longrightarrow> del s i = s"
    and inv_add: "inv s \<Longrightarrow> inv (add s i)"
    and inv_del: "inv s \<Longrightarrow> inv (del s i)"
begin

lemma members_add: "inv s \<Longrightarrow> i < bound \<Longrightarrow> Collect (mem (add s i)) = insert i (Collect (mem s))"
  by (auto simp: mem_add)

lemma members_del: "inv s \<Longrightarrow> Collect (mem (del s i)) = Collect (mem s) - {i}"
  by (cases "i < bound") (auto simp: mem_del del_beyond dest: mem_bound)

lemma members_finite: "finite (Collect (mem s))"
  by (rule finite_subset [of _ "{..<bound}"]) (auto dest: mem_bound)

lemma members_card: "card (Collect (mem s)) \<le> bound"
proof -
  have "card (Collect (mem s)) \<le> card {..<bound}"
    by (rule card_mono) (auto dest: mem_bound)
  then show ?thesis by simp
qed

lemma iter_members: "set (filter (mem s) [0..<bound]) = Collect (mem s)"
  by (auto dest: mem_bound)

lemma inv_fold_add: "inv s \<Longrightarrow> inv (foldl add s is)"
  by (induction "is" arbitrary: s) (auto simp: inv_add)

lemma members_fold_add:
  "inv s \<Longrightarrow> set is \<subseteq> {..<bound} \<Longrightarrow> Collect (mem (foldl add s is)) = Collect (mem s) \<union> set is"
  by (induction "is" arbitrary: s) (auto simp: inv_add mem_add)

end

lemma ActuatorSet_contains_bit:
  "ActuatorSet_contains s i \<longleftrightarrow> i < 200 \<and> bit (act_bytes s ! (i div 8)) (i mod 8)"
  unfolding ActuatorSet_contains_def ACTUATOR_COUNT_def bit_iff_and_push_bit_not_eq_0 ..

lemma BeaconSet_contains_bit: "BeaconSet_contains b i \<longleftrightarrow> i < 3 \<and> bit (beacon_byte b) i"
  unfolding BeaconSet_contains_def bit_iff_and_push_bit_not_eq_0 ..

lemmas actuator_defs =
  ActuatorSet_insert_def ActuatorSet_remove_def actuators_wf_def ACTUATOR_COUNT_def ACTUATOR_BYTES_def

lemma div_mod_8_eq: "(i :: nat) div 8 = j div 8 \<Longrightarrow> i mod 8 = j mod 8 \<Longrightarrow> i = j"
  by (metis div_mult_mod_eq)

lemma ActuatorSet_contains_insert:
  assumes "actuators_wf s" "i < 200"
  shows "ActuatorSet_contains (fst (ActuatorSet_insert s i)) j \<longleftrightarrow> j = i \<or> ActuatorSet_contains s j"
  using assms div_mod_8_eq [of i j]
  by (auto simp: ActuatorSet_contains_bit actuator_defs Let_def nth_list_update bit_simps)

lemma ActuatorSet_contains_remove:
  assumes "actuators_wf s" "i < 200"
  shows "ActuatorSet_contains (fst (ActuatorSet_remove s i)) j \<longleftrightarrow> j \<noteq> i \<and> ActuatorSet_contains s j"
  using assms div_mod_8_eq [of i j]
  by (auto simp: ActuatorSet_contains_bit actuator_defs Let_def nth_list_update bit_simps)

lemma ActuatorSet_wf_ops:
  "actuators_wf s \<Longrightarrow> actuators_wf (fst (ActuatorSet_insert s i))"
  "actuators_wf s \<Longrightarrow> actuators_wf (fst (ActuatorSet_remove s i))"
  by (simp_all add: actuator_defs Let_def)

interpretation actuators: index_set actuators_wf 200 ActuatorSet_contains
  "\<lambda>s i. fst (ActuatorSet_insert s i)" "\<lambda>s i. fst (ActuatorSet_remove s i)"
  by unfold_locales
    (auto simp: ActuatorSet_contains_insert ActuatorSet_contains_remove ActuatorSet_wf_ops,
     simp_all add: ActuatorSet_contains_def actuator_defs)

lemma bit_BEACON_MASK: "bit BEACON_MASK n \<longleftrightarrow> n < 3"
proof -
  have "BEACON_MASK = mask 3" by (simp add: BEACON_MASK_def mask_eq_exp_minus_1)
  then have "bit BEACON_MASK n \<longleftrightarrow> bit (mask 3 :: u8) n" by (simp only:)
  then show ?thesis by (auto simp only: bit_mask_iff possible_bit_word) simp
qed

lemma beacons_wf_bit: "beacons_wf b \<longleftrightarrow> (\<forall>i. bit (beacon_byte b) i \<longrightarrow> i < 3)"
proof -
  have "beacon_byte b AND NOT BEACON_MASK = 0 \<longleftrightarrow>
      (\<forall>n<8. \<not> bit (beacon_byte b AND NOT BEACON_MASK) n)"
    by (auto simp: bit_eq_iff possible_bit_word)
  also have "\<dots> \<longleftrightarrow> (\<forall>i. bit (beacon_byte b) i \<longrightarrow> i < 3)"
    using bit_imp_le_length [of "beacon_byte b"] by (auto simp: bit_simps bit_BEACON_MASK)
  finally show ?thesis by (simp add: beacons_wf_def)
qed

lemma beacons_wf_from_byte: "beacons_wf (BeaconSet_from_byte byte)"
  by (simp add: beacons_wf_def BeaconSet_from_byte_def and.assoc)

lemma BeaconSet_from_byte_wf: "beacons_wf b \<Longrightarrow> BeaconSet_from_byte (beacon_byte b) = b"
  by (cases b) (auto simp: BeaconSet_from_byte_def beacons_wf_bit bit_simps bit_BEACON_MASK
      intro!: bit_word_eqI)

interpretation beacons: index_set beacons_wf 3 BeaconSet_contains
  "\<lambda>s i. fst (BeaconSet_set s i True)" "\<lambda>s i. fst (BeaconSet_set s i False)"
  by unfold_locales
    (auto simp: BeaconSet_contains_bit BeaconSet_set_def beacons_wf_bit bit_simps)

section \<open>Standard parameters\<close>

lemma sint_i16_of_int: "-32768 \<le> k \<Longrightarrow> k < 32768 \<Longrightarrow> sint (word_of_int k :: i16) = k"
  by (simp add: signed_of_int signed_take_bit_int_eq_self)

lemma sint_i16_minus:
  assumes "w \<le> (0x7FFF :: u16)"
  shows "sint (w - 1000) = uint w - 1000"
proof -
  have w: "0 \<le> uint w" "uint w \<le> 32767" using assms by (simp_all add: word_le_def)
  have "w - 1000 = word_of_int (uint w - 1000)" by simp
  then show ?thesis using w by (simp only:) (rule sint_i16_of_int, linarith+)
qed

lemma percentage_point_to_raw:
  assumes "-1000 \<le> sint t" "sint t \<le> 1000"
  shows "StandardParameter_to_raw (PercentagePoint t) = RawPosition (of_int (sint t + 1000) + 0xC900)"
  using assms by (simp add: i16_clamp_def u16_try_from_i32_def Let_def)

lemma raw_percentage_point_range:
  assumes "0xC900 \<le> r" "r \<le> (0xD0D0 :: u16)"
  shows "uint (r - 0xC900) \<le> 2000" "r - 0xC900 \<le> 0x7FFF"
proof -
  have "uint (r - 0xC900) = uint r - 0xC900"
    using assms by (simp add: uint_sub_if' word_le_def)
  with assms show "uint (r - 0xC900) \<le> 2000" "r - 0xC900 \<le> 0x7FFF"
    by (simp_all add: word_le_def)
qed

lemma from_raw_percentage_point:
  assumes "0xC900 \<le> r \<and> r \<le> 0xD0D0" "r - 0xC900 \<le> 0x7FFF"
  shows "StandardParameter_from_raw r = PercentagePoint (r - 0xC900 - 1000)"
proof -
  have "\<not> r \<le> 0xC800" using assms(1) by (simp add: word_le_def)
  then show ?thesis using assms
    by (simp add: StandardParameter_from_raw_def i16_try_from_u16_def)
qed

lemma to_raw_from_raw: "StandardParameter_to_raw (StandardParameter_from_raw r) = RawPosition r"
proof (cases "0xC900 \<le> r \<and> r \<le> 0xD0D0")
  case True
  let ?w = "r - 0xC900"
  have w: "uint ?w \<le> 2000" "?w \<le> 0x7FFF" "0 \<le> uint ?w"
    using True raw_percentage_point_range by auto
  have from_raw: "StandardParameter_from_raw r = PercentagePoint (?w - 1000)"
    using True w(2) by (rule from_raw_percentage_point)
  have "StandardParameter_to_raw (PercentagePoint (?w - 1000)) =
      RawPosition (of_int (sint (?w - 1000) + 1000) + 0xC900)"
    by (rule percentage_point_to_raw) (use w sint_i16_minus [OF w(2)] in linarith)+
  then show ?thesis unfolding from_raw sint_i16_minus [OF w(2)] by simp
next
  case False
  then show ?thesis
    by (auto simp: StandardParameter_from_raw_def)
qed

lemma percentage_point_word:
  assumes "-1000 \<le> sint (t :: i16)" "sint t \<le> 1000"
  defines "r \<equiv> (of_int (sint t + 1000) + 0xC900 :: u16)"
  shows "0xC900 \<le> r \<and> r \<le> 0xD0D0" "r - 0xC900 \<le> 0x7FFF" "r - 0xC900 - 1000 = t"
proof -
  have "r = word_of_int (sint t + 1000 + 0xC900)" by (simp add: r_def)
  then have u: "uint r = sint t + 1000 + 0xC900"
    using assms(1,2) by (simp only: uint_word_of_int) (simp add: mod_pos_pos_trivial)
  then show r: "0xC900 \<le> r \<and> r \<le> 0xD0D0" using assms(1,2) by (simp add: word_le_def)
  then show "r - 0xC900 \<le> 0x7FFF" using raw_percentage_point_range by blast
  show "r - 0xC900 - 1000 = t" by (simp add: r_def)
qed

lemma from_raw_to_raw:
  assumes "parameter_wf p"
  shows "StandardParameter_from_raw (raw_position_get (StandardParameter_to_raw p)) = p"
proof (cases p)
  case (PercentagePoint t)
  then have t: "-1000 \<le> sint t" "sint t \<le> 1000" using assms by auto
  show ?thesis unfolding PercentagePoint percentage_point_to_raw [OF t]
    using from_raw_percentage_point [OF percentage_point_word(1,2) [OF t]] percentage_point_word(3) [OF t]
    by simp
qed (use assms in \<open>auto simp: StandardParameter_from_raw_def\<close>)

lemma parameter_wf_from_raw: "parameter_wf (StandardParameter_from_raw r)"
proof (cases "0xC900 \<le> r \<and> r \<le> 0xD0D0")
  case True
  note w = raw_percentage_point_range [OF conjunct1 [OF True] conjunct2 [OF True]]
  have "0 \<le> uint (r - 0xC900)" by simp
  then have "-1000 \<le> sint (r - 0xC900 - 1000)" "sint (r - 0xC900 - 1000) \<le> 1000"
    unfolding sint_i16_minus [OF w(2)] using w(1) by linarith+
  then show ?thesis unfolding from_raw_percentage_point [OF True w(2)] by simp
next
  case False
  then show ?thesis by (auto simp: StandardParameter_from_raw_def)
qed

section \<open>Percentages\<close>

lemma unat_u16_less: "unat (w :: u16) < 65536"
  using unsigned_less [of w, where 'a = nat] by simp

lemma unat_ucast_u16_u32: "unat (ucast (w :: u16) :: u32) = unat w"
  using unat_u16_less [of w] by (simp add: unsigned_ucast_eq take_bit_nat_eq_self)

lemma unat_ucast_u8_u16: "unat (ucast (w :: u8) :: u16) = unat w"
  by (simp add: unsigned_ucast_eq take_bit_nat_eq_self less_trans [OF unat_u8_less])

lemma unat_rounded_percent:
  "unat (rounded_percent p) = min 100 ((unat (percentage_raw p) + 256) div 512)"
proof -
  let ?r = "unat (percentage_raw p)"
  have r: "?r < 65536" by (rule unat_u16_less)
  have "unat ((ucast (percentage_raw p) :: u32) + 256) = ?r + 256"
    using r by (simp add: unat_word_ariths unat_ucast_u16_u32)
  then have d: "unat (((ucast (percentage_raw p) :: u32) + 256) div 512) = (?r + 256) div 512"
    by (simp add: unat_div)
  have lt: "(?r + 256) div 512 < 256" using r by simp
  then have "unat (of_nat ((?r + 256) div 512) :: u8) = (?r + 256) div 512"
    by (simp add: unat_of_nat)
  then show ?thesis using lt
    by (simp add: rounded_percent_def d u8_try_from_def min_def word_le_nat_alt)
qed

lemma unat_from_percent: "unat (percentage_raw (from_percent q)) = min 100 (unat q) * 512"
proof (cases "q > 100")
  case True
  then show ?thesis by (simp add: from_percent_def word_less_nat_alt)
next
  case False
  then have "unat q \<le> 100" by (simp add: word_less_nat_alt)
  then show ?thesis using False
    by (simp add: from_percent_def unat_word_ariths unat_ucast_u8_u16)
qed

lemma from_percent_closed: "from_percent q \<le> FULLY_CLOSED"
  by (cases "from_percent q")
    (use unat_from_percent [of q] in \<open>simp add: FULLY_CLOSED_def word_le_nat_alt\<close>)

lemma rounded_from_percent: "rounded_percent (from_percent q) = (if q > 100 then 100 else q)"
proof -
  have "unat (rounded_percent (from_percent q)) = min 100 (unat q)"
    unfolding unat_rounded_percent unat_from_percent by simp
  then show ?thesis by (auto simp: word_less_nat_alt min_def word_unat_eq_iff split: if_splits)
qed

section \<open>Fixed-width strings round trip\<close>

lemma encode_fixed_string_Ok_iff:
  "encode_fixed_string n s = Ok field \<longleftrightarrow>
     0 \<notin> set (as_bytes s) \<and> length s \<le> n - 1 \<and> field = as_bytes s @ replicate (n - length s) 0"
  by (auto simp: encode_fixed_string_def write_bytes_def Let_def split: if_splits)

lemma encode_fixed_string_not_Panic [simp, no_panic]: "encode_fixed_string n s \<noteq> Panic"
  by (simp add: encode_fixed_string_def Let_def)

lemma length_encode_fixed_string:
  "encode_fixed_string n s = Ok field \<Longrightarrow> 0 < n \<Longrightarrow> length field = n"
  by (auto simp: encode_fixed_string_Ok_iff)

lemma decode_fixed_string_not_Panic [simp, no_panic]: "decode_fixed_string field \<noteq> Panic"
  by (simp add: decode_fixed_string_def split: option.splits)

lemma decode_encode_fixed_string:
  assumes "encode_fixed_string n s = Ok field" "str_valid s"
  shows "decode_fixed_string field = Ok s"
proof -
  have "takeWhile (\<lambda>byte. byte \<noteq> 0) field = as_bytes s"
    using assms(1) by (auto simp: encode_fixed_string_Ok_iff takeWhile_append takeWhile_replicate)
  then show ?thesis using assms(2) by (simp add: decode_fixed_string_def from_utf8_as_bytes)
qed

lemma decode_fixed_string_valid:
  assumes "decode_fixed_string field = Ok s"
  shows "str_valid s" "0 \<notin> set (as_bytes s)" "length s \<le> length field"
proof -
  have *: "str_valid s" "takeWhile (\<lambda>byte. byte \<noteq> 0) field = as_bytes s"
    using assms by (auto simp: decode_fixed_string_def from_utf8_Some_iff split: option.splits)
  from *(1) show "str_valid s" .
  show "0 \<notin> set (as_bytes s)" using set_takeWhileD [of 0 "\<lambda>byte. byte \<noteq> 0" field] *(2) by auto
  show "length s \<le> length field"
    using length_takeWhile_le [of "\<lambda>byte. byte \<noteq> 0" field] *(2) by simp
qed

section \<open>Session identifiers are handed out once\<close>

text \<open>
  The contract the client relies on: identifiers come from a pool, an allocated one was free, is
  not handed out again before it is released, and allocation fails only when the pool is empty.
\<close>

locale id_pool =
  fixes inv :: "'p \<Rightarrow> bool"
    and ids :: "'i set"
    and used :: "'p \<Rightarrow> 'i set"
    and alloc :: "'p \<Rightarrow> 'p \<times> 'i result"
    and free :: "'p \<Rightarrow> 'i \<Rightarrow> 'p"
  assumes alloc_Ok: "inv p \<Longrightarrow> alloc p = (p', Ok i) \<Longrightarrow> i \<in> ids \<and> i \<notin> used p \<and> used p' = insert i (used p)"
    and alloc_Err: "inv p \<Longrightarrow> alloc p = (p', Err e) \<Longrightarrow> ids \<subseteq> used p \<and> used p' = used p"
    and alloc_total: "inv p \<Longrightarrow> snd (alloc p) \<noteq> Panic"
    and inv_alloc: "inv p \<Longrightarrow> inv (fst (alloc p))"
    and used_free: "inv p \<Longrightarrow> used (free p i) = used p - {i}"
    and inv_free: "inv p \<Longrightarrow> inv (free p i)"
begin

lemma alloc_succeeds:
  assumes "inv p" "i \<in> ids" "i \<notin> used p"
  obtains p' j where "alloc p = (p', Ok j)"
  using assms alloc_Err [of p] alloc_total [of p]
  by (cases "alloc p"; cases "snd (alloc p)") auto

text \<open>A run of allocations, without a release between them.\<close>

primrec alloc_many :: "nat \<Rightarrow> 'p \<Rightarrow> 'p \<times> 'i list" where
  "alloc_many 0 p = (p, [])"
| "alloc_many (Suc n) p =
     (case alloc p of
        (p', Ok i) \<Rightarrow> (let (q, is) = alloc_many n p' in (q, i # is))
      | (p', _) \<Rightarrow> (p', []))"

lemma alloc_many_spec:
  assumes "inv p" "alloc_many n p = (q, is)"
  shows "inv q \<and> distinct is \<and> set is \<subseteq> ids \<and> set is \<inter> used p = {} \<and> used q = used p \<union> set is"
  using assms
proof (induction n arbitrary: p "is")
  case 0
  then show ?case by simp
next
  case (Suc n)
  obtain p' r where a: "alloc p = (p', r)" by (cases "alloc p")
  have inv': "inv p'" using inv_alloc [OF Suc.prems(1)] a by simp
  show ?case
  proof (cases r)
    case (Ok i)
    obtain js where js: "alloc_many n p' = (q, js)" "is = i # js"
      using Suc.prems(2) a Ok by (auto simp: Let_def split: prod.splits)
    note step = alloc_Ok [OF Suc.prems(1), of p' i]
    show ?thesis using Suc.IH [OF inv' js(1)] step a Ok js(2) by auto
  next
    case (Err e)
    then show ?thesis using Suc.prems a inv' alloc_Err [OF Suc.prems(1)] by auto
  next
    case Panic
    then show ?thesis using alloc_total [OF Suc.prems(1)] a by simp
  qed
qed

end

definition allocator_inv :: "SessionIdAllocator \<Rightarrow> bool" where
  "allocator_inv a \<longleftrightarrow> alloc_next a \<noteq> 0 \<and> 0 \<notin> alloc_active a"

definition next_id :: "u16 \<Rightarrow> u16" where
  "next_id w = (if w = 0xFFFF then 1 else w + 1)"

lemma unat_next_id: "w \<noteq> 0 \<Longrightarrow> unat (next_id w) = unat w mod 65535 + 1"
proof -
  assume "w \<noteq> 0"
  have lt: "unat w < 65536" by (rule unat_u16_less)
  show ?thesis
  proof (cases "w = 0xFFFF")
    case True
    then show ?thesis by (simp add: next_id_def)
  next
    case False
    then have "unat w \<noteq> 65535" by (simp add: word_unat_eq_iff)
    with lt have "unat w < 65535" by linarith
    then show ?thesis using False by (simp add: next_id_def unat_word_ariths)
  qed
qed

lemma next_id_neq_0: "w \<noteq> 0 \<Longrightarrow> next_id w \<noteq> 0"
  using unat_next_id [of w] by auto

lemma next_id_pow:
  "w \<noteq> 0 \<Longrightarrow> (next_id ^^ k) w \<noteq> 0 \<and> unat ((next_id ^^ k) w) = (unat w - 1 + k) mod 65535 + 1"
proof (induction k)
  case 0
  then have "0 < unat w" "unat w < 65536"
    using unat_u16_less [of w] by (auto simp: unat_gt_0)
  then show ?case using 0 by simp
next
  case (Suc k)
  then show ?case
    by (simp add: unat_next_id next_id_neq_0 mod_Suc_eq)
qed

lemma next_id_cycle: "w \<noteq> 0 \<Longrightarrow> (next_id ^^ 65535) w = w"
  using next_id_pow [of w 65535] next_id_pow [of w 0]
  by (simp only: word_unat_eq_iff mod_add_self2 add_0_right funpow_0 not_False_eq_True simp_thms)

lemma next_id_reaches:
  assumes "w \<noteq> 0" "v \<noteq> 0"
  obtains k where "k < 65535" "(next_id ^^ k) w = v"
proof -
  have wv: "0 < unat w" "unat w < 65536" "0 < unat v" "unat v < 65536"
    using assms unat_u16_less [of w] unat_u16_less [of v]
    by (auto simp: unat_gt_0)
  define k where "k = (unat v + 65535 - unat w) mod 65535"
  have "(unat w - 1 + k) mod 65535 = (unat w - 1 + (unat v + 65535 - unat w)) mod 65535"
    by (simp add: k_def mod_add_right_eq)
  also have "unat w - 1 + (unat v + 65535 - unat w) = unat v - 1 + 65535" using wv by linarith
  also have "(unat v - 1 + 65535) mod 65535 = (unat v - 1) mod 65535" by (rule mod_add_self2)
  also have "\<dots> = unat v - 1" using wv by simp
  finally have "(unat w - 1 + k) mod 65535 = unat v - 1" .
  then have "unat ((next_id ^^ k) w) = unat v" using next_id_pow [OF assms(1), of k] wv by simp
  then have "(next_id ^^ k) w = v" by (simp only: word_unat_eq_iff)
  moreover have "k < 65535" by (simp add: k_def)
  ultimately show ?thesis by (intro that)
qed

lemma allocate_loop_cases:
  "(\<exists>k<n. (\<forall>j<k. (next_id ^^ j) (alloc_next a) \<in> alloc_active a)
      \<and> (next_id ^^ k) (alloc_next a) \<notin> alloc_active a
      \<and> allocate_loop n a =
          (\<lparr>alloc_next = (next_id ^^ Suc k) (alloc_next a),
            alloc_active = insert ((next_id ^^ k) (alloc_next a)) (alloc_active a)\<rparr>,
           Ok (SessionId ((next_id ^^ k) (alloc_next a)))))
   \<or> (\<forall>j<n. (next_id ^^ j) (alloc_next a) \<in> alloc_active a)
      \<and> allocate_loop n a = (a\<lparr>alloc_next := (next_id ^^ n) (alloc_next a)\<rparr>, Err SessionIdsExhausted)"
proof (induction n arbitrary: a)
  case 0
  then show ?case by simp
next
  case (Suc n)
  let ?a = "a\<lparr>alloc_next := next_id (alloc_next a)\<rparr>"
  have shift: "\<And>m w. (next_id ^^ m) (next_id w) = (next_id ^^ Suc m) w"
    by (simp add: funpow_swap1)
  show ?case
  proof (cases "alloc_next a \<in> alloc_active a")
    case False
    then show ?thesis by (intro disjI1 exI [of _ 0]) (simp add: next_id_def Let_def)
  next
    case True
    then have eq: "allocate_loop (Suc n) a = allocate_loop n ?a"
      by (simp add: Let_def next_id_def)
    have step: "(\<forall>j<Suc m. (next_id ^^ j) (alloc_next a) \<in> alloc_active a)
        \<longleftrightarrow> (\<forall>j<m. (next_id ^^ Suc j) (alloc_next a) \<in> alloc_active a)" for m
      using True by (auto simp: less_Suc_eq_0_disj)
    from Suc.IH [of ?a] show ?thesis unfolding eq
    proof (elim disjE exE conjE, goal_cases)
      case (1 k)
      then show ?case
        by (intro disjI1 exI [of _ "Suc k"]) (simp add: shift step del: funpow.simps)
    next
      case 2
      then show ?case by (intro disjI2) (simp add: shift step del: funpow.simps)
    qed
  qed
qed

lemma allocate_cases:
  assumes "allocator_inv a"
  obtains k where "k < 65535" "\<forall>j<k. (next_id ^^ j) (alloc_next a) \<in> alloc_active a"
      "(next_id ^^ k) (alloc_next a) \<notin> alloc_active a"
      "allocate a = (\<lparr>alloc_next = (next_id ^^ Suc k) (alloc_next a),
            alloc_active = insert ((next_id ^^ k) (alloc_next a)) (alloc_active a)\<rparr>,
           Ok (SessionId ((next_id ^^ k) (alloc_next a))))"
    | "\<And>v. v \<noteq> 0 \<Longrightarrow> v \<in> alloc_active a" "allocate a = (a, Err SessionIdsExhausted)"
proof -
  have nz: "alloc_next a \<noteq> 0" using assms by (simp add: allocator_inv_def)
  have all: "\<And>v. v \<noteq> 0 \<Longrightarrow> v \<in> alloc_active a"
    if "\<forall>j<65535. (next_id ^^ j) (alloc_next a) \<in> alloc_active a"
    using that next_id_reaches [OF nz] by metis
  have "a\<lparr>alloc_next := (next_id ^^ 65535) (alloc_next a)\<rparr> = a"
    unfolding next_id_cycle [OF nz] by simp
  then show ?thesis
    using allocate_loop_cases [of 65535 a] all that unfolding allocate_def by metis
qed

lemma allocator_inv_ops:
  "allocator_inv SessionIdAllocator_new"
  "session_valid s \<Longrightarrow> allocator_inv (starting_at s)"
  "allocator_inv a \<Longrightarrow> session_valid s \<Longrightarrow> allocator_inv (fst (reserve a s))"
  "allocator_inv a \<Longrightarrow> allocator_inv (fst (release a s))"
  by (auto simp: allocator_inv_def SessionIdAllocator_new_def SessionId_MIN_def starting_at_def
      session_valid_def reserve_def release_def)

lemma allocator_inv_allocate: "allocator_inv a \<Longrightarrow> allocator_inv (fst (allocate a))"
proof -
  assume inv: "allocator_inv a"
  then have nz: "\<And>k. (next_id ^^ k) (alloc_next a) \<noteq> 0"
    using next_id_pow by (simp add: allocator_inv_def)
  show ?thesis using inv
    by (cases rule: allocate_cases [OF inv])
      (use inv nz [of "Suc _"] nz in \<open>auto simp: allocator_inv_def simp del: funpow.simps\<close>)
qed

definition active_sessions :: "SessionIdAllocator \<Rightarrow> SessionId set" where
  "active_sessions a = SessionId ` alloc_active a"

lemma allocate_fresh:
  assumes "allocator_inv a" "allocate a = (a', Ok s)"
  shows "session_valid s \<and> s \<notin> active_sessions a \<and> active_sessions a' = insert s (active_sessions a)"
proof (cases rule: allocate_cases [OF assms(1)])
  case (1 k)
  then show ?thesis using assms next_id_pow [of "alloc_next a" k]
    by (auto simp: active_sessions_def session_valid_def allocator_inv_def)
next
  case 2
  then show ?thesis using assms by simp
qed

lemma allocate_exhausted:
  assumes "allocator_inv a" "allocate a = (a', Err e)"
  shows "{s. session_valid s} \<subseteq> active_sessions a \<and> a' = a \<and> e = SessionIdsExhausted"
proof (cases rule: allocate_cases [OF assms(1)])
  case 2
  have "SessionId (session_id_get s) \<in> active_sessions a" if "session_valid s" for s
    using that 2(1) unfolding active_sessions_def session_valid_def by blast
  then show ?thesis using assms 2 by auto
qed (use assms in auto)

interpretation sessions: id_pool allocator_inv "{s. session_valid s}" active_sessions allocate
  "\<lambda>a s. fst (release a s)"
proof (unfold_locales, goal_cases)
  case (3 p)
  then show ?case by (cases rule: allocate_cases) auto
next
  case (5 p i)
  then show ?case by (cases i) (auto simp: active_sessions_def release_def)
qed (use allocate_fresh allocate_exhausted allocator_inv_allocate allocator_inv_ops(4) in blast)+

section \<open>Properties\<close>

text \<open>
  C39. The allocator hands out a session identifier that is not zero and not in use, as long as one
  is free; it gives up only when all 65535 are in use, and then changes nothing.
\<close>

theorem allocation_is_fresh_and_complete:
  assumes "allocator_inv a"
  shows "case allocate a of (a', r) \<Rightarrow>
     allocator_inv a'
     \<and> (case r of
          Ok s \<Rightarrow> session_valid s \<and> s \<notin> active_sessions a \<and> active_sessions a' = insert s (active_sessions a)
        | Err e \<Rightarrow> e = SessionIdsExhausted \<and> a' = a \<and> active_sessions a = {s. session_valid s}
        | Panic \<Rightarrow> False)"
proof -
  obtain a' r where al: "allocate a = (a', r)" by (cases "allocate a")
  have inv: "allocator_inv a'" using allocator_inv_allocate [OF assms] al by simp
  have "active_sessions a \<subseteq> {s. session_valid s}"
    using assms by (auto simp: active_sessions_def allocator_inv_def session_valid_def)
  then show ?thesis
    using allocate_fresh [OF assms] allocate_exhausted [OF assms] sessions.alloc_total [OF assms] al inv
    by (cases r) auto
qed

theorem allocation_is_fresh_and_complete_witness:
  "case allocate \<lparr>alloc_next = 0xFFFF, alloc_active = {0xFFFF}\<rparr> of (a', r) \<Rightarrow>
     allocator_inv a'
     \<and> (case r of
          Ok s \<Rightarrow> session_valid s \<and> s \<notin> active_sessions \<lparr>alloc_next = 0xFFFF, alloc_active = {0xFFFF}\<rparr>
            \<and> active_sessions a' = insert s (active_sessions \<lparr>alloc_next = 0xFFFF, alloc_active = {0xFFFF}\<rparr>)
        | Err e \<Rightarrow> e = SessionIdsExhausted \<and> a' = \<lparr>alloc_next = 0xFFFF, alloc_active = {0xFFFF}\<rparr>
            \<and> active_sessions \<lparr>alloc_next = 0xFFFF, alloc_active = {0xFFFF}\<rparr> = {s. session_valid s}
        | Panic \<Rightarrow> False)"
  by (rule allocation_is_fresh_and_complete) (simp add: allocator_inv_def)

text \<open>
  Every raw 16-bit value survives being read as a parameter and written back, and what is read is
  canonical.
\<close>

theorem parameter_round_trip:
  "StandardParameter_to_raw (StandardParameter_from_raw r) = RawPosition r
   \<and> parameter_wf (StandardParameter_from_raw r)"
  by (simp only: to_raw_from_raw parameter_wf_from_raw simp_thms)

text \<open>
  A fixed-width field holds a string exactly when it has no NUL and leaves room for one; the field
  then has the full width and reads back as the string.
\<close>

theorem fixed_string_round_trip:
  assumes "str_valid s" "0 < n"
  shows "case encode_fixed_string n s of
      Ok field \<Rightarrow> length field = n \<and> decode_fixed_string field = Ok s \<and> length s < n \<and> 0 \<notin> set (as_bytes s)
    | Err e \<Rightarrow> 0 \<in> set (as_bytes s) \<or> n \<le> length s
    | Panic \<Rightarrow> False"
proof (cases "encode_fixed_string n s")
  case (Ok field)
  then have "0 \<notin> set (as_bytes s)" "length s \<le> n - 1" by (simp_all add: encode_fixed_string_Ok_iff)
  then show ?thesis
    using assms decode_encode_fixed_string [OF Ok] length_encode_fixed_string [OF Ok] by (simp add: Ok)
qed (use assms in \<open>auto simp: encode_fixed_string_def Let_def split: if_splits\<close>)

theorem fixed_string_round_trip_witness:
  "case encode_fixed_string 32 ''velux123'' of
      Ok field \<Rightarrow> length field = 32 \<and> decode_fixed_string field = Ok ''velux123''
        \<and> length ''velux123'' < 32 \<and> 0 \<notin> set (as_bytes ''velux123'')
    | Err e \<Rightarrow> 0 \<in> set (as_bytes ''velux123'') \<or> 32 \<le> length ''velux123''
    | Panic \<Rightarrow> False"
  by (rule fixed_string_round_trip) (simp_all add: str_valid_def as_bytes_def)

end
