(* ===== verification/Response_Data.thy ===== *)
theory Response_Data
  imports Klf_Types
begin

text \<open>
  The data of a decoded frame (\<open>src/klf200/response.rs\<close>): one record per response structure and the
  \<open>Response\<close> enumeration. Arrays are lists, signed bytes are words read with \<open>sint\<close>.
\<close>

section \<open>Structures\<close>

record Version =
  v_software :: "u8 list"
  v_hardware :: u8
  v_product_group :: u8
  v_product_type :: u8

record ProtocolVersion =
  pv_major :: u16
  pv_minor :: u16

record GatewayState =
  gs_state :: u8
  gs_sub_state :: u8
  gs_data :: "u8 list"

record LocalTime =
  lt_utc_time :: ProtocolTimestamp
  lt_second :: u8
  lt_minute :: u8
  lt_hour :: u8
  lt_day_of_month :: u8
  lt_month_since_january :: u8
  lt_years_since_1900 :: i16
  lt_week_day :: u8
  lt_day_of_year :: u16
  lt_daylight_saving_flag :: i8

record PasswordChangedNotification =
  pcn_new_password :: string

record SystemTableObject =
  sto_index :: u8
  sto_actuator_address :: "u8 list"
  sto_actuator_type_sub_type :: u16
  sto_power_mode_and_flags :: u8
  sto_manufacturer_id :: u8
  sto_backbone_reference :: "u8 list"

record SystemTableData =
  std_entries :: "SystemTableObject list"
  std_remaining_entries :: u8

record NodeDiscoveryResult =
  ndr_added :: NodeSet
  ndr_rf_connection_error :: NodeSet
  ndr_key_error_existing_node :: NodeSet
  ndr_removed :: NodeSet
  ndr_open :: NodeSet
  ndr_status :: u8

record ControllerCopyResult =
  ccr_mode :: u8
  ccr_status :: u8

record KeyChangeResult =
  kcr_command :: CommandId
  kcr_status :: i8
  kcr_changed :: NodeSet
  kcr_unchanged :: NodeSet

record PgcJob =
  pgc_state :: i8
  pgc_status :: i8
  pgc_job_type :: i8

record SystemTableUpdate =
  stu_added :: NodeSet
  stu_removed :: NodeSet

record ConfigurationActivationResult =
  car_activated :: NodeSet
  car_no_contact :: NodeSet
  car_other_error :: NodeSet
  car_status :: i8

record NodeMutationResult =
  nmr_command :: CommandId
  nmr_status :: u8
  nmr_node_id :: NodeId

record GroupOperationResult =
  gor_command :: CommandId
  gor_status :: u8
  gor_group_id :: GroupId

record GroupInformationNotification =
  gin_command :: CommandId
  gin_information :: GroupInformation

record GroupChange =
  gc_change_type :: u8
  gc_group_id :: GroupId
  gc_information :: "GroupInformation option"

record AllGroupsAccepted =
  aga_status :: i8
  aga_total_groups :: u8

record SessionCommandResult =
  scr_command :: CommandId
  scr_session_id :: SessionId
  scr_status :: u8

record LimitationStatus =
  ls_session_id :: SessionId
  ls_node_id :: NodeId
  ls_parameter_id :: u8
  ls_minimum :: StandardParameter
  ls_maximum :: StandardParameter
  ls_originator :: u8
  ls_limitation_time :: u8

record SceneStatusResult =
  ssr_command :: CommandId
  ssr_status :: u8

record SceneInitializationResult =
  sir_status :: u8
  sir_node_states :: "bool list"

record SceneObjectResult =
  sor_command :: CommandId
  sor_status :: u8
  sor_scene_id :: u8

record SceneSummary =
  sum_scene_id :: u8
  sum_name :: string

record SceneList =
  slst_scenes :: "SceneSummary list"
  slst_remaining_scenes :: u8

record SceneNode =
  scn_node_id :: NodeId
  scn_parameter_id :: u8
  scn_parameter :: StandardParameter

record SceneInformation =
  si_scene_id :: u8
  si_name :: string
  si_nodes :: "SceneNode list"
  si_remaining_nodes :: u8

record SceneSessionResult =
  sser_command :: CommandId
  sser_status :: u8
  sser_session_id :: SessionId

record SceneChange =
  sc_change_type :: u8
  sc_scene_id :: u8

record ProductGroupResult =
  pgr_session_id :: SessionId
  pgr_status :: u8

record ContactInputOperationResult =
  cor_command :: CommandId
  cor_contact_input_id :: u8
  cor_status :: u8

record ActivationLogHeader =
  alh_maximum_lines :: u16
  alh_line_count :: u16

datatype OperatingState =
    NonExecuting | ExecutionError | NotUsed | WaitingForPower | Executing | Done | UnknownState u8

definition OperatingState_from :: "u8 \<Rightarrow> OperatingState" where
  "OperatingState_from value =
     (if value = 0 then NonExecuting
      else if value = 1 then ExecutionError
      else if value = 2 then NotUsed
      else if value = 3 then WaitingForPower
      else if value = 4 then Executing
      else if value = 5 then Done
      else UnknownState value)"

datatype RunStatus = Completed | Failed | Active | UnknownRunStatus u8

definition RunStatus_from :: "u8 \<Rightarrow> RunStatus" where
  "RunStatus_from value =
     (if value = 0 then Completed
      else if value = 1 then Failed
      else if value = 2 then Active
      else UnknownRunStatus value)"

record ActivationLogEntry =
  ale_command :: CommandId
  ale_timestamp :: ProtocolTimestamp
  ale_session_id :: SessionId
  ale_status_id :: u8
  ale_node_id :: NodeId
  ale_node_parameter :: u8
  ale_parameter_value :: StandardParameter
  ale_run_status :: RunStatus
  ale_status_reply :: u8
  ale_information_code :: u32

record MultipleActivationLogResult =
  mal_line_count :: u16
  mal_status :: u8

record NodeInformation =
  ni_node_id :: NodeId
  ni_order :: u16
  ni_placement :: u8
  ni_name :: string
  ni_velocity :: u8
  ni_node_type_sub_type :: u16
  ni_product_group :: i8
  ni_product_type :: i8
  ni_variation :: u8
  ni_power_mode :: u8
  ni_build_number :: u8
  ni_serial_number :: "u8 list"
  ni_operating_state :: OperatingState
  ni_current_position :: StandardParameter
  ni_target_position :: StandardParameter
  ni_functional_positions :: "StandardParameter list"
  ni_remaining_time :: u16
  ni_timestamp :: ProtocolTimestamp
  ni_aliases :: "Alias list"

record NodeStatePosition =
  np_node_id :: NodeId
  np_operating_state :: OperatingState
  np_current_position :: StandardParameter
  np_target_position :: StandardParameter
  np_functional_positions :: "StandardParameter list"
  np_remaining_time :: u16
  np_timestamp :: ProtocolTimestamp

record NodeInformationChanged =
  nc_node_id :: NodeId
  nc_name :: string
  nc_order :: u16
  nc_placement :: u8
  nc_variation :: u8

record CommandRunStatus =
  rs_session_id :: SessionId
  rs_status_id :: u8
  rs_node_id :: NodeId
  rs_node_parameter :: u8
  rs_parameter_value :: StandardParameter
  rs_run_status :: RunStatus
  rs_status_reply :: u8
  rs_information_code :: u32

record ParameterStatus =
  ps_node_parameter :: u8
  ps_value :: u16

datatype StatusNotificationDetail =
    Parameters "ParameterStatus list"
  | MainDetail (detail_target_position: StandardParameter) (detail_current_position: StandardParameter)
      (detail_remaining_time: u16) (detail_last_master_execution_address: u32)
      (detail_last_command_originator: u8)
  | UnknownDetail u8 "u8 list"

record StatusNotification =
  st_session_id :: SessionId
  st_status_id :: u8
  st_node_id :: NodeId
  st_run_status :: RunStatus
  st_status_reply :: u8
  st_detail :: StatusNotificationDetail

section \<open>Responses\<close>

datatype (plugins only: size) Response =
    ErrorNotification u8
  | Acknowledgement CommandId
  | PasswordEntered bool
  | PasswordChanged bool
  | PasswordChangedNotification PasswordChangedNotification
  | OperationStatus CommandId u8
  | Version Version
  | ProtocolVersion ProtocolVersion
  | GatewayState GatewayState
  | NetworkSetup NetworkSetup
  | LocalTime LocalTime
  | SystemTableData SystemTableData
  | NodeDiscoveryResult NodeDiscoveryResult
  | NodesRemoved bool
  | ControllerCopyResult ControllerCopyResult
  | KeyChangeResult KeyChangeResult
  | PgcJob PgcJob
  | SystemTableUpdate SystemTableUpdate
  | ConfigurationActivationResult ConfigurationActivationResult
  | NodeMutationResult NodeMutationResult
  | GroupOperationResult GroupOperationResult
  | GroupInformation GroupInformationNotification
  | GroupChange GroupChange
  | AllGroupsAccepted AllGroupsAccepted
  | GroupDeleted GroupId
  | SessionCommandResult SessionCommandResult
  | WinkFinished SessionId
  | LimitationStatus LimitationStatus
  | ModeNotification "u8 list"
  | SceneStatusResult SceneStatusResult
  | SceneInitializationResult SceneInitializationResult
  | SceneObjectResult SceneObjectResult
  | SceneListAccepted u8
  | SceneList SceneList
  | SceneInformation SceneInformation
  | SceneSessionResult SceneSessionResult
  | SceneChange SceneChange
  | ProductGroupResult ProductGroupResult
  | ProductGroupNotification "u8 list"
  | ContactInputLinks "ContactInputLink list"
  | ContactInputOperationResult ContactInputOperationResult
  | ActivationLogHeader ActivationLogHeader
  | ActivationLogEntry ActivationLogEntry
  | MultipleActivationLogResult MultipleActivationLogResult
  | NodeInformationAccepted u8 NodeId
  | AllNodesInformationAccepted u8 u8
  | NodeInformation NodeInformation
  | NodeInformationChanged NodeInformationChanged
  | NodeStatePosition NodeStatePosition
  | CommandAccepted SessionId u8
  | CommandRunStatus CommandRunStatus
  | CommandRemainingTime SessionId NodeId u8 u16
  | SessionFinished SessionId
  | StatusAccepted SessionId u8
  | StatusNotification StatusNotification
  | UnknownResponse CommandId "u8 list"

end
