(* ===== verification/Frame.thy ===== *)
theory Frame
  imports Klf_Error
begin

text \<open>
  The KLF frame envelope (\<open>src/klf200/frame.rs\<close>): a protocol identifier, a length byte, the 16-bit
  command identifier, the payload and an exclusive-or checksum.
\<close>

section \<open>Data and operations\<close>

definition KLF_PROTOCOL_ID :: u8 where "KLF_PROTOCOL_ID = 0"
definition FRAME_OVERHEAD :: nat where "FRAME_OVERHEAD = 5"
definition PAYLOAD_LENGTH_OVERHEAD :: nat where "PAYLOAD_LENGTH_OVERHEAD = 3"
definition MAX_PAYLOAD_LENGTH :: nat where "MAX_PAYLOAD_LENGTH = 252"

lemmas frame_consts =
  KLF_PROTOCOL_ID_def FRAME_OVERHEAD_def PAYLOAD_LENGTH_OVERHEAD_def MAX_PAYLOAD_LENGTH_def

record Frame =
  frame_protocol_id :: u8
  frame_command :: CommandId
  frame_payload :: "u8 list"

definition Frame_new :: "CommandId \<Rightarrow> u8 list \<Rightarrow> Frame" where
  "Frame_new command payload =
     \<lparr>frame_protocol_id = KLF_PROTOCOL_ID, frame_command = command, frame_payload = payload\<rparr>"

definition checksum :: "u8 list \<Rightarrow> u8" where
  "checksum bytes = foldl (\<lambda>sum byte. sum XOR byte) 0 bytes"

definition Frame_encode :: "Frame \<Rightarrow> u8 list result" where
  "Frame_encode f =
     (if frame_protocol_id f \<noteq> KLF_PROTOCOL_ID then Err (InvalidProtocolId (frame_protocol_id f))
      else if length (frame_payload f) > MAX_PAYLOAD_LENGTH
        then Err (PayloadTooLarge (length (frame_payload f)))
      else
        (case u8_try_from (length (frame_payload f) + PAYLOAD_LENGTH_OVERHEAD) of
           None \<Rightarrow> Err (PayloadTooLarge (length (frame_payload f)))
         | Some len \<Rightarrow>
             (let encoded = [frame_protocol_id f, len] @ u16_to_be_bytes (raw (frame_command f))
                              @ frame_payload f
              in Ok (encoded @ [checksum encoded]))))"

definition Frame_decode :: "u8 list \<Rightarrow> Frame result" where
  "Frame_decode encoded =
     (if length encoded < FRAME_OVERHEAD then Err (FrameTooShort (length encoded))
      else and_then (byte_at encoded 0) (\<lambda>protocol_id.
        if protocol_id \<noteq> KLF_PROTOCOL_ID then Err (InvalidProtocolId protocol_id)
        else and_then (byte_at encoded 1) (\<lambda>length_byte.
          let declared = unat length_byte;
              actual = length encoded - 2
          in if declared \<noteq> actual then Err (InvalidFrameLength declared actual)
          else
            let checksum_index = length encoded - 1
            in and_then (byte_slice encoded 0 checksum_index) (\<lambda>summed.
              let expected = checksum summed
              in and_then (byte_at encoded checksum_index) (\<lambda>actual_checksum.
                if expected \<noteq> actual_checksum then Err (InvalidChecksum expected actual_checksum)
                else
                  and_then (byte_at encoded 2) (\<lambda>hi.
                  and_then (byte_at encoded 3) (\<lambda>lo.
                  and_then (byte_slice encoded 4 checksum_index) (\<lambda>payload.
                    Ok \<lparr>frame_protocol_id = protocol_id,
                        frame_command = CommandId (u16_from_be_bytes hi lo),
                        frame_payload = payload\<rparr>))))))))"

section \<open>The checksum\<close>

lemma checksum_from: "foldl (\<lambda>sum byte. sum XOR byte) c bs = c XOR checksum bs"
proof (induction bs arbitrary: c)
  case Nil
  then show ?case by (simp add: checksum_def)
next
  case (Cons b bs)
  have "checksum (b # bs) = b XOR checksum bs"
    using Cons.IH [of b] by (simp add: checksum_def)
  then show ?case using Cons.IH [of "c XOR b"] by (simp add: xor.assoc)
qed

lemma checksum_Nil [simp]: "checksum [] = 0"
  by (simp add: checksum_def)

lemma checksum_append: "checksum (xs @ ys) = checksum xs XOR checksum ys"
  by (subst (1) checksum_def) (simp add: checksum_from)

lemma checksum_Cons: "checksum (x # xs) = x XOR checksum xs"
  using checksum_append [of "[x]" xs] by (simp add: checksum_def)

lemma xor_eq_0_iff: "a XOR b = 0 \<longleftrightarrow> a = (b :: u8)"
  by (metis xor.assoc xor.left_neutral xor.right_neutral xor_self_eq)

lemma checksum_snoc_0: "checksum (bs @ [checksum bs]) = 0"
  by (simp add: checksum_append checksum_Cons)

lemma checksum_update:
  assumes "i < length bs"
  shows "checksum (bs[i := b]) = checksum bs XOR (bs ! i) XOR b"
proof -
  have "checksum bs = checksum (take i bs) XOR bs ! i XOR checksum (drop (Suc i) bs)"
    using assms by (subst id_take_nth_drop [of i bs]) (simp_all add: checksum_append checksum_Cons)
  moreover have "checksum (bs[i := b]) = checksum (take i bs) XOR b XOR checksum (drop (Suc i) bs)"
    using assms by (simp add: upd_conv_take_nth_drop checksum_append checksum_Cons)
  ultimately show ?thesis
    by (simp add: xor.assoc xor.left_commute xor.commute)
qed

section \<open>Encoding and decoding are inverse\<close>

text \<open>
  What a decodable frame looks like: the protocol identifier, a length byte that counts everything
  after itself, the command, the payload, and a final byte that makes the exclusive-or vanish.
\<close>

definition frame_bytes :: "Frame \<Rightarrow> u8 list" where
  "frame_bytes f =
     (let body = [frame_protocol_id f, of_nat (length (frame_payload f) + 3)]
                   @ u16_to_be_bytes (raw (frame_command f)) @ frame_payload f
      in body @ [checksum body])"

lemma Frame_encode_Ok_iff:
  "Frame_encode f = Ok bs \<longleftrightarrow>
     frame_protocol_id f = 0 \<and> length (frame_payload f) \<le> 252 \<and> bs = frame_bytes f"
  by (auto simp: Frame_encode_def frame_bytes_def frame_consts u8_try_from_def Let_def)

lemma frame_shape:
  assumes "5 \<le> length bs"
  obtains b0 b1 b2 b3 ps c where "bs = b0 # b1 # b2 # b3 # ps @ [c]"
proof -
  obtain b0 b1 b2 b3 r where bs: "bs = b0 # b1 # b2 # b3 # r" and "r \<noteq> []"
    using assms by (auto simp: numeral_eq_Suc Suc_le_length_iff)
  then show ?thesis using that by (metis append_butlast_last_id)
qed

lemma Frame_decode_shape:
  "Frame_decode (b0 # b1 # b2 # b3 # ps @ [c]) =
     (if b0 \<noteq> 0 then Err (InvalidProtocolId b0)
      else if unat b1 \<noteq> length ps + 3 then Err (InvalidFrameLength (unat b1) (length ps + 3))
      else if checksum (b0 # b1 # b2 # b3 # ps) \<noteq> c
        then Err (InvalidChecksum (checksum (b0 # b1 # b2 # b3 # ps)) c)
      else Ok \<lparr>frame_protocol_id = b0, frame_command = CommandId (u16_from_be_bytes b2 b3),
               frame_payload = ps\<rparr>)"
  by (simp add: Frame_decode_def frame_consts Let_def nth_append numeral_eq_Suc)

lemma Frame_decode_short: "length bs < 5 \<Longrightarrow> Frame_decode bs = Err (FrameTooShort (length bs))"
  by (simp add: Frame_decode_def frame_consts)

lemma Frame_decode_not_Panic [no_panic, simp]: "Frame_decode bs \<noteq> Panic"
proof (cases "length bs < 5")
  case False
  then obtain b0 b1 b2 b3 ps c where "bs = b0 # b1 # b2 # b3 # ps @ [c]"
    by (meson frame_shape linorder_not_less)
  then show ?thesis by (simp add: Frame_decode_shape)
qed (simp add: Frame_decode_short)

lemma Frame_encode_not_Panic [no_panic, simp]: "Frame_encode f \<noteq> Panic"
  by (auto simp: Frame_encode_def Let_def split: option.splits)

lemma Frame_decode_encode: "Frame_encode f = Ok bs \<Longrightarrow> Frame_decode bs = Ok f"
proof -
  assume enc: "Frame_encode f = Ok bs"
  then have f: "frame_protocol_id f = 0" "length (frame_payload f) \<le> 252"
    and bs: "bs = frame_bytes f" by (auto simp: Frame_encode_Ok_iff)
  have len: "unat (of_nat (length (frame_payload f) + 3) :: u8) = length (frame_payload f) + 3"
    using f by (simp only: unat_of_nat) simp
  show ?thesis
    unfolding bs frame_bytes_def u16_to_be_bytes_def using f len
    by (simp add: Let_def Frame_decode_shape)
qed

lemma Frame_encode_decode: "Frame_decode bs = Ok f \<Longrightarrow> Frame_encode f = Ok bs"
proof -
  assume dec: "Frame_decode bs = Ok f"
  then have "5 \<le> length bs" using Frame_decode_short [of bs] by (cases "length bs < 5") auto
  then obtain b0 b1 b2 b3 ps c where bs: "bs = b0 # b1 # b2 # b3 # ps @ [c]"
    by (rule frame_shape)
  then have f: "f = \<lparr>frame_protocol_id = 0, frame_command = CommandId (u16_from_be_bytes b2 b3),
      frame_payload = ps\<rparr>"
    and "b0 = 0" and len: "unat b1 = length ps + 3" and c: "c = checksum (b0 # b1 # b2 # b3 # ps)"
    using dec by (auto simp: Frame_decode_shape split: if_splits)
  have "length ps + 3 < 256" using len [symmetric] by simp
  moreover have "of_nat (length ps + 3) = b1" unfolding len [symmetric] by simp
  ultimately show ?thesis
    using \<open>b0 = 0\<close> c by (simp add: f bs Frame_encode_Ok_iff frame_bytes_def Let_def)
qed

text \<open>A frame that decodes has a vanishing exclusive-or, so damage to one byte is always noticed.\<close>

lemma checksum_frame_bytes: "checksum (frame_bytes f) = 0"
  by (simp only: frame_bytes_def Let_def checksum_snoc_0)

lemma Frame_decode_Ok_checksum: "Frame_decode bs = Ok f \<Longrightarrow> checksum bs = 0"
  using Frame_encode_decode [of bs f] by (auto simp: Frame_encode_Ok_iff checksum_frame_bytes)

lemma Frame_decode_damaged:
  assumes "Frame_encode f = Ok bs" "i < length bs" "b \<noteq> bs ! i"
  shows "\<exists>e. Frame_decode (bs[i := b]) = Err e"
proof (cases "Frame_decode (bs[i := b])")
  case (Ok g)
  have "checksum bs = 0"
    using assms(1) by (blast dest: Frame_decode_encode Frame_decode_Ok_checksum)
  with Frame_decode_Ok_checksum [OF Ok] assms(2,3) show ?thesis
    by (simp add: checksum_update xor_eq_0_iff)
qed auto

section \<open>Properties\<close>

text \<open>
  C37. Decoding is the inverse of encoding in both directions: bytes decode to a frame exactly when
  they are the encoding of it.
\<close>

theorem frame_decode_iff_encode:
  "Frame_decode bs = Ok f \<longleftrightarrow> Frame_encode f = Ok bs"
  using Frame_decode_encode Frame_encode_decode by blast

text \<open>
  C38. A frame with one damaged byte, wherever it is, is never taken for a valid frame.
\<close>

theorem damaged_frame_rejected:
  assumes "Frame_encode f = Ok bs" "i < length bs" "b \<noteq> bs ! i"
  shows "\<exists>e. Frame_decode (bs[i := b]) = Err e"
  by (rule Frame_decode_damaged [OF assms])

theorem damaged_frame_rejected_witness:
  "\<exists>e. Frame_decode ([0, 3, 0, 1, 2 :: u8][3 := 9]) = Err e"
  by (rule damaged_frame_rejected [where f = "Frame_new (CommandId 1) []"])
    (simp_all add: Frame_encode_def Frame_new_def frame_consts u8_try_from_def u16_to_be_bytes_def
      checksum_Cons Let_def)

end
