(* ===== verification/Command.thy ===== *)
theory Command
  imports Klf_Types Frame
begin

text \<open>
  The typed requests (\<open>src/klf200/command.rs\<close>): the request data types, their command identifiers
  and session identifiers, and the encoding of every request into the payload of a frame.
\<close>

section \<open>Targets\<close>

definition MAX_TARGETS :: nat where "MAX_TARGETS = 20"

datatype CommandTarget = CommandTarget (target_nodes: "NodeId list")

definition CommandTarget_new :: "NodeId list \<Rightarrow> CommandTarget result" where
  "CommandTarget_new nodes =
     (if nodes = [] then Err (InvalidRequest ''at least one target node is required'')
      else if length nodes > MAX_TARGETS
        then Err (InvalidRequest ''a request can target at most 20 nodes'')
      else if \<exists>i \<in> {0..<length nodes}. nodes ! i \<in> set (take i nodes)
        then Err (InvalidRequest ''target node IDs must be unique'')
      else Ok (CommandTarget nodes))"

section \<open>Requests\<close>

record CommandRequest =
  cr_session_id :: SessionId
  cr_main_parameter :: StandardParameter

record WinkRequest =
  wk_session_id :: SessionId
  wk_command_originator :: u8
  wk_priority_level :: u8
  wk_enabled :: bool
  wk_wink_time :: u8
  wk_target :: CommandTarget

record SetLimitationRequest =
  sl_session_id :: SessionId
  sl_command_originator :: u8
  sl_priority_level :: u8
  sl_target :: CommandTarget
  sl_parameter_id :: u8
  sl_minimum :: StandardParameter
  sl_maximum :: StandardParameter
  sl_limitation_time :: u8

record GetLimitationStatusRequest =
  gl_session_id :: SessionId
  gl_target :: CommandTarget
  gl_parameter_id :: u8
  gl_limitation_type :: u8

record ModeRequest =
  mr_session_id :: SessionId
  mr_command_originator :: u8
  mr_priority_level :: u8
  mr_mode_number :: u8
  mr_mode_parameter :: u8
  mr_target :: CommandTarget
  mr_priority_level_lock :: bool
  mr_priority_level_settings :: "u8 list"
  mr_lock_time :: u8

datatype CommandExtensionRequest =
    Wink WinkRequest
  | SetLimitation SetLimitationRequest
  | GetLimitationStatus GetLimitationStatusRequest
  | Mode ModeRequest

record SceneActivationRequest =
  sa_session_id :: SessionId
  sa_command_originator :: u8
  sa_priority_level :: u8
  sa_scene_id :: u8
  sa_velocity :: u8

record SceneStopRequest =
  ss_session_id :: SessionId
  ss_command_originator :: u8
  ss_priority_level :: u8
  ss_scene_id :: u8

record ProductGroupActivationRequest =
  pg_session_id :: SessionId
  pg_command_originator :: u8
  pg_priority_level :: u8
  pg_product_group_id :: u8
  pg_parameter_id :: u8
  pg_position :: StandardParameter
  pg_velocity :: u8
  pg_priority_level_lock :: bool
  pg_priority_level_settings :: "u8 list"
  pg_lock_time :: u8

datatype SceneContactRequest =
    InitializeScene
  | CancelSceneInitialization
  | RecordScene string
  | DeleteScene u8
  | RenameScene u8 string
  | GetSceneList
  | GetSceneInformation u8
  | ActivateScene SceneActivationRequest
  | StopScene SceneStopRequest
  | ActivateProductGroup ProductGroupActivationRequest
  | GetContactInputLinks
  | SetContactInputLink ContactInputLink
  | RemoveContactInputLink u8

datatype ActivationLogRequest =
    GetHeader
  | Clear
  | GetLine u16
  | GetLinesSince ProtocolTimestamp

datatype StatusRequestType = TargetPosition | CurrentPosition | RemainingTime | MainInformation

datatype ConfigurationRequest =
    GetSystemTableData
  | DiscoverNodes u8
  | RemoveNodes NodeSet
  | VirginState
  | ControllerCopy u8
  | ReceiveKey
  | GenerateNewKey
  | RepairKey
  | ActivateConfiguration NodeSet

datatype NodeGroupRequest =
    SetNodeVariation NodeId u8
  | SetNodeName NodeId string
  | SetNodeOrderAndPlacement NodeId u16 u8
  | GetGroup GroupId
  | SetGroup GroupInformation
  | DeleteGroup GroupId
  | NewGroup NewGroupInformation
  | GetAllGroups bool u8

datatype Request =
    Reboot
  | SetFactoryDefault
  | GetVersion
  | GetProtocolVersion
  | GetState
  | LeaveLearnState
  | GetNetworkSetup
  | SetNetworkSetup NetworkSetup
  | SetUtc ProtocolTimestamp
  | SetTimeZone string
  | GetLocalTime
  | Configuration ConfigurationRequest
  | NodeGroup NodeGroupRequest
  | CommandExtension CommandExtensionRequest
  | SceneContact SceneContactRequest
  | ActivationLog ActivationLogRequest
  | GetAllNodesInformation
  | HouseStatusMonitorEnable
  | HouseStatusMonitorDisable
  | GetNodeInformation NodeId
  | PasswordEnter string
  | PasswordChange (current_password: string) (new_password: string)
  | CommandSend CommandRequest CommandTarget
  | StatusRequest SessionId CommandTarget StatusRequestType
  | Raw CommandId "u8 list"

section \<open>Command and session identifiers\<close>

fun CommandExtensionRequest_command_id :: "CommandExtensionRequest \<Rightarrow> CommandId" where
  "CommandExtensionRequest_command_id (Wink _) = GW_WINK_SEND_REQ"
| "CommandExtensionRequest_command_id (SetLimitation _) = GW_SET_LIMITATION_REQ"
| "CommandExtensionRequest_command_id (GetLimitationStatus _) = GW_GET_LIMITATION_STATUS_REQ"
| "CommandExtensionRequest_command_id (Mode _) = GW_MODE_SEND_REQ"

fun CommandExtensionRequest_session_id :: "CommandExtensionRequest \<Rightarrow> SessionId" where
  "CommandExtensionRequest_session_id (Wink request) = wk_session_id request"
| "CommandExtensionRequest_session_id (SetLimitation request) = sl_session_id request"
| "CommandExtensionRequest_session_id (GetLimitationStatus request) = gl_session_id request"
| "CommandExtensionRequest_session_id (Mode request) = mr_session_id request"

fun ActivationLogRequest_command_id :: "ActivationLogRequest \<Rightarrow> CommandId" where
  "ActivationLogRequest_command_id GetHeader = GW_GET_ACTIVATION_LOG_HEADER_REQ"
| "ActivationLogRequest_command_id Clear = GW_CLEAR_ACTIVATION_LOG_REQ"
| "ActivationLogRequest_command_id (GetLine _) = GW_GET_ACTIVATION_LOG_LINE_REQ"
| "ActivationLogRequest_command_id (GetLinesSince _) = GW_GET_MULTIPLE_ACTIVATION_LOG_LINES_REQ"

fun SceneContactRequest_command_id :: "SceneContactRequest \<Rightarrow> CommandId" where
  "SceneContactRequest_command_id InitializeScene = GW_INITIALIZE_SCENE_REQ"
| "SceneContactRequest_command_id CancelSceneInitialization = GW_INITIALIZE_SCENE_CANCEL_REQ"
| "SceneContactRequest_command_id (RecordScene _) = GW_RECORD_SCENE_REQ"
| "SceneContactRequest_command_id (DeleteScene _) = GW_DELETE_SCENE_REQ"
| "SceneContactRequest_command_id (RenameScene _ _) = GW_RENAME_SCENE_REQ"
| "SceneContactRequest_command_id GetSceneList = GW_GET_SCENE_LIST_REQ"
| "SceneContactRequest_command_id (GetSceneInformation _) = GW_GET_SCENE_INFOAMATION_REQ"
| "SceneContactRequest_command_id (ActivateScene _) = GW_ACTIVATE_SCENE_REQ"
| "SceneContactRequest_command_id (StopScene _) = GW_STOP_SCENE_REQ"
| "SceneContactRequest_command_id (ActivateProductGroup _) = GW_ACTIVATE_PRODUCTGROUP_REQ"
| "SceneContactRequest_command_id GetContactInputLinks = GW_GET_CONTACT_INPUT_LINK_LIST_REQ"
| "SceneContactRequest_command_id (SetContactInputLink _) = GW_SET_CONTACT_INPUT_LINK_REQ"
| "SceneContactRequest_command_id (RemoveContactInputLink _) = GW_REMOVE_CONTACT_INPUT_LINK_REQ"

fun SceneContactRequest_session_id :: "SceneContactRequest \<Rightarrow> SessionId option" where
  "SceneContactRequest_session_id (ActivateScene request) = Some (sa_session_id request)"
| "SceneContactRequest_session_id (StopScene request) = Some (ss_session_id request)"
| "SceneContactRequest_session_id (ActivateProductGroup request) = Some (pg_session_id request)"
| "SceneContactRequest_session_id _ = None"

fun ConfigurationRequest_command_id :: "ConfigurationRequest \<Rightarrow> CommandId" where
  "ConfigurationRequest_command_id GetSystemTableData = GW_CS_GET_SYSTEMTABLE_DATA_REQ"
| "ConfigurationRequest_command_id (DiscoverNodes _) = GW_CS_DISCOVER_NODES_REQ"
| "ConfigurationRequest_command_id (RemoveNodes _) = GW_CS_REMOVE_NODES_REQ"
| "ConfigurationRequest_command_id VirginState = GW_CS_VIRGIN_STATE_REQ"
| "ConfigurationRequest_command_id (ControllerCopy _) = GW_CS_CONTROLLER_COPY_REQ"
| "ConfigurationRequest_command_id ReceiveKey = GW_CS_RECEIVE_KEY_REQ"
| "ConfigurationRequest_command_id GenerateNewKey = GW_CS_GENERATE_NEW_KEY_REQ"
| "ConfigurationRequest_command_id RepairKey = GW_CS_REPAIR_KEY_REQ"
| "ConfigurationRequest_command_id (ActivateConfiguration _) = GW_CS_ACTIVATE_CONFIGURATION_MODE_REQ"

fun NodeGroupRequest_command_id :: "NodeGroupRequest \<Rightarrow> CommandId" where
  "NodeGroupRequest_command_id (SetNodeVariation _ _) = GW_SET_NODE_VARIATION_REQ"
| "NodeGroupRequest_command_id (SetNodeName _ _) = GW_SET_NODE_NAME_REQ"
| "NodeGroupRequest_command_id (SetNodeOrderAndPlacement _ _ _) = GW_SET_NODE_ORDER_AND_PLACEMENT_REQ"
| "NodeGroupRequest_command_id (GetGroup _) = GW_GET_GROUP_INFORMATION_REQ"
| "NodeGroupRequest_command_id (SetGroup _) = GW_SET_GROUP_INFORMATION_REQ"
| "NodeGroupRequest_command_id (DeleteGroup _) = GW_DELETE_GROUP_REQ"
| "NodeGroupRequest_command_id (NewGroup _) = GW_NEW_GROUP_REQ"
| "NodeGroupRequest_command_id (GetAllGroups _ _) = GW_GET_ALL_GROUPS_INFORMATION_REQ"

fun Request_command_id :: "Request \<Rightarrow> CommandId" where
  "Request_command_id Reboot = GW_REBOOT_REQ"
| "Request_command_id SetFactoryDefault = GW_SET_FACTORY_DEFAULT_REQ"
| "Request_command_id GetVersion = GW_GET_VERSION_REQ"
| "Request_command_id GetProtocolVersion = GW_GET_PROTOCOL_VERSION_REQ"
| "Request_command_id GetState = GW_GET_STATE_REQ"
| "Request_command_id LeaveLearnState = GW_LEAVE_LEARN_STATE_REQ"
| "Request_command_id GetNetworkSetup = GW_GET_NETWORK_SETUP_REQ"
| "Request_command_id (SetNetworkSetup _) = GW_SET_NETWORK_SETUP_REQ"
| "Request_command_id (SetUtc _) = GW_SET_UTC_REQ"
| "Request_command_id (SetTimeZone _) = GW_RTC_SET_TIME_ZONE_REQ"
| "Request_command_id GetLocalTime = GW_GET_LOCAL_TIME_REQ"
| "Request_command_id (Configuration request) = ConfigurationRequest_command_id request"
| "Request_command_id (NodeGroup request) = NodeGroupRequest_command_id request"
| "Request_command_id (CommandExtension request) = CommandExtensionRequest_command_id request"
| "Request_command_id (SceneContact request) = SceneContactRequest_command_id request"
| "Request_command_id (ActivationLog request) = ActivationLogRequest_command_id request"
| "Request_command_id GetAllNodesInformation = GW_GET_ALL_NODES_INFORMATION_REQ"
| "Request_command_id HouseStatusMonitorEnable = GW_HOUSE_STATUS_MONITOR_ENABLE_REQ"
| "Request_command_id HouseStatusMonitorDisable = GW_HOUSE_STATUS_MONITOR_DISABLE_REQ"
| "Request_command_id (GetNodeInformation _) = GW_GET_NODE_INFORMATION_REQ"
| "Request_command_id (PasswordEnter _) = GW_PASSWORD_ENTER_REQ"
| "Request_command_id (PasswordChange _ _) = GW_PASSWORD_CHANGE_REQ"
| "Request_command_id (CommandSend _ _) = GW_COMMAND_SEND_REQ"
| "Request_command_id (StatusRequest _ _ _) = GW_STATUS_REQUEST_REQ"
| "Request_command_id (Raw command _) = command"

fun Request_session_id :: "Request \<Rightarrow> SessionId option" where
  "Request_session_id (CommandSend command _) = Some (cr_session_id command)"
| "Request_session_id (StatusRequest session_id _ _) = Some session_id"
| "Request_session_id (CommandExtension request) = Some (CommandExtensionRequest_session_id request)"
| "Request_session_id (SceneContact request) = SceneContactRequest_session_id request"
| "Request_session_id _ = None"

section \<open>Payloads\<close>

definition encode_network_setup :: "NetworkSetup \<Rightarrow> u8 list" where
  "encode_network_setup setup =
     (let payload = replicate 13 0;
          payload = write_bytes 0 (net_ip_address setup) payload;
          payload = write_bytes 4 (net_subnet_mask setup) payload;
          payload = write_bytes 8 (net_default_gateway setup) payload;
          payload = payload[12 := u8_from_bool (net_dhcp setup)]
      in payload)"

definition encode_node_set :: "NodeSet \<Rightarrow> u8 list" where
  "encode_node_set nodes =
     (let payload = replicate 26 0;
          payload = write_bytes 0 (act_bytes (ns_actuators nodes)) payload;
          payload = payload[25 := beacon_byte (ns_beacons nodes)]
      in payload)"

definition encode_group_information :: "GroupInformation \<Rightarrow> u8 list result" where
  "encode_group_information info =
     (let payload = replicate 99 0;
          payload = payload[0 := group_id_get (gi_group_id info)];
          payload = write_bytes 1 (u16_to_be_bytes (gi_order info)) payload;
          payload = payload[3 := gi_placement info]
      in and_then (encode_fixed_string 64 (gi_name info)) (\<lambda>name.
          let payload = write_bytes 4 name payload;
              payload = payload[68 := gi_velocity info];
              payload = payload[69 := gi_node_variation info];
              payload = payload[70 := gi_group_type info];
              payload = payload[71 := gi_object_count info];
              payload = write_bytes 72 (act_bytes (gi_actuators info)) payload;
              payload = write_bytes 97 (u16_to_be_bytes (gi_revision info)) payload
          in Ok payload))"

definition encode_new_group_information :: "NewGroupInformation \<Rightarrow> u8 list result" where
  "encode_new_group_information info =
     (let payload = replicate 96 0;
          payload = write_bytes 0 (u16_to_be_bytes (ng_order info)) payload;
          payload = payload[2 := ng_placement info]
      in and_then (encode_fixed_string 64 (ng_name info)) (\<lambda>name.
          let payload = write_bytes 3 name payload;
              payload = payload[67 := ng_velocity info];
              payload = payload[68 := ng_node_variation info];
              payload = payload[69 := ng_group_type info];
              payload = payload[70 := ng_object_count info];
              payload = write_bytes 71 (act_bytes (ng_actuators info)) payload
          in Ok payload))"

text \<open>The loop over \<open>destination.iter_mut().zip(target.nodes())\<close>.\<close>

fun write_nodes :: "u8 list \<Rightarrow> NodeId list \<Rightarrow> u8 list" where
  "write_nodes (slot # destination) (node_id # nodes) =
     node_id_get node_id # write_nodes destination nodes"
| "write_nodes destination _ = destination"

definition encode_target :: "u8 list \<Rightarrow> CommandTarget \<Rightarrow> u8 list \<times> u8" where
  "encode_target destination target =
     (write_nodes destination (target_nodes target),
      (case u8_try_from (length (target_nodes target)) of Some count \<Rightarrow> count | None \<Rightarrow> 0))"

text \<open>\<open>payload[count_index] = encode_target(&mut payload[from..to], target)\<close>.\<close>

definition put_target :: "nat \<Rightarrow> nat \<Rightarrow> nat \<Rightarrow> CommandTarget \<Rightarrow> u8 list \<Rightarrow> u8 list" where
  "put_target count_index from to target payload =
     (let (slots, count) = encode_target (take (to - from) (drop from payload)) target
      in (write_bytes from slots payload)[count_index := count])"

definition encode_wink :: "WinkRequest \<Rightarrow> u8 list" where
  "encode_wink request =
     (let payload = replicate 27 0;
          payload = write_bytes 0 (u16_to_be_bytes (session_id_get (wk_session_id request))) payload;
          payload = payload[2 := wk_command_originator request];
          payload = payload[3 := wk_priority_level request];
          payload = payload[4 := u8_from_bool (wk_enabled request)];
          payload = payload[5 := wk_wink_time request];
          payload = put_target 6 7 27 (wk_target request) payload
      in payload)"

definition encode_set_limitation :: "SetLimitationRequest \<Rightarrow> u8 list" where
  "encode_set_limitation request =
     (let payload = replicate 31 0;
          payload = write_bytes 0 (u16_to_be_bytes (session_id_get (sl_session_id request))) payload;
          payload = payload[2 := sl_command_originator request];
          payload = payload[3 := sl_priority_level request];
          payload = put_target 4 5 25 (sl_target request) payload;
          payload = payload[25 := sl_parameter_id request];
          payload = write_bytes 26 (u16_to_be_bytes (raw_position_get (StandardParameter_to_raw (sl_minimum request)))) payload;
          payload = write_bytes 28 (u16_to_be_bytes (raw_position_get (StandardParameter_to_raw (sl_maximum request)))) payload;
          payload = payload[30 := sl_limitation_time request]
      in payload)"

definition encode_get_limitation_status :: "GetLimitationStatusRequest \<Rightarrow> u8 list" where
  "encode_get_limitation_status request =
     (let payload = replicate 25 0;
          payload = write_bytes 0 (u16_to_be_bytes (session_id_get (gl_session_id request))) payload;
          payload = put_target 2 3 23 (gl_target request) payload;
          payload = payload[23 := gl_parameter_id request];
          payload = payload[24 := gl_limitation_type request]
      in payload)"

definition pack_two_bit_settings :: "u8 list \<Rightarrow> u8" where
  "pack_two_bit_settings settings = foldl (\<lambda>packed setting. push_bit 2 packed OR setting) 0 settings"

definition validate_priority_settings :: "u8 list \<Rightarrow> unit result" where
  "validate_priority_settings settings =
     (if \<exists>setting \<in> set settings. setting > 3
      then Err (InvalidRequest ''priority-level settings must be in the range 0..=3'')
      else Ok ())"

definition encode_mode :: "ModeRequest \<Rightarrow> u8 list result" where
  "encode_mode request =
     (and_then (validate_priority_settings (mr_priority_level_settings request)) (\<lambda>_.
      let payload = replicate 31 0;
          payload = write_bytes 0 (u16_to_be_bytes (session_id_get (mr_session_id request))) payload;
          payload = payload[2 := mr_command_originator request];
          payload = payload[3 := mr_priority_level request];
          payload = payload[4 := mr_mode_number request];
          payload = payload[5 := mr_mode_parameter request];
          payload = put_target 6 7 27 (mr_target request) payload;
          payload = payload[27 := u8_from_bool (mr_priority_level_lock request)];
          payload = (if mr_priority_level_lock request then payload
            [28 := pack_two_bit_settings (take 4 (mr_priority_level_settings request)),
             29 := pack_two_bit_settings (drop 4 (mr_priority_level_settings request))]
          else payload);
          payload = payload[30 := mr_lock_time request]
      in Ok payload))"

definition encode_activate_scene :: "SceneActivationRequest \<Rightarrow> u8 list" where
  "encode_activate_scene request =
     (let payload = replicate 6 0;
          payload = write_bytes 0 (u16_to_be_bytes (session_id_get (sa_session_id request))) payload;
          payload = payload[2 := sa_command_originator request];
          payload = payload[3 := sa_priority_level request];
          payload = payload[4 := sa_scene_id request];
          payload = payload[5 := sa_velocity request]
      in payload)"

definition encode_stop_scene :: "SceneStopRequest \<Rightarrow> u8 list" where
  "encode_stop_scene request =
     (let payload = replicate 5 0;
          payload = write_bytes 0 (u16_to_be_bytes (session_id_get (ss_session_id request))) payload;
          payload = payload[2 := ss_command_originator request];
          payload = payload[3 := ss_priority_level request];
          payload = payload[4 := ss_scene_id request]
      in payload)"

definition encode_activate_product_group :: "ProductGroupActivationRequest \<Rightarrow> u8 list result" where
  "encode_activate_product_group request =
     (and_then (validate_priority_settings (pg_priority_level_settings request)) (\<lambda>_.
      let payload = replicate 13 0;
          payload = write_bytes 0 (u16_to_be_bytes (session_id_get (pg_session_id request))) payload;
          payload = payload[2 := pg_command_originator request];
          payload = payload[3 := pg_priority_level request];
          payload = payload[4 := pg_product_group_id request];
          payload = payload[5 := pg_parameter_id request];
          payload = write_bytes 6 (u16_to_be_bytes (raw_position_get (StandardParameter_to_raw (pg_position request)))) payload;
          payload = payload[8 := pg_velocity request];
          payload = payload[9 := u8_from_bool (pg_priority_level_lock request)];
          payload = (if pg_priority_level_lock request then payload
            [10 := pack_two_bit_settings (take 4 (pg_priority_level_settings request)),
             11 := pack_two_bit_settings (drop 4 (pg_priority_level_settings request))]
          else payload);
          payload = payload[12 := pg_lock_time request]
      in Ok payload))"

definition encode_contact_input_link :: "ContactInputLink \<Rightarrow> u8 list result" where
  "encode_contact_input_link link =
     (and_then (validate_priority_settings (ci_priority_level_settings link)) (\<lambda>_.
      let payload = replicate 17 0;
          payload = payload[0 := ci_contact_input_id link];
          payload = payload[1 := ci_assignment link];
          payload = payload[2 := ci_action_id link];
          payload = payload[3 := ci_command_originator link];
          payload = payload[4 := ci_priority_level link];
          payload = payload[5 := ci_parameter_id link];
          payload = write_bytes 6 (u16_to_be_bytes (raw_position_get (StandardParameter_to_raw (ci_position link)))) payload;
          payload = payload[8 := ci_velocity link];
          payload = payload[9 := ci_lock_priority_level link];
          payload = write_bytes 10 (ci_priority_level_settings link) payload;
          payload = payload[15 := ci_success_output_id link];
          payload = payload[16 := ci_error_output_id link]
      in Ok payload))"

definition encode_command_send :: "CommandRequest \<Rightarrow> CommandTarget \<Rightarrow> u8 list" where
  "encode_command_send command target =
     (let payload = replicate 66 0;
          payload = write_bytes 0 (u16_to_be_bytes (session_id_get (cr_session_id command))) payload;
          payload = payload[2 := 1];
          payload = payload[3 := 3];
          payload = payload[4 := 0];
          payload = write_bytes 7 (u16_to_be_bytes
            (raw_position_get (StandardParameter_to_raw (cr_main_parameter command)))) payload
      in (case u8_try_from (length (target_nodes target)) of
            None \<Rightarrow> []
          | Some count \<Rightarrow>
              (let payload = payload[41 := count]
               in write_bytes 42 (write_nodes (take 20 (drop 42 payload)) (target_nodes target)) payload)))"

primrec status_type_as_u8 :: "StatusRequestType \<Rightarrow> u8" where
  "status_type_as_u8 TargetPosition = 0"
| "status_type_as_u8 CurrentPosition = 1"
| "status_type_as_u8 RemainingTime = 2"
| "status_type_as_u8 MainInformation = 3"

definition encode_status_request :: "SessionId \<Rightarrow> CommandTarget \<Rightarrow> StatusRequestType \<Rightarrow> u8 list" where
  "encode_status_request session_id target status_type =
     (let payload = replicate 26 0;
          payload = write_bytes 0 (u16_to_be_bytes (session_id_get session_id)) payload
      in (case u8_try_from (length (target_nodes target)) of
            None \<Rightarrow> []
          | Some count \<Rightarrow>
              (let payload = payload[2 := count];
                   payload = write_bytes 3 (write_nodes (take 20 (drop 3 payload)) (target_nodes target)) payload;
                   payload = payload[23 := status_type_as_u8 status_type]
               in payload)))"

section \<open>Encoding requests\<close>

fun CommandExtensionRequest_encode :: "CommandExtensionRequest \<Rightarrow> u8 list result" where
  "CommandExtensionRequest_encode (Wink request) = Ok (encode_wink request)"
| "CommandExtensionRequest_encode (SetLimitation request) = Ok (encode_set_limitation request)"
| "CommandExtensionRequest_encode (GetLimitationStatus request) = Ok (encode_get_limitation_status request)"
| "CommandExtensionRequest_encode (Mode request) = encode_mode request"

fun ActivationLogRequest_encode :: "ActivationLogRequest \<Rightarrow> u8 list" where
  "ActivationLogRequest_encode GetHeader = []"
| "ActivationLogRequest_encode Clear = []"
| "ActivationLogRequest_encode (GetLine line) = u16_to_be_bytes line"
| "ActivationLogRequest_encode (GetLinesSince timestamp) = u32_to_be_bytes (unix_seconds timestamp)"

fun SceneContactRequest_encode :: "SceneContactRequest \<Rightarrow> u8 list result" where
  "SceneContactRequest_encode InitializeScene = Ok []"
| "SceneContactRequest_encode CancelSceneInitialization = Ok []"
| "SceneContactRequest_encode GetSceneList = Ok []"
| "SceneContactRequest_encode GetContactInputLinks = Ok []"
| "SceneContactRequest_encode (RecordScene name) = encode_fixed_string 64 name"
| "SceneContactRequest_encode (DeleteScene scene_id) = Ok [scene_id]"
| "SceneContactRequest_encode (GetSceneInformation scene_id) = Ok [scene_id]"
| "SceneContactRequest_encode (RemoveContactInputLink scene_id) = Ok [scene_id]"
| "SceneContactRequest_encode (RenameScene scene_id name) =
     (let payload = replicate 65 0;
          payload = payload[0 := scene_id]
      in and_then (encode_fixed_string 64 name) (\<lambda>field. Ok (write_bytes 1 field payload)))"
| "SceneContactRequest_encode (ActivateScene request) = Ok (encode_activate_scene request)"
| "SceneContactRequest_encode (StopScene request) = Ok (encode_stop_scene request)"
| "SceneContactRequest_encode (ActivateProductGroup request) = encode_activate_product_group request"
| "SceneContactRequest_encode (SetContactInputLink link) = encode_contact_input_link link"

fun ConfigurationRequest_encode :: "ConfigurationRequest \<Rightarrow> u8 list" where
  "ConfigurationRequest_encode (DiscoverNodes node_type) = [node_type]"
| "ConfigurationRequest_encode (ControllerCopy mode) = [mode]"
| "ConfigurationRequest_encode (RemoveNodes nodes) = encode_node_set nodes"
| "ConfigurationRequest_encode (ActivateConfiguration nodes) = encode_node_set nodes"
| "ConfigurationRequest_encode _ = []"

fun NodeGroupRequest_encode :: "NodeGroupRequest \<Rightarrow> u8 list result" where
  "NodeGroupRequest_encode (SetNodeVariation node_id variation) = Ok [node_id_get node_id, variation]"
| "NodeGroupRequest_encode (SetNodeName node_id name) =
     (let payload = replicate 65 0;
          payload = payload[0 := node_id_get node_id]
      in and_then (encode_fixed_string 64 name) (\<lambda>field. Ok (write_bytes 1 field payload)))"
| "NodeGroupRequest_encode (SetNodeOrderAndPlacement node_id order placement) =
     (let payload = replicate 4 0;
          payload = payload[0 := node_id_get node_id];
          payload = write_bytes 1 (u16_to_be_bytes order) payload;
          payload = payload[3 := placement]
      in Ok payload)"
| "NodeGroupRequest_encode (GetGroup group_id) = Ok [group_id_get group_id]"
| "NodeGroupRequest_encode (DeleteGroup group_id) = Ok [group_id_get group_id]"
| "NodeGroupRequest_encode (SetGroup info) = encode_group_information info"
| "NodeGroupRequest_encode (NewGroup info) = encode_new_group_information info"
| "NodeGroupRequest_encode (GetAllGroups use_filter group_type) = Ok [u8_from_bool use_filter, group_type]"

definition password_enter :: "string \<Rightarrow> Request result" where
  "password_enter password = and_then (encode_fixed_string 32 password) (\<lambda>_. Ok (PasswordEnter password))"

definition password_change :: "string \<Rightarrow> string \<Rightarrow> Request result" where
  "password_change current new =
     and_then (encode_fixed_string 32 current) (\<lambda>_.
     and_then (encode_fixed_string 32 new) (\<lambda>_. Ok (PasswordChange current new)))"

text \<open>The \<open>match\<close> of \<open>Request::encode\<close>, which computes the payload.\<close>

fun Request_payload :: "Request \<Rightarrow> u8 list result" where
  "Request_payload (SetNetworkSetup setup) = Ok (encode_network_setup setup)"
| "Request_payload (SetUtc timestamp) = Ok (u32_to_be_bytes (unix_seconds timestamp))"
| "Request_payload (SetTimeZone time_zone) = encode_fixed_string 64 time_zone"
| "Request_payload (Configuration request) = Ok (ConfigurationRequest_encode request)"
| "Request_payload (NodeGroup request) = NodeGroupRequest_encode request"
| "Request_payload (CommandExtension request) = CommandExtensionRequest_encode request"
| "Request_payload (SceneContact request) = SceneContactRequest_encode request"
| "Request_payload (ActivationLog request) = Ok (ActivationLogRequest_encode request)"
| "Request_payload (GetNodeInformation node_id) = Ok [node_id_get node_id]"
| "Request_payload (PasswordEnter password) = encode_fixed_string 32 password"
| "Request_payload (PasswordChange current new) =
     (let payload = replicate 64 0
      in and_then (encode_fixed_string 32 current) (\<lambda>field.
         let payload = write_bytes 0 field payload
         in and_then (encode_fixed_string 32 new) (\<lambda>field. Ok (write_bytes 32 field payload))))"
| "Request_payload (CommandSend command target) = Ok (encode_command_send command target)"
| "Request_payload (StatusRequest session_id target status_type) =
     Ok (encode_status_request session_id target status_type)"
| "Request_payload (Raw command payload) =
     (if known command \<noteq> None \<and> kind command \<noteq> RequestKind
      then Err (UnsupportedRequest command) else Ok payload)"
| "Request_payload _ = Ok []"

definition Request_encode :: "Request \<Rightarrow> Frame result" where
  "Request_encode request =
     (let command_id = Request_command_id request
      in and_then (Request_payload request) (\<lambda>payload. Ok (Frame_new command_id payload)))"

section \<open>Well-formed requests\<close>

text \<open>What the Rust types guarantee of a request: array lengths and the invariants of its fields.\<close>

definition target_valid :: "CommandTarget \<Rightarrow> bool" where
  "target_valid t \<longleftrightarrow> target_nodes t \<noteq> [] \<and> length (target_nodes t) \<le> 20 \<and> distinct (target_nodes t)"

fun request_wf :: "Request \<Rightarrow> bool" where
  "request_wf (SetNetworkSetup setup) \<longleftrightarrow> network_setup_wf setup"
| "request_wf (Configuration (RemoveNodes nodes)) \<longleftrightarrow> node_set_wf nodes"
| "request_wf (Configuration (ActivateConfiguration nodes)) \<longleftrightarrow> node_set_wf nodes"
| "request_wf (NodeGroup (SetGroup info)) \<longleftrightarrow> actuators_wf (gi_actuators info)"
| "request_wf (NodeGroup (NewGroup info)) \<longleftrightarrow> actuators_wf (ng_actuators info)"
| "request_wf (CommandExtension (Wink r)) \<longleftrightarrow> target_valid (wk_target r)"
| "request_wf (CommandExtension (SetLimitation r)) \<longleftrightarrow> target_valid (sl_target r)"
| "request_wf (CommandExtension (GetLimitationStatus r)) \<longleftrightarrow> target_valid (gl_target r)"
| "request_wf (CommandExtension (Mode r)) \<longleftrightarrow>
     target_valid (mr_target r) \<and> length (mr_priority_level_settings r) = 8"
| "request_wf (SceneContact (ActivateProductGroup r)) \<longleftrightarrow> length (pg_priority_level_settings r) = 8"
| "request_wf (SceneContact (SetContactInputLink l)) \<longleftrightarrow> length (ci_priority_level_settings l) = 5"
| "request_wf (CommandSend _ target) \<longleftrightarrow> target_valid target"
| "request_wf (StatusRequest _ target _) \<longleftrightarrow> target_valid target"
| "request_wf _ \<longleftrightarrow> True"

definition typed :: "Request \<Rightarrow> bool" where
  "typed r \<longleftrightarrow> (\<forall>command payload. r \<noteq> Raw command payload)"

lemma distinct_iff_prefixes: "distinct xs \<longleftrightarrow> (\<forall>i<length xs. xs ! i \<notin> set (take i xs))"
  by (induction xs rule: rev_induct) (simp_all add: All_less_Suc nth_append conj_commute)

lemma CommandTarget_new_Ok_iff: "CommandTarget_new nodes = Ok t \<longleftrightarrow> t = CommandTarget nodes \<and> target_valid t"
proof -
  have "(\<exists>i \<in> {0..<length nodes}. nodes ! i \<in> set (take i nodes)) \<longleftrightarrow> \<not> distinct nodes"
    by (simp add: distinct_iff_prefixes Bex_def conj_commute)
  then show ?thesis
    by (auto simp: CommandTarget_new_def target_valid_def MAX_TARGETS_def)
qed

lemma CommandTarget_new_not_Panic [simp, no_panic]: "CommandTarget_new nodes \<noteq> Panic"
  by (simp add: CommandTarget_new_def)

section \<open>Targets in a payload\<close>

lemma write_nodes_eq:
  "length nodes \<le> length d \<Longrightarrow> write_nodes d nodes = map node_id_get nodes @ drop (length nodes) d"
  by (induction d nodes rule: write_nodes.induct) auto

lemma length_write_nodes [simp]: "length (write_nodes d nodes) = length d"
  by (induction d nodes rule: write_nodes.induct) auto

lemma length_put_target [simp]:
  "from \<le> to \<Longrightarrow> to \<le> length payload \<Longrightarrow> length (put_target i from to target payload) = length payload"
  by (simp add: put_target_def encode_target_def)

lemma count_byte: "length nodes \<le> 20 \<Longrightarrow> u8_try_from (length nodes) = Some (of_nat (length nodes))"
  by (simp add: u8_try_from_def)

section \<open>Payload lengths\<close>

text \<open>The payload length the protocol documents for each request.\<close>

definition request_lengths :: "(CommandId \<times> nat) list" where
  "request_lengths =
     [(GW_REBOOT_REQ, 0), (GW_SET_FACTORY_DEFAULT_REQ, 0), (GW_GET_VERSION_REQ, 0),
      (GW_GET_PROTOCOL_VERSION_REQ, 0), (GW_GET_STATE_REQ, 0), (GW_LEAVE_LEARN_STATE_REQ, 0),
      (GW_GET_NETWORK_SETUP_REQ, 0), (GW_SET_NETWORK_SETUP_REQ, 13), (GW_SET_UTC_REQ, 4),
      (GW_RTC_SET_TIME_ZONE_REQ, 64), (GW_GET_LOCAL_TIME_REQ, 0),
      (GW_CS_GET_SYSTEMTABLE_DATA_REQ, 0), (GW_CS_DISCOVER_NODES_REQ, 1),
      (GW_CS_REMOVE_NODES_REQ, 26), (GW_CS_VIRGIN_STATE_REQ, 0), (GW_CS_CONTROLLER_COPY_REQ, 1),
      (GW_CS_RECEIVE_KEY_REQ, 0), (GW_CS_GENERATE_NEW_KEY_REQ, 0), (GW_CS_REPAIR_KEY_REQ, 0),
      (GW_CS_ACTIVATE_CONFIGURATION_MODE_REQ, 26), (GW_SET_NODE_VARIATION_REQ, 2),
      (GW_SET_NODE_NAME_REQ, 65), (GW_SET_NODE_ORDER_AND_PLACEMENT_REQ, 4),
      (GW_GET_GROUP_INFORMATION_REQ, 1), (GW_SET_GROUP_INFORMATION_REQ, 99),
      (GW_DELETE_GROUP_REQ, 1), (GW_NEW_GROUP_REQ, 96), (GW_GET_ALL_GROUPS_INFORMATION_REQ, 2),
      (GW_WINK_SEND_REQ, 27), (GW_SET_LIMITATION_REQ, 31), (GW_GET_LIMITATION_STATUS_REQ, 25),
      (GW_MODE_SEND_REQ, 31), (GW_INITIALIZE_SCENE_REQ, 0), (GW_INITIALIZE_SCENE_CANCEL_REQ, 0),
      (GW_RECORD_SCENE_REQ, 64), (GW_DELETE_SCENE_REQ, 1), (GW_RENAME_SCENE_REQ, 65),
      (GW_GET_SCENE_LIST_REQ, 0), (GW_GET_SCENE_INFOAMATION_REQ, 1), (GW_ACTIVATE_SCENE_REQ, 6),
      (GW_STOP_SCENE_REQ, 5), (GW_ACTIVATE_PRODUCTGROUP_REQ, 13),
      (GW_GET_CONTACT_INPUT_LINK_LIST_REQ, 0), (GW_SET_CONTACT_INPUT_LINK_REQ, 17),
      (GW_REMOVE_CONTACT_INPUT_LINK_REQ, 1), (GW_GET_ACTIVATION_LOG_HEADER_REQ, 0),
      (GW_CLEAR_ACTIVATION_LOG_REQ, 0), (GW_GET_ACTIVATION_LOG_LINE_REQ, 2),
      (GW_GET_MULTIPLE_ACTIVATION_LOG_LINES_REQ, 4), (GW_GET_ALL_NODES_INFORMATION_REQ, 0),
      (GW_HOUSE_STATUS_MONITOR_ENABLE_REQ, 0), (GW_HOUSE_STATUS_MONITOR_DISABLE_REQ, 0),
      (GW_GET_NODE_INFORMATION_REQ, 1), (GW_PASSWORD_ENTER_REQ, 32), (GW_PASSWORD_CHANGE_REQ, 64),
      (GW_COMMAND_SEND_REQ, 66), (GW_STATUS_REQUEST_REQ, 26)]"

lemmas wf_field_defs = network_setup_wf_def node_set_wf_def actuators_wf_def ACTUATOR_BYTES_def
  ACTUATOR_COUNT_def target_valid_def

lemma length_encoders:
  "network_setup_wf s \<Longrightarrow> length (encode_network_setup s) = 13"
  "node_set_wf n \<Longrightarrow> length (encode_node_set n) = 26"
  "length (encode_wink w) = 27"
  "length (encode_set_limitation sl) = 31"
  "length (encode_get_limitation_status gl) = 25"
  "length (encode_activate_scene sa) = 6"
  "length (encode_stop_scene ss) = 5"
  "target_valid t \<Longrightarrow> length (encode_command_send c t) = 66"
  "target_valid t \<Longrightarrow> length (encode_status_request i t ty) = 26"
  by (simp_all add: encode_network_setup_def encode_node_set_def encode_wink_def
      encode_set_limitation_def encode_get_limitation_status_def encode_activate_scene_def
      encode_stop_scene_def encode_command_send_def encode_status_request_def wf_field_defs
      count_byte Let_def)

lemma length_encode_group:
  "encode_group_information g = Ok p \<Longrightarrow> actuators_wf (gi_actuators g) \<Longrightarrow> length p = 99"
  "encode_new_group_information n = Ok p \<Longrightarrow> actuators_wf (ng_actuators n) \<Longrightarrow> length p = 96"
  by (auto simp: encode_group_information_def encode_new_group_information_def outcome_iffs Let_def
      wf_field_defs dest!: length_encode_fixed_string)

lemma length_encode_settings:
  "encode_mode m = Ok p \<Longrightarrow> length p = 31"
  "encode_activate_product_group g = Ok p \<Longrightarrow> length p = 13"
  "encode_contact_input_link l = Ok p \<Longrightarrow> length (ci_priority_level_settings l) = 5 \<Longrightarrow> length p = 17"
  by (auto simp: encode_mode_def encode_activate_product_group_def encode_contact_input_link_def
      outcome_iffs Let_def)

lemma length_extension_encode:
  assumes "request_wf (CommandExtension r)" "CommandExtensionRequest_encode r = Ok p"
  shows "map_of request_lengths (CommandExtensionRequest_command_id r) = Some (length p)"
  using assms by (cases r) (auto simp: request_lengths_def length_encoders length_encode_settings)

lemma length_scene_contact_encode:
  assumes "request_wf (SceneContact r)" "SceneContactRequest_encode r = Ok p"
  shows "map_of request_lengths (SceneContactRequest_command_id r) = Some (length p)"
  using assms
  by (cases r) (auto simp: request_lengths_def length_encoders length_encode_settings outcome_iffs
      dest!: length_encode_fixed_string)

lemma length_node_group_encode:
  assumes "request_wf (NodeGroup r)" "NodeGroupRequest_encode r = Ok p"
  shows "map_of request_lengths (NodeGroupRequest_command_id r) = Some (length p)"
  using assms
  by (cases r) (auto simp: request_lengths_def length_encode_group outcome_iffs
      dest!: length_encode_fixed_string)

lemma length_configuration_encode:
  assumes "request_wf (Configuration r)"
  shows "map_of request_lengths (ConfigurationRequest_command_id r) =
      Some (length (ConfigurationRequest_encode r))"
  using assms by (cases r) (auto simp: request_lengths_def length_encoders)

lemma length_activation_log_encode:
  "map_of request_lengths (ActivationLogRequest_command_id r) =
      Some (length (ActivationLogRequest_encode r))"
  by (cases r) (auto simp: request_lengths_def)

lemma Request_payload_length:
  assumes "typed r" "request_wf r" "Request_payload r = Ok p"
  shows "map_of request_lengths (Request_command_id r) = Some (length p)"
proof (cases r)
  case (CommandExtension x)
  then show ?thesis using assms length_extension_encode by simp
next
  case (SceneContact x)
  then show ?thesis using assms length_scene_contact_encode by simp
next
  case (NodeGroup x)
  then show ?thesis using assms length_node_group_encode by simp
next
  case (Configuration x)
  then show ?thesis using assms length_configuration_encode by simp
next
  case (ActivationLog x)
  then show ?thesis using assms length_activation_log_encode by simp
qed (use assms in \<open>auto simp: request_lengths_def length_encoders outcome_iffs typed_def
      dest!: length_encode_fixed_string\<close>)

lemma request_lengths_bound: "map_of request_lengths c = Some n \<Longrightarrow> n \<le> 99"
  by (drule map_of_SomeD) (auto simp: request_lengths_def)

lemma typed_requests: "fst ` set request_lengths = fst ` set confirmed_commands"
  by (rule subset_antisym; simp add: request_lengths_def confirmed_commands_def)

section \<open>Command identifiers of requests\<close>

lemma typed_command_id:
  assumes "typed r"
  shows "Request_command_id r \<in> fst ` set request_lengths"
proof (cases r)
  case (CommandExtension x)
  then show ?thesis by (cases x) (simp_all add: request_lengths_def)
next
  case (SceneContact x)
  then show ?thesis by (cases x) (simp_all add: request_lengths_def)
next
  case (NodeGroup x)
  then show ?thesis by (cases x) (simp_all add: request_lengths_def)
next
  case (Configuration x)
  then show ?thesis by (cases x) (simp_all add: request_lengths_def)
next
  case (ActivationLog x)
  then show ?thesis by (cases x) (simp_all add: request_lengths_def)
qed (use assms in \<open>simp_all add: request_lengths_def typed_def\<close>)

lemma typed_confirmed:
  assumes "typed r"
  shows "kind (Request_command_id r) = RequestKind"
    and "\<exists>c. expected_confirmation (Request_command_id r) = Some c \<and> kind c = ConfirmationKind"
proof -
  have mem: "Request_command_id r \<in> fst ` set confirmed_commands"
    using typed_command_id [OF assms] by (simp only: typed_requests)
  then show "kind (Request_command_id r) = RequestKind" by (simp add: kind_Request_iff)
  from mem obtain c where "map_of confirmed_commands (Request_command_id r) = Some c"
    by (cases "map_of confirmed_commands (Request_command_id r)") (auto simp: map_of_eq_None_iff)
  then show "\<exists>c. expected_confirmation (Request_command_id r) = Some c \<and> kind c = ConfirmationKind"
    by (auto simp: expected_confirmation_eq intro!: confirmation_known dest!: map_of_SomeD intro: rev_image_eqI)
qed

lemma Request_encode_Ok_iff:
  "Request_encode r = Ok f \<longleftrightarrow>
     (\<exists>p. Request_payload r = Ok p \<and> f = Frame_new (Request_command_id r) p)"
  by (auto simp: Request_encode_def outcome_iffs)

lemma Request_encode_raw:
  "Request_encode (Raw c p) =
     (if kind c = ConfirmationKind \<or> kind c = NotificationKind \<or> (known c \<noteq> None \<and> kind c = UnknownKind)
      then Err (UnsupportedRequest c) else Ok (Frame_new c p))"
  by (cases "kind c") (auto simp: Request_encode_def kind_def split: option.splits)

section \<open>Encoding never panics\<close>

lemma encode_settings_not_Panic [no_panic]:
  "encode_mode m \<noteq> Panic" "encode_activate_product_group g \<noteq> Panic" "encode_contact_input_link l \<noteq> Panic"
  by (simp_all add: encode_mode_def encode_activate_product_group_def encode_contact_input_link_def
      validate_priority_settings_def Let_def and_then_eq_Panic_iff)

lemma encode_group_not_Panic [no_panic]:
  "encode_group_information g \<noteq> Panic" "encode_new_group_information n \<noteq> Panic"
  by (simp_all add: encode_group_information_def encode_new_group_information_def Let_def
      and_then_eq_Panic_iff)

lemma Request_encode_not_Panic: "Request_encode r \<noteq> Panic"
proof -
  have "Request_payload r \<noteq> Panic"
  proof (cases r)
    case (CommandExtension x)
    then show ?thesis by (cases x) (simp_all add: no_panic)
  next
    case (SceneContact x)
    then show ?thesis by (cases x) (simp_all add: no_panic Let_def and_then_eq_Panic_iff)
  next
    case (NodeGroup x)
    then show ?thesis by (cases x) (simp_all add: no_panic Let_def and_then_eq_Panic_iff)
  qed (simp_all add: Let_def and_then_eq_Panic_iff)
  then show ?thesis by (simp add: Request_encode_def and_then_eq_Panic_iff)
qed

section \<open>What a payload carries\<close>

lemma slice_put_target [wire_simps]:
  "k + n \<le> i \<or> i < k \<Longrightarrow> k + n \<le> from \<or> to \<le> k \<Longrightarrow> from \<le> to \<Longrightarrow> to \<le> length p \<Longrightarrow>
     take n (drop k (put_target i from to t p)) = take n (drop k p)"
  by (auto simp: put_target_def encode_target_def wire_simps)

lemmas take_put_target [wire_simps] = slice_put_target [where k = 0, simplified]

lemmas encoder_defs = encode_wink_def encode_set_limitation_def encode_get_limitation_status_def
  encode_mode_def encode_activate_scene_def encode_stop_scene_def encode_activate_product_group_def
  encode_command_send_def encode_status_request_def

text \<open>A request that belongs to a session carries its identifier in its first two bytes.\<close>

lemma extension_session_bytes:
  assumes "CommandExtensionRequest_encode r = Ok p"
  shows "take 2 p = u16_to_be_bytes (session_id_get (CommandExtensionRequest_session_id r))"
  using assms by (cases r) (auto simp: encoder_defs outcome_iffs Let_def wire_simps)

lemma scene_session_bytes:
  assumes "SceneContactRequest_encode r = Ok p" "SceneContactRequest_session_id r = Some s"
  shows "take 2 p = u16_to_be_bytes (session_id_get s)"
  using assms by (cases r) (auto simp: encoder_defs outcome_iffs Let_def wire_simps)

lemma Request_session_bytes:
  assumes "request_wf r" "Request_payload r = Ok p" "Request_session_id r = Some s"
  shows "take 2 p = u16_to_be_bytes (session_id_get s)"
  using assms
  by (cases r) (auto simp: extension_session_bytes scene_session_bytes encoder_defs Let_def wire_simps
      target_valid_def count_byte)

text \<open>
  Where a request has targets, a count byte is followed by twenty slots: the nodes in their order,
  then zeros.
\<close>

fun request_target :: "Request \<Rightarrow> (nat \<times> CommandTarget) option" where
  "request_target (CommandExtension (Wink r)) = Some (6, wk_target r)"
| "request_target (CommandExtension (SetLimitation r)) = Some (4, sl_target r)"
| "request_target (CommandExtension (GetLimitationStatus r)) = Some (2, gl_target r)"
| "request_target (CommandExtension (Mode r)) = Some (6, mr_target r)"
| "request_target (CommandSend _ target) = Some (41, target)"
| "request_target (StatusRequest _ target _) = Some (2, target)"
| "request_target _ = None"

definition target_field :: "NodeId list \<Rightarrow> u8 list" where
  "target_field nodes =
     of_nat (length nodes) # map node_id_get nodes @ replicate (20 - length nodes) 0"

lemma read_target_field:
  assumes "length nodes \<le> 20"
  shows "target_field nodes = count # slots \<Longrightarrow> take (unat count) slots = map node_id_get nodes"
proof -
  assume "target_field nodes = count # slots"
  moreover have "unat (of_nat (length nodes) :: u8) = length nodes"
    using assms by (simp add: unat_of_nat)
  ultimately show ?thesis by (auto simp: target_field_def)
qed

lemma write_nodes_replicate:
  "length nodes \<le> 20 \<Longrightarrow>
     write_nodes (replicate 20 0) nodes = map node_id_get nodes @ replicate (20 - length nodes) 0"
  by (simp add: write_nodes_eq)

lemma take_Suc_drop: "k < length p \<Longrightarrow> take (Suc n) (drop k p) = p ! k # take n (drop (Suc k) p)"
  by (simp add: Cons_nth_drop_Suc [symmetric])

lemma put_target_field:
  assumes "length (target_nodes t) \<le> 20" "k + 21 \<le> length p" "take 20 (drop (Suc k) p) = replicate 20 0"
  shows "take 21 (drop k (put_target k (Suc k) (k + 21) t p)) = target_field (target_nodes t)"
proof -
  have "take (Suc 20) (drop k (put_target k (Suc k) (k + 21) t p)) = target_field (target_nodes t)"
    using assms by (subst take_Suc_drop)
      (simp_all add: put_target_def encode_target_def count_byte wire_simps write_nodes_replicate
        target_field_def)
  then show ?thesis by simp
qed

lemma slice_replicate [wire_simps]: "k + n \<le> m \<Longrightarrow> take n (drop k (replicate m x)) = replicate n x"
  by simp

lemmas put_target_at [wire_simps] =
  put_target_field [of _ 6, simplified] put_target_field [of _ 4, simplified]
  put_target_field [of _ 2, simplified]

lemma extension_target_bytes:
  assumes "request_wf (CommandExtension r)" "CommandExtensionRequest_encode r = Ok p"
    "request_target (CommandExtension r) = Some (k, t)"
  shows "take 21 (drop k p) = target_field (target_nodes t)"
  using assms
  by (cases r) (auto simp: encoder_defs outcome_iffs Let_def wire_simps target_valid_def
      simp del: take_all take_all_iff)

lemma count_and_slots [wire_simps]:
  assumes "k + 21 \<le> length p" "length slots = 20"
  shows "take 21 (drop k (write_bytes (Suc k) slots (p[k := count]))) = count # slots"
proof -
  have "take (Suc 20) (drop k (write_bytes (Suc k) slots (p[k := count]))) = count # slots"
    using assms by (subst take_Suc_drop) (simp_all add: nth_write_bytes wire_simps)
  then show ?thesis by simp
qed

lemmas count_and_slots_at = count_and_slots [of 41, simplified] count_and_slots [of 2, simplified]

lemma command_send_target_bytes:
  "target_valid t \<Longrightarrow> take 21 (drop 41 (encode_command_send c t)) = target_field (target_nodes t)"
  by (simp add: encode_command_send_def target_valid_def count_byte Let_def wire_simps
      count_and_slots_at write_nodes_replicate target_field_def)

lemma status_request_target_bytes:
  "target_valid t \<Longrightarrow> take 21 (drop 2 (encode_status_request s t ty)) = target_field (target_nodes t)"
  by (simp add: encode_status_request_def target_valid_def count_byte Let_def wire_simps
      count_and_slots_at write_nodes_replicate target_field_def)

lemma Request_target_bytes:
  assumes "request_wf r" "Request_payload r = Ok p" "request_target r = Some (k, t)"
  shows "take 21 (drop k p) = target_field (target_nodes t)"
  using assms
  by (cases r) (auto simp: extension_target_bytes command_send_target_bytes status_request_target_bytes)

section \<open>Two-bit settings\<close>

text \<open>Four settings of two bits each share a byte, the first one in the high bits.\<close>

definition unpack_two_bit_settings :: "u8 \<Rightarrow> u8 list" where
  "unpack_two_bit_settings b = [drop_bit 6 b AND 3, drop_bit 4 b AND 3, drop_bit 2 b AND 3, b AND 3]"

lemma take_bit_2_le_3: "x \<le> (3 :: u8) \<Longrightarrow> take_bit 2 x = x"
  by (simp add: word_unat_eq_iff unsigned_take_bit_eq take_bit_nat_eq_self word_le_nat_alt)

lemma unpack_pack_bits:
  "unpack_two_bit_settings (pack_two_bit_settings [take_bit 2 a, take_bit 2 b, take_bit 2 c, take_bit 2 d])
     = [take_bit 2 a, take_bit 2 b, take_bit 2 c, take_bit 2 d]"
proof -
  have three: "(3 :: u8) = mask 2" by (simp add: mask_eq_exp_minus_1)
  show ?thesis unfolding unpack_two_bit_settings_def pack_two_bit_settings_def three
    by (auto intro!: bit_word_eqI simp: bit_simps)
qed

lemma unpack_pack:
  assumes "length settings = 4" "\<forall>x \<in> set settings. x \<le> 3"
  shows "unpack_two_bit_settings (pack_two_bit_settings settings) = settings"
proof -
  obtain a b c d where s: "settings = [a, b, c, d]"
    using assms(1) by (auto simp: numeral_eq_Suc length_Suc_conv)
  then show ?thesis
    using assms(2) unpack_pack_bits [of a b c d] by (simp add: take_bit_2_le_3)
qed

lemma validate_priority_settings_Ok_iff:
  "validate_priority_settings xs = Ok u \<longleftrightarrow> (\<forall>x \<in> set xs. x \<le> 3)"
  by (auto simp: validate_priority_settings_def linorder_not_less [symmetric])

section \<open>Properties\<close>

text \<open>
  C20. Every typed request that can be encoded becomes a frame that can be sent: its payload has the
  length the protocol documents for its command, the frame encoder accepts it, and decoding the bytes
  gives the frame back.
\<close>

theorem typed_request_becomes_frame:
  assumes "typed r" "request_wf r" "Request_encode r = Ok f"
  shows "frame_command f = Request_command_id r
     \<and> map_of request_lengths (Request_command_id r) = Some (length (frame_payload f))
     \<and> (\<exists>bs. Frame_encode f = Ok bs \<and> Frame_decode bs = Ok f)"
proof -
  obtain p where p: "Request_payload r = Ok p" and f: "f = Frame_new (Request_command_id r) p"
    using assms(3) by (auto simp: Request_encode_Ok_iff)
  note len = Request_payload_length [OF assms(1,2) p]
  have "Frame_encode f = Ok (frame_bytes f)"
    using request_lengths_bound [OF len] by (simp add: Frame_encode_Ok_iff f Frame_new_def KLF_PROTOCOL_ID_def)
  then show ?thesis using len Frame_decode_encode by (auto simp: f Frame_new_def)
qed

theorem typed_request_becomes_frame_witness:
  "frame_command (Frame_new GW_GET_NODE_INFORMATION_REQ [7]) = Request_command_id (GetNodeInformation (NodeId 7))
     \<and> map_of request_lengths (Request_command_id (GetNodeInformation (NodeId 7)))
         = Some (length (frame_payload (Frame_new GW_GET_NODE_INFORMATION_REQ [7])))
     \<and> (\<exists>bs. Frame_encode (Frame_new GW_GET_NODE_INFORMATION_REQ [7]) = Ok bs
           \<and> Frame_decode bs = Ok (Frame_new GW_GET_NODE_INFORMATION_REQ [7]))"
  by (rule typed_request_becomes_frame) (simp_all add: typed_def Request_encode_def)

text \<open>
  Every typed request is a request of the protocol and has a confirmation to wait for; a raw
  request is refused when its command is a confirmation or a notification.
\<close>

theorem typed_requests_are_confirmed:
  "(case r of
      Raw c p \<Rightarrow> Request_encode r =
        (if kind c = ConfirmationKind \<or> kind c = NotificationKind then Err (UnsupportedRequest c)
         else Ok (Frame_new c p))
    | _ \<Rightarrow> kind (Request_command_id r) = RequestKind
        \<and> (\<exists>c. expected_confirmation (Request_command_id r) = Some c \<and> kind c = ConfirmationKind))"
proof (cases "typed r")
  case True
  then show ?thesis using typed_confirmed [OF True] by (cases r) (simp_all add: typed_def)
next
  case False
  then show ?thesis using kind_Unknown_iff by (auto simp: typed_def Request_encode_raw)
qed

text \<open>
  A request of a session carries the identifier in its first two bytes, big-endian; a request to
  nodes carries their number and then the nodes in order, padded with zeros to twenty slots.
\<close>

theorem payload_carries_session_and_targets:
  assumes "request_wf r" "Request_payload r = Ok p"
    "Request_session_id r = Some s" "request_target r = Some (k, t)"
  shows "take 2 p = u16_to_be_bytes (session_id_get s)
     \<and> take 21 (drop k p) = of_nat (length (target_nodes t)) # map node_id_get (target_nodes t)
         @ replicate (20 - length (target_nodes t)) 0"
  using Request_session_bytes [OF assms(1-3)] Request_target_bytes [OF assms(1,2,4)]
  by (simp add: target_field_def)

theorem payload_carries_session_and_targets_witness:
  "\<exists>p. take 2 p = u16_to_be_bytes (session_id_get (SessionId 258))
     \<and> take 21 (drop 41 p) = of_nat (length (target_nodes (CommandTarget [NodeId 4, NodeId 1])))
         # map node_id_get (target_nodes (CommandTarget [NodeId 4, NodeId 1]))
         @ replicate (20 - length (target_nodes (CommandTarget [NodeId 4, NodeId 1]))) 0"
  using payload_carries_session_and_targets
    [of "CommandSend \<lparr>cr_session_id = SessionId 258, cr_main_parameter = Target\<rparr>
           (CommandTarget [NodeId 4, NodeId 1])"
        "encode_command_send \<lparr>cr_session_id = SessionId 258, cr_main_parameter = Target\<rparr>
           (CommandTarget [NodeId 4, NodeId 1])"
        "SessionId 258" 41 "CommandTarget [NodeId 4, NodeId 1]"]
  by (auto simp: target_valid_def)

text \<open>
  A target list is accepted exactly when it has between one and twenty nodes and no node twice.
\<close>

theorem target_list_accepted_iff:
  "CommandTarget_new nodes = Ok t \<longleftrightarrow>
     t = CommandTarget nodes \<and> nodes \<noteq> [] \<and> length nodes \<le> 20 \<and> distinct nodes"
  by (auto simp: CommandTarget_new_Ok_iff target_valid_def)

end
