(* ===== verification/Response.thy ===== *)
theory Response
  imports Response_Data Command
begin

text \<open>
  Decoding of received frames (\<open>src/klf200/response.rs\<close>). Every index and slice of the source is a
  checked access, so that an access out of range would be a panic of the model; the fields of a
  structure are read in the order of the source.
\<close>

section \<open>Reading a payload\<close>

definition require :: "u8 list \<Rightarrow> nat \<Rightarrow> CommandId \<Rightarrow> unit result" where
  "require payload expected command =
     (if length payload < expected
      then Err (TruncatedPayload command expected (length payload)) else Ok ())"

definition require_exact :: "u8 list \<Rightarrow> nat \<Rightarrow> CommandId \<Rightarrow> unit result" where
  "require_exact payload expected command =
     (if length payload < expected then Err (TruncatedPayload command expected (length payload))
      else if length payload = expected then Ok ()
      else Err (InvalidPayloadLength command expected (length payload)))"

definition read_u16 :: "u8 list \<Rightarrow> nat \<Rightarrow> u16 result" where
  "read_u16 payload offset =
     and_then (byte_at payload offset) (\<lambda>b0.
     and_then (byte_at payload (offset + 1)) (\<lambda>b1.
     Ok (u16_from_be_bytes b0 b1)))"

definition read_u32 :: "u8 list \<Rightarrow> nat \<Rightarrow> u32 result" where
  "read_u32 payload offset =
     and_then (byte_at payload offset) (\<lambda>b0.
     and_then (byte_at payload (offset + 1)) (\<lambda>b1.
     and_then (byte_at payload (offset + 2)) (\<lambda>b2.
     and_then (byte_at payload (offset + 3)) (\<lambda>b3.
     Ok (u32_from_be_bytes b0 b1 b2 b3)))))"

definition session_id_at :: "u8 list \<Rightarrow> nat \<Rightarrow> CommandId \<Rightarrow> SessionId result" where
  "session_id_at payload offset command =
     and_then (require payload (offset + 2) command) (\<lambda>_.
     and_then (read_u16 payload offset) (\<lambda>value.
     (case SessionId_new value of
        Some session_id \<Rightarrow> Ok session_id
      | None \<Rightarrow> Err (InvalidRequest ''session ID zero is reserved''))))"

definition session_id :: "u8 list \<Rightarrow> CommandId \<Rightarrow> SessionId result" where
  "session_id payload command =
     and_then (require payload 2 command) (\<lambda>_. session_id_at payload 0 command)"

text \<open>\<open>StandardParameter::from_raw(read_u16(payload, offset))\<close>, and an array literal of bytes.\<close>

definition read_parameter :: "u8 list \<Rightarrow> nat \<Rightarrow> StandardParameter result" where
  "read_parameter payload offset =
     and_then (read_u16 payload offset) (\<lambda>value. Ok (StandardParameter_from_raw value))"

definition read_array :: "u8 list \<Rightarrow> nat list \<Rightarrow> u8 list result" where
  "read_array payload indices = collect_ok (byte_at payload) indices"

section \<open>Structures\<close>

definition decode_node_set :: "u8 list \<Rightarrow> nat \<Rightarrow> NodeSet result" where
  "decode_node_set payload offset =
     and_then (byte_slice payload offset (offset + 25)) (\<lambda>actuators.
     and_then (byte_at payload (offset + 25)) (\<lambda>beacons.
     Ok (NodeSet_new (ActuatorSet_from_bytes actuators) (BeaconSet_from_byte beacons))))"

definition decode_version :: "u8 list \<Rightarrow> CommandId \<Rightarrow> Version result" where
  "decode_version payload command =
     and_then (require_exact payload 9 command) (\<lambda>_.
     and_then (byte_slice payload 0 6) (\<lambda>software.
     and_then (byte_at payload 6) (\<lambda>hardware.
     and_then (byte_at payload 7) (\<lambda>product_group.
     and_then (byte_at payload 8) (\<lambda>product_type.
     Ok \<lparr>v_software = software, v_hardware = hardware, v_product_group = product_group,
       v_product_type = product_type\<rparr>)))))"

definition decode_group_information :: "u8 list \<Rightarrow> CommandId \<Rightarrow> GroupInformation result" where
  "decode_group_information payload command =
     and_then (require_exact payload 99 command) (\<lambda>_.
     and_then (byte_slice payload 72 97) (\<lambda>actuator_bytes.
     and_then (byte_at payload 0) (\<lambda>group_id.
     and_then (read_u16 payload 1) (\<lambda>order.
     and_then (byte_at payload 3) (\<lambda>placement.
     and_then (byte_slice payload 4 68) (\<lambda>name_field.
     and_then (decode_fixed_string name_field) (\<lambda>name.
     and_then (byte_at payload 68) (\<lambda>velocity.
     and_then (byte_at payload 69) (\<lambda>node_variation.
     and_then (byte_at payload 70) (\<lambda>group_type.
     and_then (byte_at payload 71) (\<lambda>object_count.
     and_then (read_u16 payload 97) (\<lambda>revision.
     Ok \<lparr>gi_group_id = GroupId group_id, gi_order = order, gi_placement = placement,
       gi_name = name, gi_velocity = velocity, gi_node_variation = node_variation,
       gi_group_type = group_type, gi_object_count = object_count,
       gi_actuators = ActuatorSet_from_bytes actuator_bytes, gi_revision = revision\<rparr>))))))))))))"

text \<open>One of the up to five aliases of a node.\<close>

definition decode_alias :: "u8 list \<Rightarrow> nat \<Rightarrow> Alias result" where
  "decode_alias payload index =
     (let offset = 104 + index * 4 in
     and_then (read_u16 payload offset) (\<lambda>kind.
     and_then (read_u16 payload (offset + 2)) (\<lambda>value.
     Ok \<lparr>alias_kind = kind, alias_value = value\<rparr>)))"

definition decode_node_information :: "u8 list \<Rightarrow> CommandId \<Rightarrow> NodeInformation result" where
  "decode_node_information payload command =
     and_then (require_exact payload 124 command) (\<lambda>_.
     and_then (byte_at payload 103) (\<lambda>alias_byte.
     let alias_count = unat alias_byte
     in if alias_count > 5
        then Err (InvalidRequest ''node information contains more than five aliases'')
        else
     and_then (byte_slice payload 76 84) (\<lambda>serial_number.
     and_then (collect_ok (decode_alias payload) [0..<alias_count]) (\<lambda>aliases.
     and_then (byte_at payload 0) (\<lambda>node_id.
     and_then (read_u16 payload 1) (\<lambda>order.
     and_then (byte_at payload 3) (\<lambda>placement.
     and_then (byte_slice payload 4 68) (\<lambda>name_field.
     and_then (decode_fixed_string name_field) (\<lambda>name.
     and_then (byte_at payload 68) (\<lambda>velocity.
     and_then (read_u16 payload 69) (\<lambda>node_type_sub_type.
     and_then (byte_at payload 71) (\<lambda>product_group.
     and_then (byte_at payload 72) (\<lambda>product_type.
     and_then (byte_at payload 73) (\<lambda>variation.
     and_then (byte_at payload 74) (\<lambda>power_mode.
     and_then (byte_at payload 75) (\<lambda>build_number.
     and_then (byte_at payload 84) (\<lambda>operating_state.
     and_then (read_parameter payload 85) (\<lambda>current_position.
     and_then (read_parameter payload 87) (\<lambda>target_position.
     and_then (collect_ok (read_parameter payload) [89, 91, 93, 95]) (\<lambda>functional_positions.
     and_then (read_u16 payload 97) (\<lambda>remaining_time.
     and_then (read_u32 payload 99) (\<lambda>timestamp.
     Ok \<lparr>ni_node_id = NodeId node_id, ni_order = order, ni_placement = placement,
       ni_name = name, ni_velocity = velocity, ni_node_type_sub_type = node_type_sub_type,
       ni_product_group = product_group, ni_product_type = product_type,
       ni_variation = variation, ni_power_mode = power_mode, ni_build_number = build_number,
       ni_serial_number = serial_number,
       ni_operating_state = OperatingState_from operating_state,
       ni_current_position = current_position, ni_target_position = target_position,
       ni_functional_positions = functional_positions, ni_remaining_time = remaining_time,
       ni_timestamp = ProtocolTimestamp timestamp, ni_aliases = aliases\<rparr>))))))))))))))))))))))"

definition decode_node_state :: "u8 list \<Rightarrow> CommandId \<Rightarrow> NodeStatePosition result" where
  "decode_node_state payload command =
     and_then (require_exact payload 20 command) (\<lambda>_.
     and_then (byte_at payload 0) (\<lambda>node_id.
     and_then (byte_at payload 1) (\<lambda>operating_state.
     and_then (read_parameter payload 2) (\<lambda>current_position.
     and_then (read_parameter payload 4) (\<lambda>target_position.
     and_then (collect_ok (read_parameter payload) [6, 8, 10, 12]) (\<lambda>functional_positions.
     and_then (read_u16 payload 14) (\<lambda>remaining_time.
     and_then (read_u32 payload 16) (\<lambda>timestamp.
     Ok \<lparr>np_node_id = NodeId node_id, np_operating_state = OperatingState_from operating_state,
       np_current_position = current_position, np_target_position = target_position,
       np_functional_positions = functional_positions, np_remaining_time = remaining_time,
       np_timestamp = ProtocolTimestamp timestamp\<rparr>))))))))"

definition decode_command_run_status :: "u8 list \<Rightarrow> CommandId \<Rightarrow> CommandRunStatus result" where
  "decode_command_run_status payload command =
     and_then (require_exact payload 13 command) (\<lambda>_.
     and_then (session_id payload command) (\<lambda>session_id.
     and_then (byte_at payload 2) (\<lambda>status_id.
     and_then (byte_at payload 3) (\<lambda>node_id.
     and_then (byte_at payload 4) (\<lambda>node_parameter.
     and_then (read_parameter payload 5) (\<lambda>parameter_value.
     and_then (byte_at payload 7) (\<lambda>run_status.
     and_then (byte_at payload 8) (\<lambda>status_reply.
     and_then (read_u32 payload 9) (\<lambda>information_code.
     Ok \<lparr>rs_session_id = session_id, rs_status_id = status_id, rs_node_id = NodeId node_id,
       rs_node_parameter = node_parameter, rs_parameter_value = parameter_value,
       rs_run_status = RunStatus_from run_status, rs_status_reply = status_reply,
       rs_information_code = information_code\<rparr>)))))))))"

definition decode_parameter_status :: "u8 list \<Rightarrow> nat \<Rightarrow> ParameterStatus result" where
  "decode_parameter_status payload index =
     (let offset = 8 + index * 3 in
     and_then (byte_at payload offset) (\<lambda>node_parameter.
     and_then (read_u16 payload (offset + 1)) (\<lambda>value.
     Ok \<lparr>ps_node_parameter = node_parameter, ps_value = value\<rparr>)))"

text \<open>The match on the status type, which gives the detail of a status notification.\<close>

definition decode_status_detail :: "u8 list \<Rightarrow> CommandId \<Rightarrow> u8 \<Rightarrow> StatusNotificationDetail result" where
  "decode_status_detail payload command status_type =
     (if status_type \<le> 2 then
        and_then (require payload 8 command) (\<lambda>_.
        and_then (byte_at payload 7) (\<lambda>count_byte.
        let count = unat count_byte in
        and_then (require_exact payload (8 + count * 3) command) (\<lambda>_.
        and_then (collect_ok (decode_parameter_status payload) [0..<count]) (\<lambda>values.
        Ok (Parameters values)))))
      else if status_type = 3 then
        and_then (require_exact payload 18 command) (\<lambda>_.
        and_then (read_parameter payload 7) (\<lambda>target_position.
        and_then (read_parameter payload 9) (\<lambda>current_position.
        and_then (read_u16 payload 11) (\<lambda>remaining_time.
        and_then (read_u32 payload 13) (\<lambda>last_master_execution_address.
        and_then (byte_at payload 17) (\<lambda>last_command_originator.
        Ok (MainDetail target_position current_position remaining_time
              last_master_execution_address last_command_originator)))))))
      else
        and_then (byte_slice payload 7 (length payload)) (\<lambda>rest.
        Ok (UnknownDetail status_type rest)))"

definition decode_status_notification :: "u8 list \<Rightarrow> CommandId \<Rightarrow> StatusNotification result" where
  "decode_status_notification payload command =
     and_then (require payload 7 command) (\<lambda>_.
     and_then (byte_at payload 6) (\<lambda>status_type.
     and_then (decode_status_detail payload command status_type) (\<lambda>detail.
     and_then (session_id payload command) (\<lambda>session_id.
     and_then (byte_at payload 2) (\<lambda>status_id.
     and_then (byte_at payload 3) (\<lambda>node_id.
     and_then (byte_at payload 4) (\<lambda>run_status.
     and_then (byte_at payload 5) (\<lambda>status_reply.
     Ok \<lparr>st_session_id = session_id, st_status_id = status_id, st_node_id = NodeId node_id,
       st_run_status = RunStatus_from run_status, st_status_reply = status_reply,
       st_detail = detail\<rparr>))))))))"

definition decode_contact_input_link :: "u8 list \<Rightarrow> nat \<Rightarrow> ContactInputLink result" where
  "decode_contact_input_link payload offset =
     and_then (byte_at payload offset) (\<lambda>contact_input_id.
     and_then (byte_at payload (offset + 1)) (\<lambda>assignment.
     and_then (byte_at payload (offset + 2)) (\<lambda>action_id.
     and_then (byte_at payload (offset + 3)) (\<lambda>command_originator.
     and_then (byte_at payload (offset + 4)) (\<lambda>priority_level.
     and_then (byte_at payload (offset + 5)) (\<lambda>parameter_id.
     and_then (read_parameter payload (offset + 6)) (\<lambda>position.
     and_then (byte_at payload (offset + 8)) (\<lambda>velocity.
     and_then (byte_at payload (offset + 9)) (\<lambda>lock_priority_level.
     and_then (read_array payload [(offset + 10), (offset + 11), (offset + 12), (offset + 13), (offset + 14)]) (\<lambda>priority_level_settings.
     and_then (byte_at payload (offset + 15)) (\<lambda>success_output_id.
     and_then (byte_at payload (offset + 16)) (\<lambda>error_output_id.
     Ok \<lparr>ci_contact_input_id = contact_input_id, ci_assignment = assignment,
       ci_action_id = action_id, ci_command_originator = command_originator,
       ci_priority_level = priority_level, ci_parameter_id = parameter_id,
       ci_position = position, ci_velocity = velocity,
       ci_lock_priority_level = lock_priority_level,
       ci_priority_level_settings = priority_level_settings,
       ci_success_output_id = success_output_id, ci_error_output_id = error_output_id\<rparr>))))))))))))"

definition decode_contact_input_links :: "u8 list \<Rightarrow> CommandId \<Rightarrow> Response result" where
  "decode_contact_input_links payload command =
     and_then (require payload 1 command) (\<lambda>_.
     and_then (byte_at payload 0) (\<lambda>count_byte.
     let count = unat count_byte
     in if count > 10 then Err (InvalidRequest ''contact-input list contains more than ten links'')
        else
          let expected = 1 + count * 17 in
          and_then (require_exact payload expected command) (\<lambda>_.
          and_then (collect_ok (\<lambda>index. decode_contact_input_link payload (1 + index * 17)) [0..<count]) (\<lambda>links.
          Ok (ContactInputLinks links)))))"

definition decode_scene_summary :: "u8 list \<Rightarrow> nat \<Rightarrow> SceneSummary result" where
  "decode_scene_summary payload index =
     (let offset = 1 + index * 65 in
     and_then (byte_at payload offset) (\<lambda>scene_id.
     and_then (byte_slice payload (offset + 1) (offset + 65)) (\<lambda>name_field.
     and_then (decode_fixed_string name_field) (\<lambda>name.
     Ok \<lparr>sum_scene_id = scene_id, sum_name = name\<rparr>))))"

definition decode_scene_list :: "u8 list \<Rightarrow> CommandId \<Rightarrow> Response result" where
  "decode_scene_list payload command =
     and_then (require payload 2 command) (\<lambda>_.
     and_then (byte_at payload 0) (\<lambda>count_byte.
     let count = unat count_byte
     in if count > 3
        then Err (InvalidRequest ''scene-list notification contains more than three scenes'')
        else
          let expected = 2 + count * 65 in
          and_then (require_exact payload expected command) (\<lambda>_.
          and_then (collect_ok (decode_scene_summary payload) [0..<count]) (\<lambda>scenes.
          and_then (byte_at payload (expected - 1)) (\<lambda>remaining_scenes.
          Ok (SceneList \<lparr>slst_scenes = scenes, slst_remaining_scenes = remaining_scenes\<rparr>))))))"

definition decode_scene_node :: "u8 list \<Rightarrow> nat \<Rightarrow> SceneNode result" where
  "decode_scene_node payload index =
     (let offset = 66 + index * 4 in
     and_then (byte_at payload offset) (\<lambda>node_id.
     and_then (byte_at payload (offset + 1)) (\<lambda>parameter_id.
     and_then (read_parameter payload (offset + 2)) (\<lambda>parameter.
     Ok \<lparr>scn_node_id = NodeId node_id, scn_parameter_id = parameter_id,
       scn_parameter = parameter\<rparr>))))"

definition decode_scene_information :: "u8 list \<Rightarrow> CommandId \<Rightarrow> Response result" where
  "decode_scene_information payload command =
     and_then (require payload 67 command) (\<lambda>_.
     and_then (byte_at payload 65) (\<lambda>count_byte.
     let count = unat count_byte
     in if count > 45
        then Err (InvalidRequest ''scene-information notification contains more than 45 nodes'')
        else
          let expected = 67 + count * 4 in
          and_then (require_exact payload expected command) (\<lambda>_.
          and_then (collect_ok (decode_scene_node payload) [0..<count]) (\<lambda>nodes.
          and_then (byte_at payload 0) (\<lambda>scene_id.
          and_then (byte_slice payload 1 65) (\<lambda>name_field.
          and_then (decode_fixed_string name_field) (\<lambda>name.
          and_then (byte_at payload (expected - 1)) (\<lambda>remaining_nodes.
          Ok (SceneInformation \<lparr>si_scene_id = scene_id, si_name = name, si_nodes = nodes,
                si_remaining_nodes = remaining_nodes\<rparr>)))))))))"

definition decode_system_table_object :: "u8 list \<Rightarrow> nat \<Rightarrow> SystemTableObject result" where
  "decode_system_table_object payload idx =
     (let offset = 1 + idx * 11 in
     and_then (byte_at payload offset) (\<lambda>index.
     and_then (read_array payload [(offset + 1), (offset + 2), (offset + 3)]) (\<lambda>actuator_address.
     and_then (read_u16 payload (offset + 4)) (\<lambda>actuator_type_sub_type.
     and_then (byte_at payload (offset + 6)) (\<lambda>power_mode_and_flags.
     and_then (byte_at payload (offset + 7)) (\<lambda>manufacturer_id.
     and_then (read_array payload [(offset + 8), (offset + 9), (offset + 10)]) (\<lambda>backbone_reference.
     Ok \<lparr>sto_index = index, sto_actuator_address = actuator_address,
       sto_actuator_type_sub_type = actuator_type_sub_type,
       sto_power_mode_and_flags = power_mode_and_flags, sto_manufacturer_id = manufacturer_id,
       sto_backbone_reference = backbone_reference\<rparr>)))))))"

definition decode_system_table_data :: "u8 list \<Rightarrow> CommandId \<Rightarrow> Response result" where
  "decode_system_table_data payload command =
     and_then (require payload 2 command) (\<lambda>_.
     and_then (byte_at payload 0) (\<lambda>count_byte.
     let count = unat count_byte;
         expected = 2 + count * 11 in
     and_then (require_exact payload expected command) (\<lambda>_.
     and_then (collect_ok (decode_system_table_object payload) [0..<count]) (\<lambda>entries.
     and_then (byte_at payload (expected - 1)) (\<lambda>remaining_entries.
     Ok (SystemTableData \<lparr>std_entries = entries, std_remaining_entries = remaining_entries\<rparr>))))))"

section \<open>Command families\<close>

definition decode_gateway :: "CommandId \<Rightarrow> u8 list \<Rightarrow> Response result" where
  "decode_gateway command payload =
     (if command = GW_ERROR_NTF then
        and_then (require_exact payload 1 command) (\<lambda>_.
        and_then (byte_at payload 0) (\<lambda>error_number.
        Ok (ErrorNotification error_number)))
      else if command = GW_SET_NETWORK_SETUP_CFM \<or> command = GW_SET_UTC_CFM then
        and_then (require_exact payload 0 command) (\<lambda>_.
        Ok (Acknowledgement command))
      else if command = GW_PASSWORD_ENTER_CFM then
        and_then (require_exact payload 1 command) (\<lambda>_.
        and_then (byte_at payload 0) (\<lambda>accepted.
        Ok (PasswordEntered (accepted = 0))))
      else if command = GW_PASSWORD_CHANGE_CFM then
        and_then (require_exact payload 1 command) (\<lambda>_.
        and_then (byte_at payload 0) (\<lambda>accepted.
        Ok (PasswordChanged (accepted = 0))))
      else if command = GW_PASSWORD_CHANGE_NTF then
        and_then (require_exact payload 32 command) (\<lambda>_.
        and_then (decode_fixed_string payload) (\<lambda>new_password.
        Ok (PasswordChangedNotification \<lparr>pcn_new_password = new_password\<rparr>)))
      else if command = GW_GET_VERSION_CFM then
        map_ok Version (decode_version payload command)
      else if command = GW_GET_PROTOCOL_VERSION_CFM then
        and_then (require_exact payload 4 command) (\<lambda>_.
        and_then (read_u16 payload 0) (\<lambda>major.
        and_then (read_u16 payload 2) (\<lambda>minor.
        Ok (ProtocolVersion \<lparr>pv_major = major, pv_minor = minor\<rparr>))))
      else if command = GW_GET_STATE_CFM then
        and_then (require_exact payload 6 command) (\<lambda>_.
        and_then (byte_at payload 0) (\<lambda>state.
        and_then (byte_at payload 1) (\<lambda>sub_state.
        and_then (read_array payload [2, 3, 4, 5]) (\<lambda>data.
        Ok (GatewayState \<lparr>gs_state = state, gs_sub_state = sub_state, gs_data = data\<rparr>)))))
      else if command = GW_LEAVE_LEARN_STATE_CFM \<or> command = GW_RTC_SET_TIME_ZONE_CFM then
        and_then (require_exact payload 1 command) (\<lambda>_.
        and_then (byte_at payload 0) (\<lambda>status.
        Ok (OperationStatus command status)))
      else if command = GW_GET_NETWORK_SETUP_CFM then
        and_then (require_exact payload 13 command) (\<lambda>_.
        and_then (read_array payload [0, 1, 2, 3]) (\<lambda>ip_address.
        and_then (read_array payload [4, 5, 6, 7]) (\<lambda>subnet_mask.
        and_then (read_array payload [8, 9, 10, 11]) (\<lambda>default_gateway.
        and_then (byte_at payload 12) (\<lambda>dhcp.
        Ok (NetworkSetup \<lparr>net_ip_address = ip_address, net_subnet_mask = subnet_mask,
          net_default_gateway = default_gateway, net_dhcp = (dhcp = 1)\<rparr>))))))
      else if command = GW_GET_LOCAL_TIME_CFM then
        and_then (require_exact payload 15 command) (\<lambda>_.
        and_then (read_u32 payload 0) (\<lambda>utc_time.
        and_then (byte_at payload 4) (\<lambda>second.
        and_then (byte_at payload 5) (\<lambda>minute.
        and_then (byte_at payload 6) (\<lambda>hour.
        and_then (byte_at payload 7) (\<lambda>day_of_month.
        and_then (byte_at payload 8) (\<lambda>month_since_january.
        and_then (read_u16 payload 9) (\<lambda>years_since_1900.
        and_then (byte_at payload 11) (\<lambda>week_day.
        and_then (read_u16 payload 12) (\<lambda>day_of_year.
        and_then (byte_at payload 14) (\<lambda>daylight_saving_flag.
        Ok (LocalTime \<lparr>lt_utc_time = ProtocolTimestamp utc_time, lt_second = second, lt_minute = minute,
          lt_hour = hour, lt_day_of_month = day_of_month,
          lt_month_since_january = month_since_january, lt_years_since_1900 = years_since_1900,
          lt_week_day = week_day, lt_day_of_year = day_of_year,
          lt_daylight_saving_flag = daylight_saving_flag\<rparr>))))))))))))
      else Ok (UnknownResponse command payload))"

definition decode_configuration :: "CommandId \<Rightarrow> u8 list \<Rightarrow> Response result" where
  "decode_configuration command payload =
     (if command = GW_CS_GET_SYSTEMTABLE_DATA_CFM \<or> command = GW_CS_DISCOVER_NODES_CFM \<or>
        command = GW_CS_VIRGIN_STATE_CFM \<or> command = GW_CS_CONTROLLER_COPY_CFM \<or>
        command = GW_CS_CONTROLLER_COPY_CANCEL_NTF \<or> command = GW_CS_RECEIVE_KEY_CFM \<or>
        command = GW_CS_GENERATE_NEW_KEY_CFM \<or> command = GW_CS_REPAIR_KEY_CFM then
        and_then (require_exact payload 0 command) (\<lambda>_.
        Ok (Acknowledgement command))
      else if command = GW_CS_GET_SYSTEMTABLE_DATA_NTF then
        decode_system_table_data payload command
      else if command = GW_CS_DISCOVER_NODES_NTF then
        and_then (require_exact payload 131 command) (\<lambda>_.
        and_then (decode_node_set payload 0) (\<lambda>added.
        and_then (decode_node_set payload 26) (\<lambda>rf_connection_error.
        and_then (decode_node_set payload 52) (\<lambda>key_error_existing_node.
        and_then (decode_node_set payload 78) (\<lambda>removed.
        and_then (decode_node_set payload 104) (\<lambda>open.
        and_then (byte_at payload 130) (\<lambda>status.
        Ok (NodeDiscoveryResult \<lparr>ndr_added = added, ndr_rf_connection_error = rf_connection_error,
          ndr_key_error_existing_node = key_error_existing_node, ndr_removed = removed,
          ndr_open = open, ndr_status = status\<rparr>))))))))
      else if command = GW_CS_REMOVE_NODES_CFM then
        and_then (require_exact payload 1 command) (\<lambda>_.
        and_then (byte_at payload 0) (\<lambda>scene_deleted.
        Ok (NodesRemoved (scene_deleted \<noteq> 0))))
      else if command = GW_CS_CONTROLLER_COPY_NTF then
        and_then (require_exact payload 2 command) (\<lambda>_.
        and_then (byte_at payload 0) (\<lambda>mode.
        and_then (byte_at payload 1) (\<lambda>status.
        Ok (ControllerCopyResult \<lparr>ccr_mode = mode, ccr_status = status\<rparr>))))
      else if command = GW_CS_RECEIVE_KEY_NTF \<or> command = GW_CS_GENERATE_NEW_KEY_NTF \<or>
        command = GW_CS_REPAIR_KEY_NTF then
        and_then (require_exact payload 53 command) (\<lambda>_.
        and_then (byte_at payload 0) (\<lambda>status.
        and_then (decode_node_set payload 1) (\<lambda>changed.
        and_then (decode_node_set payload 27) (\<lambda>unchanged.
        Ok (KeyChangeResult \<lparr>kcr_command = command, kcr_status = status, kcr_changed = changed,
          kcr_unchanged = unchanged\<rparr>)))))
      else if command = GW_CS_PGC_JOB_NTF then
        and_then (require_exact payload 3 command) (\<lambda>_.
        and_then (byte_at payload 0) (\<lambda>state.
        and_then (byte_at payload 1) (\<lambda>status.
        and_then (byte_at payload 2) (\<lambda>job_type.
        Ok (PgcJob \<lparr>pgc_state = state, pgc_status = status, pgc_job_type = job_type\<rparr>)))))
      else if command = GW_CS_SYSTEM_TABLE_UPDATE_NTF then
        and_then (require_exact payload 52 command) (\<lambda>_.
        and_then (decode_node_set payload 0) (\<lambda>added.
        and_then (decode_node_set payload 26) (\<lambda>removed.
        Ok (SystemTableUpdate \<lparr>stu_added = added, stu_removed = removed\<rparr>))))
      else if command = GW_CS_ACTIVATE_CONFIGURATION_MODE_CFM then
        and_then (require_exact payload 79 command) (\<lambda>_.
        and_then (decode_node_set payload 0) (\<lambda>activated.
        and_then (decode_node_set payload 26) (\<lambda>no_contact.
        and_then (decode_node_set payload 52) (\<lambda>other_error.
        and_then (byte_at payload 78) (\<lambda>status.
        Ok (ConfigurationActivationResult \<lparr>car_activated = activated, car_no_contact = no_contact, car_other_error = other_error,
          car_status = status\<rparr>))))))
      else Ok (UnknownResponse command payload))"

definition decode_node_group :: "CommandId \<Rightarrow> u8 list \<Rightarrow> Response result" where
  "decode_node_group command payload =
     (if command = GW_SET_NODE_VARIATION_CFM \<or> command = GW_SET_NODE_NAME_CFM \<or>
        command = GW_SET_NODE_ORDER_AND_PLACEMENT_CFM then
        and_then (require_exact payload 2 command) (\<lambda>_.
        and_then (byte_at payload 0) (\<lambda>status.
        and_then (byte_at payload 1) (\<lambda>node_id.
        Ok (NodeMutationResult \<lparr>nmr_command = command, nmr_status = status, nmr_node_id = NodeId node_id\<rparr>))))
      else if command = GW_GET_GROUP_INFORMATION_CFM \<or> command = GW_SET_GROUP_INFORMATION_CFM \<or>
        command = GW_NEW_GROUP_CFM then
        and_then (require_exact payload 2 command) (\<lambda>_.
        and_then (byte_at payload 0) (\<lambda>status.
        and_then (byte_at payload 1) (\<lambda>group_id.
        Ok (GroupOperationResult \<lparr>gor_command = command, gor_status = status, gor_group_id = GroupId group_id\<rparr>))))
      else if command = GW_DELETE_GROUP_CFM then
        and_then (require_exact payload 2 command) (\<lambda>_.
        and_then (byte_at payload 1) (\<lambda>status.
        and_then (byte_at payload 0) (\<lambda>group_id.
        Ok (GroupOperationResult \<lparr>gor_command = command, gor_status = status, gor_group_id = GroupId group_id\<rparr>))))
      else if command = GW_GET_GROUP_INFORMATION_NTF \<or>
        command = GW_GET_ALL_GROUPS_INFORMATION_NTF then
        and_then (decode_group_information payload command) (\<lambda>information.
        Ok (GroupInformation \<lparr>gin_command = command, gin_information = information\<rparr>))
      else if command = GW_GROUP_INFORMATION_CHANGED_NTF then
        and_then (require payload 2 command) (\<lambda>_.
        and_then (byte_at payload 0) (\<lambda>change_type.
        and_then (byte_at payload 1) (\<lambda>group_id.
        and_then
          (if change_type = 1 then
             and_then (require_exact payload 100 command) (\<lambda>_.
             and_then (byte_slice payload 1 (length payload)) (\<lambda>rest.
             map_ok Some (decode_group_information rest command)))
           else
             and_then (require_exact payload 2 command) (\<lambda>_. Ok None)) (\<lambda>information.
        Ok (GroupChange \<lparr>gc_change_type = change_type, gc_group_id = GroupId group_id,
              gc_information = information\<rparr>)))))
      else if command = GW_GET_ALL_GROUPS_INFORMATION_CFM then
        and_then (require_exact payload 2 command) (\<lambda>_.
        and_then (byte_at payload 0) (\<lambda>status.
        and_then (byte_at payload 1) (\<lambda>total_groups.
        Ok (AllGroupsAccepted \<lparr>aga_status = status, aga_total_groups = total_groups\<rparr>))))
      else if command = GW_GET_ALL_GROUPS_INFORMATION_FINISHED_NTF then
        and_then (require_exact payload 0 command) (\<lambda>_.
        Ok (Acknowledgement command))
      else if command = GW_GROUP_DELETED_NTF then
        and_then (require_exact payload 1 command) (\<lambda>_.
        and_then (byte_at payload 0) (\<lambda>group_id.
        Ok (GroupDeleted (GroupId group_id))))
      else Ok (UnknownResponse command payload))"

definition decode_command_extension :: "CommandId \<Rightarrow> u8 list \<Rightarrow> Response result" where
  "decode_command_extension command payload =
     (if command = GW_WINK_SEND_CFM \<or> command = GW_SET_LIMITATION_CFM \<or>
        command = GW_GET_LIMITATION_STATUS_CFM \<or> command = GW_MODE_SEND_CFM then
        and_then (require_exact payload 3 command) (\<lambda>_.
        and_then (session_id payload command) (\<lambda>session_id.
        and_then (byte_at payload 2) (\<lambda>status.
        Ok (SessionCommandResult \<lparr>scr_command = command, scr_session_id = session_id, scr_status = status\<rparr>))))
      else if command = GW_WINK_SEND_NTF then
        and_then (require_exact payload 2 command) (\<lambda>_.
        and_then (session_id payload command) (\<lambda>session_id.
        Ok (WinkFinished session_id)))
      else if command = GW_LIMITATION_STATUS_NTF then
        and_then (require_exact payload 10 command) (\<lambda>_.
        and_then (session_id payload command) (\<lambda>session_id.
        and_then (byte_at payload 2) (\<lambda>node_id.
        and_then (byte_at payload 3) (\<lambda>parameter_id.
        and_then (read_parameter payload 4) (\<lambda>minimum.
        and_then (read_parameter payload 6) (\<lambda>maximum.
        and_then (byte_at payload 8) (\<lambda>originator.
        and_then (byte_at payload 9) (\<lambda>limitation_time.
        Ok (LimitationStatus \<lparr>ls_session_id = session_id, ls_node_id = NodeId node_id,
          ls_parameter_id = parameter_id, ls_minimum = minimum, ls_maximum = maximum,
          ls_originator = originator, ls_limitation_time = limitation_time\<rparr>)))))))))
      else if command = GW_MODE_SEND_NTF then
        Ok (ModeNotification payload)
      else Ok (UnknownResponse command payload))"

text \<open>The loop over \<open>node_states.iter_mut().zip(&payload[1..])\<close>.\<close>

fun write_states :: "bool list \<Rightarrow> u8 list \<Rightarrow> bool list" where
  "write_states (state # states) (value # values) = (value = 0) # write_states states values"
| "write_states states _ = states"

definition decode_scene_contact :: "CommandId \<Rightarrow> u8 list \<Rightarrow> Response result" where
  "decode_scene_contact command payload =
     (if command = GW_INITIALIZE_SCENE_CFM \<or> command = GW_INITIALIZE_SCENE_CANCEL_CFM \<or>
        command = GW_RECORD_SCENE_CFM then
        and_then (require_exact payload 1 command) (\<lambda>_.
        and_then (byte_at payload 0) (\<lambda>status.
        Ok (SceneStatusResult \<lparr>ssr_command = command, ssr_status = status\<rparr>)))
      else if command = GW_INITIALIZE_SCENE_NTF then
        and_then (require_exact payload 26 command) (\<lambda>_.
        and_then (byte_slice payload 1 (length payload)) (\<lambda>values.
        let node_states = write_states (replicate 25 False) values in
        and_then (byte_at payload 0) (\<lambda>status.
        Ok (SceneInitializationResult \<lparr>sir_status = status, sir_node_states = node_states\<rparr>))))
      else if command = GW_RECORD_SCENE_NTF \<or> command = GW_DELETE_SCENE_CFM \<or>
        command = GW_RENAME_SCENE_CFM \<or> command = GW_GET_SCENE_INFOAMATION_CFM then
        and_then (require_exact payload 2 command) (\<lambda>_.
        and_then (byte_at payload 0) (\<lambda>status.
        and_then (byte_at payload 1) (\<lambda>scene_id.
        Ok (SceneObjectResult \<lparr>sor_command = command, sor_status = status, sor_scene_id = scene_id\<rparr>))))
      else if command = GW_GET_SCENE_LIST_CFM then
        and_then (require_exact payload 1 command) (\<lambda>_.
        and_then (byte_at payload 0) (\<lambda>total_scenes.
        Ok (SceneListAccepted total_scenes)))
      else if command = GW_GET_SCENE_LIST_NTF then
        decode_scene_list payload command
      else if command = GW_GET_SCENE_INFOAMATION_NTF then
        decode_scene_information payload command
      else if command = GW_ACTIVATE_SCENE_CFM \<or> command = GW_STOP_SCENE_CFM then
        and_then (require_exact payload 3 command) (\<lambda>_.
        and_then (byte_at payload 0) (\<lambda>status.
        and_then (session_id_at payload 1 command) (\<lambda>session_id.
        Ok (SceneSessionResult \<lparr>sser_command = command, sser_status = status, sser_session_id = session_id\<rparr>))))
      else if command = GW_SCENE_INFORMATION_CHANGED_NTF then
        and_then (require_exact payload 2 command) (\<lambda>_.
        and_then (byte_at payload 0) (\<lambda>change_type.
        and_then (byte_at payload 1) (\<lambda>scene_id.
        Ok (SceneChange \<lparr>sc_change_type = change_type, sc_scene_id = scene_id\<rparr>))))
      else if command = GW_ACTIVATE_PRODUCTGROUP_CFM then
        and_then (require_exact payload 3 command) (\<lambda>_.
        and_then (session_id payload command) (\<lambda>session_id.
        and_then (byte_at payload 2) (\<lambda>status.
        Ok (ProductGroupResult \<lparr>pgr_session_id = session_id, pgr_status = status\<rparr>))))
      else if command = GW_ACTIVATE_PRODUCTGROUP_NTF then
        Ok (ProductGroupNotification payload)
      else if command = GW_GET_CONTACT_INPUT_LINK_LIST_CFM then
        decode_contact_input_links payload command
      else if command = GW_SET_CONTACT_INPUT_LINK_CFM \<or>
        command = GW_REMOVE_CONTACT_INPUT_LINK_CFM then
        and_then (require_exact payload 2 command) (\<lambda>_.
        and_then (byte_at payload 0) (\<lambda>contact_input_id.
        and_then (byte_at payload 1) (\<lambda>status.
        Ok (ContactInputOperationResult \<lparr>cor_command = command, cor_contact_input_id = contact_input_id, cor_status = status\<rparr>))))
      else Ok (UnknownResponse command payload))"

definition decode_activation_log :: "CommandId \<Rightarrow> u8 list \<Rightarrow> Response result" where
  "decode_activation_log command payload =
     (if command = GW_GET_ACTIVATION_LOG_HEADER_CFM then
        and_then (require_exact payload 4 command) (\<lambda>_.
        and_then (read_u16 payload 0) (\<lambda>maximum_lines.
        and_then (read_u16 payload 2) (\<lambda>line_count.
        Ok (ActivationLogHeader \<lparr>alh_maximum_lines = maximum_lines, alh_line_count = line_count\<rparr>))))
      else if command = GW_CLEAR_ACTIVATION_LOG_CFM \<or> command = GW_ACTIVATION_LOG_UPDATED_NTF then
        and_then (require_exact payload 0 command) (\<lambda>_.
        Ok (Acknowledgement command))
      else if command = GW_GET_ACTIVATION_LOG_LINE_CFM \<or>
        command = GW_GET_MULTIPLE_ACTIVATION_LOG_LINES_NTF then
        and_then (require_exact payload 17 command) (\<lambda>_.
        and_then (read_u32 payload 0) (\<lambda>timestamp.
        and_then (session_id_at payload 4 command) (\<lambda>session_id.
        and_then (byte_at payload 6) (\<lambda>status_id.
        and_then (byte_at payload 7) (\<lambda>node_id.
        and_then (byte_at payload 8) (\<lambda>node_parameter.
        and_then (read_parameter payload 9) (\<lambda>parameter_value.
        and_then (byte_at payload 11) (\<lambda>run_status.
        and_then (byte_at payload 12) (\<lambda>status_reply.
        and_then (read_u32 payload 13) (\<lambda>information_code.
        Ok (ActivationLogEntry \<lparr>ale_command = command, ale_timestamp = ProtocolTimestamp timestamp,
          ale_session_id = session_id, ale_status_id = status_id, ale_node_id = NodeId node_id,
          ale_node_parameter = node_parameter, ale_parameter_value = parameter_value,
          ale_run_status = RunStatus_from run_status, ale_status_reply = status_reply,
          ale_information_code = information_code\<rparr>)))))))))))
      else if command = GW_GET_MULTIPLE_ACTIVATION_LOG_LINES_CFM then
        and_then (require_exact payload 3 command) (\<lambda>_.
        and_then (read_u16 payload 0) (\<lambda>line_count.
        and_then (byte_at payload 2) (\<lambda>status.
        Ok (MultipleActivationLogResult \<lparr>mal_line_count = line_count, mal_status = status\<rparr>))))
      else Ok (UnknownResponse command payload))"

definition decode_session_status :: "u8 list \<Rightarrow> CommandId \<Rightarrow> bool \<Rightarrow> Response result" where
  "decode_session_status payload command is_command =
     and_then (require_exact payload 3 command) (\<lambda>_.
     and_then (session_id payload command) (\<lambda>session_id.
     if is_command then
       and_then (byte_at payload 2) (\<lambda>status. Ok (CommandAccepted session_id status))
     else
       and_then (byte_at payload 2) (\<lambda>status. Ok (StatusAccepted session_id status))))"

definition decode_core :: "CommandId \<Rightarrow> u8 list \<Rightarrow> Response result" where
  "decode_core command payload =
     (if command = GW_REBOOT_CFM \<or> command = GW_SET_FACTORY_DEFAULT_CFM \<or>
        command = GW_HOUSE_STATUS_MONITOR_ENABLE_CFM \<or>
        command = GW_HOUSE_STATUS_MONITOR_DISABLE_CFM \<or>
        command = GW_GET_ALL_NODES_INFORMATION_FINISHED_NTF then
        and_then (require_exact payload 0 command) (\<lambda>_.
        Ok (Acknowledgement command))
      else if command = GW_ERROR_NTF \<or> command = GW_SET_NETWORK_SETUP_CFM \<or>
        command = GW_SET_UTC_CFM \<or> command = GW_PASSWORD_ENTER_CFM \<or>
        command = GW_PASSWORD_CHANGE_CFM \<or> command = GW_PASSWORD_CHANGE_NTF \<or>
        command = GW_GET_VERSION_CFM \<or> command = GW_GET_PROTOCOL_VERSION_CFM \<or>
        command = GW_GET_STATE_CFM \<or> command = GW_LEAVE_LEARN_STATE_CFM \<or>
        command = GW_RTC_SET_TIME_ZONE_CFM \<or> command = GW_GET_NETWORK_SETUP_CFM \<or>
        command = GW_GET_LOCAL_TIME_CFM then
        decode_gateway command payload
      else if command = GW_GET_NODE_INFORMATION_CFM then
        and_then (require_exact payload 2 command) (\<lambda>_.
        and_then (byte_at payload 0) (\<lambda>status.
        and_then (byte_at payload 1) (\<lambda>node_id.
        Ok (NodeInformationAccepted status (NodeId node_id)))))
      else if command = GW_GET_ALL_NODES_INFORMATION_CFM then
        and_then (require_exact payload 2 command) (\<lambda>_.
        and_then (byte_at payload 0) (\<lambda>status.
        and_then (byte_at payload 1) (\<lambda>total_nodes.
        Ok (AllNodesInformationAccepted status total_nodes))))
      else if command = GW_GET_NODE_INFORMATION_NTF \<or> command = GW_GET_ALL_NODES_INFORMATION_NTF then
        map_ok NodeInformation (decode_node_information payload command)
      else if command = GW_NODE_INFORMATION_CHANGED_NTF then
        and_then (require_exact payload 69 command) (\<lambda>_.
        and_then (byte_at payload 0) (\<lambda>node_id.
        and_then (byte_slice payload 1 65) (\<lambda>name_field.
        and_then (decode_fixed_string name_field) (\<lambda>name.
        and_then (read_u16 payload 65) (\<lambda>order.
        and_then (byte_at payload 67) (\<lambda>placement.
        and_then (byte_at payload 68) (\<lambda>variation.
        Ok (NodeInformationChanged \<lparr>nc_node_id = NodeId node_id, nc_name = name, nc_order = order,
          nc_placement = placement, nc_variation = variation\<rparr>))))))))
      else if command = GW_NODE_STATE_POSITION_CHANGED_NTF then
        map_ok NodeStatePosition (decode_node_state payload command)
      else if command = GW_COMMAND_SEND_CFM then
        decode_session_status payload command True
      else if command = GW_COMMAND_RUN_STATUS_NTF then
        map_ok CommandRunStatus (decode_command_run_status payload command)
      else if command = GW_COMMAND_REMAINING_TIME_NTF then
        and_then (require_exact payload 6 command) (\<lambda>_.
        and_then (session_id payload command) (\<lambda>session_id.
        and_then (byte_at payload 2) (\<lambda>node_id.
        and_then (byte_at payload 3) (\<lambda>node_parameter.
        and_then (read_u16 payload 4) (\<lambda>seconds.
        Ok (CommandRemainingTime session_id (NodeId node_id) node_parameter seconds))))))
      else if command = GW_SESSION_FINISHED_NTF then
        and_then (require_exact payload 2 command) (\<lambda>_.
        and_then (session_id payload command) (\<lambda>session_id.
        Ok (SessionFinished session_id)))
      else if command = GW_STATUS_REQUEST_CFM then
        decode_session_status payload command False
      else if command = GW_STATUS_REQUEST_NTF then
        map_ok StatusNotification (decode_status_notification payload command)
      else Ok (UnknownResponse command payload))"

definition Response_decode :: "Frame \<Rightarrow> Response result" where
  "Response_decode frame =
     (let command = frame_command frame;
          payload = frame_payload frame;
          r = raw command
      in if 0x0100 \<le> r \<and> r \<le> 0x011A then decode_configuration command payload
         else if 0x0206 \<le> r \<and> r \<le> 0x0209 \<or> 0x020D \<le> r \<and> r \<le> 0x020E \<or> 0x0220 \<le> r \<and> r \<le> 0x0230
           then decode_node_group command payload
         else if 0x0308 \<le> r \<and> r \<le> 0x0322 then decode_command_extension command payload
         else if 0x0400 \<le> r \<and> r \<le> 0x0465 then decode_scene_contact command payload
         else if 0x0500 \<le> r \<and> r \<le> 0x0509 then decode_activation_log command payload
         else decode_core command payload)"

section \<open>Reading in range\<close>

lemma require_then [simp]:
  "and_then (require p n c) f = (if length p < n then Err (TruncatedPayload c n (length p)) else f ())"
  by (simp add: require_def)

definition length_error :: "CommandId \<Rightarrow> nat \<Rightarrow> nat \<Rightarrow> klf_error" where
  "length_error c expected actual =
     (if actual < expected then TruncatedPayload c expected actual
      else InvalidPayloadLength c expected actual)"

lemma require_exact_then [simp]:
  "and_then (require_exact p n c) f = (if length p = n then f () else Err (length_error c n (length p)))"
  by (simp add: require_exact_def length_error_def)

lemma read_u16_Ok [simp]:
  "i + 1 < length p \<Longrightarrow> read_u16 p i = Ok (u16_from_be_bytes (p ! i) (p ! (i + 1)))"
  by (simp add: read_u16_def)

lemma read_u32_Ok [simp]:
  "i + 3 < length p \<Longrightarrow>
     read_u32 p i = Ok (u32_from_be_bytes (p ! i) (p ! (i + 1)) (p ! (i + 2)) (p ! (i + 3)))"
  by (simp add: read_u32_def)

lemma read_parameter_Ok [simp]:
  "i + 1 < length p \<Longrightarrow>
     read_parameter p i = Ok (StandardParameter_from_raw (u16_from_be_bytes (p ! i) (p ! (i + 1))))"
  by (simp add: read_parameter_def)

lemma read_array_Ok: "(\<And>i. i \<in> set is \<Longrightarrow> i < length p) \<Longrightarrow> read_array p is = Ok (map ((!) p) is)"
  unfolding read_array_def by (rule collect_ok_map) simp

lemma session_id_at_eq:
  "session_id_at p i c =
     (if length p < i + 2 then Err (TruncatedPayload c (i + 2) (length p))
      else if u16_from_be_bytes (p ! i) (p ! (i + 1)) = 0
        then Err (InvalidRequest ''session ID zero is reserved'')
      else Ok (SessionId (u16_from_be_bytes (p ! i) (p ! (i + 1)))))"
  by (simp add: session_id_at_def SessionId_new_def)

lemma session_id_at_not_Panic [simp, no_panic]: "session_id_at p i c \<noteq> Panic"
  by (simp add: session_id_at_eq)

lemma session_id_eq: "session_id p c = session_id_at p 0 c"
  by (simp add: session_id_def session_id_at_eq)

lemma session_id_not_Panic [simp, no_panic]: "session_id p c \<noteq> Panic"
  by (simp add: session_id_eq)

lemma decode_node_set_Ok [simp]:
  "i + 25 < length p \<Longrightarrow>
     decode_node_set p i = Ok (NodeSet_new \<lparr>act_bytes = take 25 (drop i p)\<rparr> (BeaconSet_from_byte (p ! (i + 25))))"
  by (simp add: decode_node_set_def ActuatorSet_from_bytes_def)

section \<open>Decoding never panics\<close>

lemma decode_items_not_Panic:
  "108 + i * 4 \<le> length p \<Longrightarrow> decode_alias p i \<noteq> Panic"
  "11 + i * 3 \<le> length p \<Longrightarrow> decode_parameter_status p i \<noteq> Panic"
  "66 + i * 65 \<le> length p \<Longrightarrow> decode_scene_summary p i \<noteq> Panic"
  "70 + i * 4 \<le> length p \<Longrightarrow> decode_scene_node p i \<noteq> Panic"
  "12 + i * 11 \<le> length p \<Longrightarrow> decode_system_table_object p i \<noteq> Panic"
  "o1 + 17 \<le> length p \<Longrightarrow> decode_contact_input_link p o1 \<noteq> Panic"
  by (simp_all add: decode_alias_def decode_parameter_status_def decode_scene_summary_def
      decode_scene_node_def decode_system_table_object_def decode_contact_input_link_def Let_def
      read_array_def and_then_eq_Panic_iff)

lemma byte_at_eq_Panic_iff: "byte_at p i = Panic \<longleftrightarrow> length p \<le> i"
  by (simp add: byte_at_def)

lemma collect_items_not_Panic:
  "(\<And>i. i < n \<Longrightarrow> f i \<noteq> Panic) \<Longrightarrow> collect_ok f [0..<n] \<noteq> Panic"
  by (rule collect_ok_not_Panic) auto

lemmas panic_simps = and_then_eq_Panic_iff byte_at_eq_Panic_iff decode_items_not_Panic collect_items_not_Panic Let_def

lemma decode_lists_not_Panic [simp, no_panic]:
  "decode_system_table_data p c \<noteq> Panic"
  "decode_scene_list p c \<noteq> Panic"
  "decode_scene_information p c \<noteq> Panic"
  "decode_contact_input_links p c \<noteq> Panic"
  by (auto simp: decode_system_table_data_def decode_scene_list_def decode_scene_information_def
      decode_contact_input_links_def panic_simps)

lemma decode_structs_not_Panic [simp, no_panic]:
  "decode_version p c \<noteq> Panic"
  "decode_group_information p c \<noteq> Panic"
  "decode_node_state p c \<noteq> Panic"
  "decode_command_run_status p c \<noteq> Panic"
  by (simp_all add: decode_version_def decode_group_information_def decode_node_state_def
      decode_command_run_status_def and_then_eq_Panic_iff)

lemma decode_node_information_not_Panic [simp, no_panic]: "decode_node_information p c \<noteq> Panic"
  by (auto simp: decode_node_information_def panic_simps)

lemma decode_status_not_Panic [simp, no_panic]: "decode_status_notification p c \<noteq> Panic"
proof -
  have "decode_status_detail p c t \<noteq> Panic" if "7 \<le> length p" for t
    using that by (auto simp: decode_status_detail_def panic_simps)
  then show ?thesis by (auto simp: decode_status_notification_def panic_simps)
qed

lemma decode_families_not_Panic [simp, no_panic]:
  "decode_gateway c p \<noteq> Panic"
  "decode_configuration c p \<noteq> Panic"
  "decode_node_group c p \<noteq> Panic"
  "decode_command_extension c p \<noteq> Panic"
  "decode_scene_contact c p \<noteq> Panic"
  "decode_activation_log c p \<noteq> Panic"
  by (simp_all add: decode_gateway_def decode_configuration_def decode_node_group_def
      decode_command_extension_def decode_scene_contact_def decode_activation_log_def
      and_then_eq_Panic_iff read_array_def Let_def)

lemma decode_core_not_Panic [simp, no_panic]: "decode_core c p \<noteq> Panic"
  by (simp add: decode_core_def decode_session_status_def and_then_eq_Panic_iff)

lemma Response_decode_not_Panic: "Response_decode f \<noteq> Panic"
  by (simp add: Response_decode_def Let_def)

section \<open>Decoded data are well formed\<close>

text \<open>
  What a decoded response guarantees: session identifiers are not zero, names are valid UTF-8, bit
  sets have their size and no stray beacon bits, arrays have their length and positions are canonical;
  the same for the elements of the lists a response holds.
\<close>

definition node_information_wf :: "NodeInformation \<Rightarrow> bool" where
  "node_information_wf n \<longleftrightarrow> str_valid (ni_name n) \<and> length (ni_serial_number n) = 8
     \<and> length (ni_functional_positions n) = 4 \<and> length (ni_aliases n) \<le> 5
     \<and> parameter_wf (ni_current_position n) \<and> parameter_wf (ni_target_position n)
     \<and> list_all parameter_wf (ni_functional_positions n)"

definition node_state_wf :: "NodeStatePosition \<Rightarrow> bool" where
  "node_state_wf n \<longleftrightarrow> length (np_functional_positions n) = 4
     \<and> parameter_wf (np_current_position n) \<and> parameter_wf (np_target_position n)
     \<and> list_all parameter_wf (np_functional_positions n)"

primrec detail_wf :: "StatusNotificationDetail \<Rightarrow> bool" where
  "detail_wf (Parameters ps) \<longleftrightarrow> length ps < 256"
| "detail_wf (MainDetail t c r a o') \<longleftrightarrow> parameter_wf t \<and> parameter_wf c"
| "detail_wf (UnknownDetail t p) \<longleftrightarrow> t > 3"

definition table_object_wf :: "SystemTableObject \<Rightarrow> bool" where
  "table_object_wf t \<longleftrightarrow> length (sto_actuator_address t) = 3 \<and> length (sto_backbone_reference t) = 3"

definition scene_summary_wf :: "SceneSummary \<Rightarrow> bool" where
  "scene_summary_wf s \<longleftrightarrow> str_valid (sum_name s)"

definition scene_node_wf :: "SceneNode \<Rightarrow> bool" where
  "scene_node_wf n \<longleftrightarrow> parameter_wf (scn_parameter n)"

definition response_wf :: "Response \<Rightarrow> bool" where
  "response_wf r \<longleftrightarrow>
     (case r of
        PasswordChangedNotification n \<Rightarrow> str_valid (pcn_new_password n)
      | Version v \<Rightarrow> length (v_software v) = 6
      | GatewayState s \<Rightarrow> length (gs_data s) = 4
      | NetworkSetup s \<Rightarrow> network_setup_wf s
      | NodeDiscoveryResult d \<Rightarrow> node_set_wf (ndr_added d) \<and> node_set_wf (ndr_rf_connection_error d)
          \<and> node_set_wf (ndr_key_error_existing_node d) \<and> node_set_wf (ndr_removed d) \<and> node_set_wf (ndr_open d)
      | KeyChangeResult k \<Rightarrow> node_set_wf (kcr_changed k) \<and> node_set_wf (kcr_unchanged k)
      | SystemTableUpdate u \<Rightarrow> node_set_wf (stu_added u) \<and> node_set_wf (stu_removed u)
      | ConfigurationActivationResult a \<Rightarrow> node_set_wf (car_activated a) \<and> node_set_wf (car_no_contact a)
          \<and> node_set_wf (car_other_error a)
      | GroupInformation g \<Rightarrow> group_wf (gin_information g)
      | GroupChange g \<Rightarrow>
          (case gc_information g of None \<Rightarrow> gc_change_type g \<noteq> 1
           | Some i \<Rightarrow> gc_change_type g = 1 \<and> group_wf i \<and> gi_group_id i = gc_group_id g)
      | SessionCommandResult s \<Rightarrow> session_valid (scr_session_id s)
      | WinkFinished s \<Rightarrow> session_valid s
      | LimitationStatus l \<Rightarrow> session_valid (ls_session_id l) \<and> parameter_wf (ls_minimum l)
          \<and> parameter_wf (ls_maximum l)
      | SceneInitializationResult i \<Rightarrow> length (sir_node_states i) = 25
      | SystemTableData t \<Rightarrow> length (std_entries t) < 256 \<and> list_all table_object_wf (std_entries t)
      | SceneList l \<Rightarrow> length (slst_scenes l) \<le> 3 \<and> list_all scene_summary_wf (slst_scenes l)
      | SceneInformation s \<Rightarrow> length (si_nodes s) \<le> 45 \<and> str_valid (si_name s)
          \<and> list_all scene_node_wf (si_nodes s)
      | SceneSessionResult s \<Rightarrow> session_valid (sser_session_id s)
      | ProductGroupResult p \<Rightarrow> session_valid (pgr_session_id p)
      | ContactInputLinks ls \<Rightarrow> length ls \<le> 10 \<and> list_all contact_link_wf ls
      | ActivationLogEntry e \<Rightarrow> session_valid (ale_session_id e) \<and> parameter_wf (ale_parameter_value e)
      | NodeInformation n \<Rightarrow> node_information_wf n
      | NodeInformationChanged c \<Rightarrow> str_valid (nc_name c)
      | NodeStatePosition n \<Rightarrow> node_state_wf n
      | CommandAccepted s status \<Rightarrow> session_valid s
      | CommandRunStatus c \<Rightarrow> session_valid (rs_session_id c) \<and> parameter_wf (rs_parameter_value c)
      | CommandRemainingTime s n p t \<Rightarrow> session_valid s
      | SessionFinished s \<Rightarrow> session_valid s
      | StatusAccepted s status \<Rightarrow> session_valid s
      | StatusNotification s \<Rightarrow> session_valid (st_session_id s) \<and> detail_wf (st_detail s)
      | _ \<Rightarrow> True)"

lemma session_id_at_valid: "session_id_at p i c = Ok s \<Longrightarrow> session_valid s"
  by (auto simp: session_id_at_eq session_valid_def split: if_splits)

lemma session_id_valid: "session_id p c = Ok s \<Longrightarrow> session_valid s"
  by (auto simp: session_id_eq session_id_at_valid)

lemma node_set_wf_decoded [simp]:
  "length bs = 25 \<Longrightarrow> node_set_wf (NodeSet_new \<lparr>act_bytes = bs\<rparr> (BeaconSet_from_byte b))"
  by (simp add: node_set_wf_def NodeSet_new_def actuators_wf_def beacons_wf_from_byte
      ACTUATOR_BYTES_def ACTUATOR_COUNT_def)

lemmas decoded_wf = session_id_valid session_id_at_valid decode_fixed_string_valid(1)

lemma decode_group_information_wf:
  "decode_group_information p c = Ok g \<Longrightarrow> group_wf g \<and> gi_group_id g = GroupId (p ! 0)"
  by (auto simp: decode_group_information_def outcome_iffs group_wf_def actuators_wf_def
      ActuatorSet_from_bytes_def ACTUATOR_BYTES_def ACTUATOR_COUNT_def
      dest: decoded_wf split: if_splits)

lemma decode_node_information_wf: "decode_node_information p c = Ok n \<Longrightarrow> node_information_wf n"
  by (auto simp: decode_node_information_def outcome_iffs node_information_wf_def parameter_wf_from_raw
      Let_def dest!: collect_ok_length dest: decoded_wf split: if_splits)

lemma decode_node_state_wf: "decode_node_state p c = Ok n \<Longrightarrow> node_state_wf n"
  by (auto simp: decode_node_state_def outcome_iffs node_state_wf_def parameter_wf_from_raw split: if_splits)

lemma word_above_3: "\<not> t \<le> (2 :: u8) \<Longrightarrow> t \<noteq> 3 \<Longrightarrow> 3 < t"
  by (simp add: word_less_nat_alt word_le_nat_alt word_unat_eq_iff)

lemma decode_status_detail_wf:
  "7 \<le> length p \<Longrightarrow> decode_status_detail p c t = Ok d \<Longrightarrow> detail_wf d"
  by (auto simp: decode_status_detail_def outcome_iffs parameter_wf_from_raw Let_def word_above_3
      dest!: collect_ok_length split: if_splits)

lemma read_parameter_wf: "read_parameter p i = Ok v \<Longrightarrow> parameter_wf v"
  by (auto simp: read_parameter_def outcome_iffs parameter_wf_from_raw)

lemma decode_items_wf:
  "decode_system_table_object p i = Ok t \<Longrightarrow> table_object_wf t"
  "decode_scene_summary p i = Ok s \<Longrightarrow> scene_summary_wf s"
  "decode_scene_node p i = Ok n \<Longrightarrow> scene_node_wf n"
  "decode_contact_input_link p i = Ok l \<Longrightarrow> contact_link_wf l"
  by (auto simp: decode_system_table_object_def decode_scene_summary_def decode_scene_node_def
      decode_contact_input_link_def read_array_def outcome_iffs Let_def table_object_wf_def
      scene_summary_wf_def scene_node_wf_def contact_link_wf_def read_parameter_wf
      dest: decoded_wf split: if_splits)

lemma collected_items_wf:
  "collect_ok (decode_system_table_object p) is = Ok ts \<Longrightarrow> list_all table_object_wf ts \<and> length ts = length is"
  "collect_ok (decode_scene_summary p) is = Ok ss \<Longrightarrow> list_all scene_summary_wf ss \<and> length ss = length is"
  "collect_ok (decode_scene_node p) is = Ok ns \<Longrightarrow> list_all scene_node_wf ns \<and> length ns = length is"
  "collect_ok (\<lambda>i. decode_contact_input_link p (g i)) is = Ok ls \<Longrightarrow>
     list_all contact_link_wf ls \<and> length ls = length is"
  by (auto intro: collect_ok_length elim: collect_ok_all dest: decode_items_wf)

lemma decode_lists_wf:
  "decode_system_table_data p c = Ok r \<Longrightarrow> response_wf r"
  "decode_scene_list p c = Ok r \<Longrightarrow> response_wf r"
  "decode_scene_information p c = Ok r \<Longrightarrow> response_wf r"
  "decode_contact_input_links p c = Ok r \<Longrightarrow> response_wf r"
  by (auto simp: decode_system_table_data_def decode_scene_list_def decode_scene_information_def
      decode_contact_input_links_def outcome_iffs Let_def response_wf_def
      dest!: collected_items_wf dest: decoded_wf split: if_splits)

lemma decode_gateway_wf: "decode_gateway c p = Ok r \<Longrightarrow> response_wf r"
  by (auto simp: decode_gateway_def decode_version_def read_array_def outcome_iffs response_wf_def
      network_setup_wf_def dest: decoded_wf split: if_splits)

lemma decode_configuration_wf: "decode_configuration c p = Ok r \<Longrightarrow> response_wf r"
  by (auto simp: decode_configuration_def outcome_iffs decode_lists_wf split: if_splits)
    (simp_all add: response_wf_def)

lemma decode_node_group_wf: "decode_node_group c p = Ok r \<Longrightarrow> response_wf r"
  by (auto simp: decode_node_group_def outcome_iffs response_wf_def
      dest!: decode_group_information_wf split: if_splits)

lemma decode_command_extension_wf: "decode_command_extension c p = Ok r \<Longrightarrow> response_wf r"
  by (auto simp: decode_command_extension_def outcome_iffs response_wf_def parameter_wf_from_raw
      dest: decoded_wf split: if_splits)

lemma length_write_states [simp]: "length (write_states s v) = length s"
  by (induction s v rule: write_states.induct) auto

lemma decode_scene_contact_wf: "decode_scene_contact c p = Ok r \<Longrightarrow> response_wf r"
  by (auto simp: decode_scene_contact_def outcome_iffs decode_lists_wf Let_def split: if_splits)
    (auto simp: response_wf_def dest: decoded_wf)

lemma decode_activation_log_wf: "decode_activation_log c p = Ok r \<Longrightarrow> response_wf r"
  by (auto simp: decode_activation_log_def outcome_iffs response_wf_def parameter_wf_from_raw
      dest: decoded_wf split: if_splits)

lemma decode_command_run_status_wf:
  "decode_command_run_status p c = Ok r \<Longrightarrow> response_wf (CommandRunStatus r)"
  by (auto simp: decode_command_run_status_def outcome_iffs response_wf_def parameter_wf_from_raw
      dest: decoded_wf split: if_splits)

lemma decode_status_notification_wf:
  "decode_status_notification p c = Ok r \<Longrightarrow> response_wf (StatusNotification r)"
  by (auto simp: decode_status_notification_def outcome_iffs response_wf_def
      dest: decoded_wf decode_status_detail_wf [rotated] split: if_splits)

lemma decode_core_wf: "decode_core c p = Ok r \<Longrightarrow> response_wf r"
  unfolding decode_core_def
  by (auto simp: outcome_iffs decode_session_status_def decode_gateway_wf
      decode_command_run_status_wf decode_status_notification_wf split: if_splits)
    (auto simp: response_wf_def dest: decoded_wf decode_node_information_wf decode_node_state_wf)

lemma Response_decode_wf: "Response_decode f = Ok r \<Longrightarrow> response_wf r"
  by (auto simp: Response_decode_def Let_def decode_configuration_wf decode_node_group_wf
      decode_command_extension_wf decode_scene_contact_wf decode_activation_log_wf decode_core_wf
      split: if_splits)

section \<open>Which commands are decoded\<close>

text \<open>The commands each family decodes.\<close>

definition gateway_commands :: "CommandId list" where
  "gateway_commands =
     [GW_ERROR_NTF, GW_SET_NETWORK_SETUP_CFM, GW_SET_UTC_CFM, GW_PASSWORD_ENTER_CFM,
      GW_PASSWORD_CHANGE_CFM, GW_PASSWORD_CHANGE_NTF, GW_GET_VERSION_CFM,
      GW_GET_PROTOCOL_VERSION_CFM, GW_GET_STATE_CFM, GW_LEAVE_LEARN_STATE_CFM,
      GW_RTC_SET_TIME_ZONE_CFM, GW_GET_NETWORK_SETUP_CFM, GW_GET_LOCAL_TIME_CFM]"

definition configuration_commands :: "CommandId list" where
  "configuration_commands =
     [GW_CS_GET_SYSTEMTABLE_DATA_CFM, GW_CS_DISCOVER_NODES_CFM, GW_CS_VIRGIN_STATE_CFM,
      GW_CS_CONTROLLER_COPY_CFM, GW_CS_CONTROLLER_COPY_CANCEL_NTF, GW_CS_RECEIVE_KEY_CFM,
      GW_CS_GENERATE_NEW_KEY_CFM, GW_CS_REPAIR_KEY_CFM, GW_CS_GET_SYSTEMTABLE_DATA_NTF,
      GW_CS_DISCOVER_NODES_NTF, GW_CS_REMOVE_NODES_CFM, GW_CS_CONTROLLER_COPY_NTF,
      GW_CS_RECEIVE_KEY_NTF, GW_CS_GENERATE_NEW_KEY_NTF, GW_CS_REPAIR_KEY_NTF,
      GW_CS_PGC_JOB_NTF, GW_CS_SYSTEM_TABLE_UPDATE_NTF, GW_CS_ACTIVATE_CONFIGURATION_MODE_CFM]"

definition node_group_commands :: "CommandId list" where
  "node_group_commands =
     [GW_SET_NODE_VARIATION_CFM, GW_SET_NODE_NAME_CFM, GW_SET_NODE_ORDER_AND_PLACEMENT_CFM,
      GW_GET_GROUP_INFORMATION_CFM, GW_SET_GROUP_INFORMATION_CFM, GW_NEW_GROUP_CFM,
      GW_DELETE_GROUP_CFM, GW_GET_GROUP_INFORMATION_NTF, GW_GET_ALL_GROUPS_INFORMATION_NTF,
      GW_GROUP_INFORMATION_CHANGED_NTF, GW_GET_ALL_GROUPS_INFORMATION_CFM,
      GW_GET_ALL_GROUPS_INFORMATION_FINISHED_NTF, GW_GROUP_DELETED_NTF]"

definition command_extension_commands :: "CommandId list" where
  "command_extension_commands =
     [GW_WINK_SEND_CFM, GW_SET_LIMITATION_CFM, GW_GET_LIMITATION_STATUS_CFM, GW_MODE_SEND_CFM,
      GW_WINK_SEND_NTF, GW_LIMITATION_STATUS_NTF, GW_MODE_SEND_NTF]"

definition scene_contact_commands :: "CommandId list" where
  "scene_contact_commands =
     [GW_INITIALIZE_SCENE_CFM, GW_INITIALIZE_SCENE_CANCEL_CFM, GW_RECORD_SCENE_CFM,
      GW_INITIALIZE_SCENE_NTF, GW_RECORD_SCENE_NTF, GW_DELETE_SCENE_CFM, GW_RENAME_SCENE_CFM,
      GW_GET_SCENE_INFOAMATION_CFM, GW_GET_SCENE_LIST_CFM, GW_GET_SCENE_LIST_NTF,
      GW_GET_SCENE_INFOAMATION_NTF, GW_ACTIVATE_SCENE_CFM, GW_STOP_SCENE_CFM,
      GW_SCENE_INFORMATION_CHANGED_NTF, GW_ACTIVATE_PRODUCTGROUP_CFM,
      GW_ACTIVATE_PRODUCTGROUP_NTF, GW_GET_CONTACT_INPUT_LINK_LIST_CFM,
      GW_SET_CONTACT_INPUT_LINK_CFM, GW_REMOVE_CONTACT_INPUT_LINK_CFM]"

definition activation_log_commands :: "CommandId list" where
  "activation_log_commands =
     [GW_GET_ACTIVATION_LOG_HEADER_CFM, GW_CLEAR_ACTIVATION_LOG_CFM,
      GW_ACTIVATION_LOG_UPDATED_NTF, GW_GET_ACTIVATION_LOG_LINE_CFM,
      GW_GET_MULTIPLE_ACTIVATION_LOG_LINES_NTF, GW_GET_MULTIPLE_ACTIVATION_LOG_LINES_CFM]"

definition core_commands :: "CommandId list" where
  "core_commands =
     [GW_REBOOT_CFM, GW_SET_FACTORY_DEFAULT_CFM, GW_HOUSE_STATUS_MONITOR_ENABLE_CFM,
      GW_HOUSE_STATUS_MONITOR_DISABLE_CFM, GW_GET_ALL_NODES_INFORMATION_FINISHED_NTF,
      GW_ERROR_NTF, GW_SET_NETWORK_SETUP_CFM, GW_SET_UTC_CFM, GW_PASSWORD_ENTER_CFM,
      GW_PASSWORD_CHANGE_CFM, GW_PASSWORD_CHANGE_NTF, GW_GET_VERSION_CFM,
      GW_GET_PROTOCOL_VERSION_CFM, GW_GET_STATE_CFM, GW_LEAVE_LEARN_STATE_CFM,
      GW_RTC_SET_TIME_ZONE_CFM, GW_GET_NETWORK_SETUP_CFM, GW_GET_LOCAL_TIME_CFM,
      GW_GET_NODE_INFORMATION_CFM, GW_GET_ALL_NODES_INFORMATION_CFM,
      GW_GET_NODE_INFORMATION_NTF, GW_GET_ALL_NODES_INFORMATION_NTF,
      GW_NODE_INFORMATION_CHANGED_NTF, GW_NODE_STATE_POSITION_CHANGED_NTF, GW_COMMAND_SEND_CFM,
      GW_COMMAND_RUN_STATUS_NTF, GW_COMMAND_REMAINING_TIME_NTF, GW_SESSION_FINISHED_NTF,
      GW_STATUS_REQUEST_CFM, GW_STATUS_REQUEST_NTF]"

text \<open>A frame is preserved as unknown exactly when its command is none of the family's own.\<close>

lemma lists_not_unknown [simp]:
  "decode_system_table_data p c \<noteq> Ok (UnknownResponse d q)"
  "decode_scene_list p c \<noteq> Ok (UnknownResponse d q)"
  "decode_scene_information p c \<noteq> Ok (UnknownResponse d q)"
  "decode_contact_input_links p c \<noteq> Ok (UnknownResponse d q)"
  by (auto simp: decode_system_table_data_def decode_scene_list_def decode_scene_information_def
      decode_contact_input_links_def outcome_iffs Let_def)

lemma unknown_gateway:
  "decode_gateway c p = Ok (UnknownResponse d q) \<longleftrightarrow> d = c \<and> q = p \<and> c \<notin> set gateway_commands"
  by (auto simp: decode_gateway_def gateway_commands_def outcome_iffs Let_def)

lemma unknown_configuration:
  "decode_configuration c p = Ok (UnknownResponse d q) \<longleftrightarrow> d = c \<and> q = p \<and> c \<notin> set configuration_commands"
  by (auto simp: decode_configuration_def configuration_commands_def outcome_iffs Let_def)

lemma unknown_node_group:
  "decode_node_group c p = Ok (UnknownResponse d q) \<longleftrightarrow> d = c \<and> q = p \<and> c \<notin> set node_group_commands"
  by (auto simp: decode_node_group_def node_group_commands_def outcome_iffs Let_def)

lemma unknown_command_extension:
  "decode_command_extension c p = Ok (UnknownResponse d q) \<longleftrightarrow> d = c \<and> q = p \<and> c \<notin> set command_extension_commands"
  by (auto simp: decode_command_extension_def command_extension_commands_def outcome_iffs Let_def)

lemma unknown_scene_contact:
  "decode_scene_contact c p = Ok (UnknownResponse d q) \<longleftrightarrow> d = c \<and> q = p \<and> c \<notin> set scene_contact_commands"
  by (auto simp: decode_scene_contact_def scene_contact_commands_def outcome_iffs Let_def)

lemma unknown_activation_log:
  "decode_activation_log c p = Ok (UnknownResponse d q) \<longleftrightarrow> d = c \<and> q = p \<and> c \<notin> set activation_log_commands"
  by (auto simp: decode_activation_log_def activation_log_commands_def outcome_iffs Let_def)

lemma unknown_core:
  "decode_core c p = Ok (UnknownResponse d q) \<longleftrightarrow> d = c \<and> q = p \<and> c \<notin> set core_commands"
  by (auto simp: decode_core_def core_commands_def outcome_iffs Let_def unknown_gateway gateway_commands_def decode_session_status_def)

definition handled :: "CommandId \<Rightarrow> bool" where
  "handled c \<longleftrightarrow>
     (let r = raw c
      in c \<in> set (if 0x0100 \<le> r \<and> r \<le> 0x011A then configuration_commands
           else if 0x0206 \<le> r \<and> r \<le> 0x0209 \<or> 0x020D \<le> r \<and> r \<le> 0x020E \<or> 0x0220 \<le> r \<and> r \<le> 0x0230
             then node_group_commands
           else if 0x0308 \<le> r \<and> r \<le> 0x0322 then command_extension_commands
           else if 0x0400 \<le> r \<and> r \<le> 0x0465 then scene_contact_commands
           else if 0x0500 \<le> r \<and> r \<le> 0x0509 then activation_log_commands
           else core_commands))"

lemma Response_decode_unknown_iff:
  "Response_decode f = Ok (UnknownResponse c p) \<longleftrightarrow>
     c = frame_command f \<and> p = frame_payload f \<and> \<not> handled (frame_command f)"
  unfolding Response_decode_def handled_def Let_def
  by (simp add: unknown_configuration unknown_node_group unknown_command_extension
      unknown_scene_contact unknown_activation_log unknown_core)

lemmas family_commands = configuration_commands_def node_group_commands_def
  command_extension_commands_def scene_contact_commands_def activation_log_commands_def core_commands_def

lemma confirmations_handled: "list_all handled (map snd confirmed_commands)"
  by (simp add: confirmed_commands_def handled_def family_commands)

lemma notifications_handled: "list_all handled notifications"
  by (simp add: notifications_def handled_def family_commands)

lemma handled_if_known_response:
  "kind c = ConfirmationKind \<or> kind c = NotificationKind \<Longrightarrow> handled c"
  using confirmations_handled notifications_handled
  by (auto simp: kind_Confirmation_iff kind_Notification_iff list_all_iff)

section \<open>Payload lengths are enforced\<close>

text \<open>The responses whose payload has one length, and that length.\<close>

definition response_lengths :: "(CommandId \<times> nat) list" where
  "response_lengths =
     [(GW_ERROR_NTF, 1), (GW_SET_NETWORK_SETUP_CFM, 0), (GW_SET_UTC_CFM, 0),
      (GW_PASSWORD_ENTER_CFM, 1), (GW_PASSWORD_CHANGE_CFM, 1), (GW_PASSWORD_CHANGE_NTF, 32),
      (GW_GET_VERSION_CFM, 9), (GW_GET_PROTOCOL_VERSION_CFM, 4), (GW_GET_STATE_CFM, 6),
      (GW_LEAVE_LEARN_STATE_CFM, 1), (GW_RTC_SET_TIME_ZONE_CFM, 1),
      (GW_GET_NETWORK_SETUP_CFM, 13), (GW_GET_LOCAL_TIME_CFM, 15),
      (GW_CS_GET_SYSTEMTABLE_DATA_CFM, 0), (GW_CS_DISCOVER_NODES_CFM, 0),
      (GW_CS_VIRGIN_STATE_CFM, 0), (GW_CS_CONTROLLER_COPY_CFM, 0),
      (GW_CS_CONTROLLER_COPY_CANCEL_NTF, 0), (GW_CS_RECEIVE_KEY_CFM, 0),
      (GW_CS_GENERATE_NEW_KEY_CFM, 0), (GW_CS_REPAIR_KEY_CFM, 0),
      (GW_CS_DISCOVER_NODES_NTF, 131), (GW_CS_REMOVE_NODES_CFM, 1),
      (GW_CS_CONTROLLER_COPY_NTF, 2), (GW_CS_RECEIVE_KEY_NTF, 53),
      (GW_CS_GENERATE_NEW_KEY_NTF, 53), (GW_CS_REPAIR_KEY_NTF, 53), (GW_CS_PGC_JOB_NTF, 3),
      (GW_CS_SYSTEM_TABLE_UPDATE_NTF, 52), (GW_CS_ACTIVATE_CONFIGURATION_MODE_CFM, 79),
      (GW_SET_NODE_VARIATION_CFM, 2), (GW_SET_NODE_NAME_CFM, 2),
      (GW_SET_NODE_ORDER_AND_PLACEMENT_CFM, 2), (GW_GET_GROUP_INFORMATION_CFM, 2),
      (GW_SET_GROUP_INFORMATION_CFM, 2), (GW_NEW_GROUP_CFM, 2), (GW_DELETE_GROUP_CFM, 2),
      (GW_GET_ALL_GROUPS_INFORMATION_CFM, 2), (GW_GET_ALL_GROUPS_INFORMATION_FINISHED_NTF, 0),
      (GW_GROUP_DELETED_NTF, 1), (GW_WINK_SEND_CFM, 3), (GW_SET_LIMITATION_CFM, 3),
      (GW_GET_LIMITATION_STATUS_CFM, 3), (GW_MODE_SEND_CFM, 3), (GW_WINK_SEND_NTF, 2),
      (GW_LIMITATION_STATUS_NTF, 10), (GW_INITIALIZE_SCENE_CFM, 1),
      (GW_INITIALIZE_SCENE_CANCEL_CFM, 1), (GW_RECORD_SCENE_CFM, 1),
      (GW_INITIALIZE_SCENE_NTF, 26), (GW_RECORD_SCENE_NTF, 2), (GW_DELETE_SCENE_CFM, 2),
      (GW_RENAME_SCENE_CFM, 2), (GW_GET_SCENE_INFOAMATION_CFM, 2), (GW_GET_SCENE_LIST_CFM, 1),
      (GW_ACTIVATE_SCENE_CFM, 3), (GW_STOP_SCENE_CFM, 3),
      (GW_SCENE_INFORMATION_CHANGED_NTF, 2), (GW_ACTIVATE_PRODUCTGROUP_CFM, 3),
      (GW_SET_CONTACT_INPUT_LINK_CFM, 2), (GW_REMOVE_CONTACT_INPUT_LINK_CFM, 2),
      (GW_GET_ACTIVATION_LOG_HEADER_CFM, 4), (GW_CLEAR_ACTIVATION_LOG_CFM, 0),
      (GW_ACTIVATION_LOG_UPDATED_NTF, 0), (GW_GET_ACTIVATION_LOG_LINE_CFM, 17),
      (GW_GET_MULTIPLE_ACTIVATION_LOG_LINES_NTF, 17),
      (GW_GET_MULTIPLE_ACTIVATION_LOG_LINES_CFM, 3), (GW_REBOOT_CFM, 0),
      (GW_SET_FACTORY_DEFAULT_CFM, 0), (GW_HOUSE_STATUS_MONITOR_ENABLE_CFM, 0),
      (GW_HOUSE_STATUS_MONITOR_DISABLE_CFM, 0), (GW_GET_ALL_NODES_INFORMATION_FINISHED_NTF, 0),
      (GW_GET_NODE_INFORMATION_CFM, 2), (GW_GET_ALL_NODES_INFORMATION_CFM, 2),
      (GW_GET_NODE_INFORMATION_NTF, 124), (GW_GET_ALL_NODES_INFORMATION_NTF, 124),
      (GW_NODE_INFORMATION_CHANGED_NTF, 69), (GW_NODE_STATE_POSITION_CHANGED_NTF, 20),
      (GW_COMMAND_RUN_STATUS_NTF, 13), (GW_COMMAND_REMAINING_TIME_NTF, 6),
      (GW_SESSION_FINISHED_NTF, 2), (GW_COMMAND_SEND_CFM, 3), (GW_STATUS_REQUEST_CFM, 3),
      (GW_GET_GROUP_INFORMATION_NTF, 99), (GW_GET_ALL_GROUPS_INFORMATION_NTF, 99)]"

lemma response_lengths_enforced:
  "list_all (\<lambda>(c, n). length p \<noteq> n \<longrightarrow>
      Response_decode \<lparr>frame_protocol_id = i, frame_command = c, frame_payload = p\<rparr>
        = Err (length_error c n (length p))) response_lengths"
  by (simp add: response_lengths_def Response_decode_def decode_configuration_def decode_node_group_def
      decode_command_extension_def decode_scene_contact_def decode_activation_log_def decode_core_def
      decode_gateway_def decode_version_def decode_node_information_def decode_node_state_def
      decode_command_run_status_def decode_session_status_def decode_group_information_def)

section \<open>Round trips with the request encoders\<close>

lemmas two_Suc = numeral_2_eq_2 [symmetric]

lemma list4_nth: "length xs = 4 \<Longrightarrow> [xs ! 0, xs ! Suc 0, xs ! 2, xs ! 3] = xs"
  by (auto simp: numeral_eq_Suc length_Suc_conv)

lemma list5_nth: "length xs = 5 \<Longrightarrow> [xs ! 0, xs ! Suc 0, xs ! 2, xs ! 3, xs ! 4] = xs"
  by (auto simp: numeral_eq_Suc length_Suc_conv)

lemma decode_encode_node_set:
  assumes "node_set_wf n"
  shows "decode_node_set (encode_node_set n) 0 = Ok n"
  using assms
  by (simp add: node_set_wf_def actuators_wf_def ACTUATOR_BYTES_def ACTUATOR_COUNT_def
      encode_node_set_def Let_def wire_simps NodeSet_new_def BeaconSet_from_byte_wf)

lemma decode_encode_group_information:
  assumes "group_wf g" "encode_group_information g = Ok p"
  shows "decode_group_information p c = Ok g"
proof -
  obtain name where name: "encode_fixed_string 64 (gi_name g) = Ok name"
    using assms(2) by (auto simp: encode_group_information_def outcome_iffs Let_def)
  have len: "length name = 64" "length (act_bytes (gi_actuators g)) = 25"
    using assms(1) length_encode_fixed_string [OF name]
    by (simp_all add: group_wf_def actuators_wf_def ACTUATOR_BYTES_def ACTUATOR_COUNT_def)
  have str: "decode_fixed_string name = Ok (gi_name g)"
    using decode_encode_fixed_string [OF name] assms(1) by (simp add: group_wf_def)
  show ?thesis using assms(2) len str name
    by (cases g) (auto simp: encode_group_information_def decode_group_information_def Let_def
        nth_write_bytes wire_simps ActuatorSet_from_bytes_def two_Suc)
qed

lemma decode_encode_network_setup:
  assumes "network_setup_wf s"
  shows "Response_decode (Frame_new GW_GET_NETWORK_SETUP_CFM (encode_network_setup s)) = Ok (NetworkSetup s)"
  using assms
  by (cases s) (simp add: Response_decode_def Frame_new_def decode_core_def decode_gateway_def
      encode_network_setup_def Let_def network_setup_wf_def read_array_def nth_write_bytes list4_nth
      u8_from_bool_def)

lemma decode_encode_contact_input_link:
  assumes "contact_link_wf l" "encode_contact_input_link l = Ok p"
  shows "decode_contact_input_link p 0 = Ok l"
  using assms
  by (cases l) (auto simp: encode_contact_input_link_def decode_contact_input_link_def outcome_iffs
      Let_def contact_link_wf_def read_array_def nth_write_bytes list5_nth from_raw_to_raw two_Suc)

lemma decode_password_notification:
  assumes "encode_fixed_string 32 s = Ok p" "str_valid s"
  shows "Response_decode (Frame_new GW_PASSWORD_CHANGE_NTF p)
      = Ok (PasswordChangedNotification \<lparr>pcn_new_password = s\<rparr>)"
  using decode_encode_fixed_string [OF assms] length_encode_fixed_string [OF assms(1)]
  by (simp add: Response_decode_def Frame_new_def decode_core_def decode_gateway_def)

section \<open>Properties\<close>

text \<open>
  C21. Decoding a received frame never indexes or slices out of range, whatever its command and its
  payload: the outcome is a response or an error.
\<close>

theorem decoding_never_panics:
  "Response_decode f \<in> range Ok \<union> range Err"
  using Response_decode_not_Panic [of f] by (cases "Response_decode f") auto

text \<open>
  C25. A decoded response is well formed: session identifiers are not zero, names are valid UTF-8, also
  those of the scenes of a list, bit sets and arrays have their size, also those of the entries of a
  system table, positions are canonical, also those of the nodes of a scene and of contact-input links,
  lists are within their bounds, and a changed group names itself.
\<close>

theorem decoded_response_well_formed:
  assumes "Response_decode f = Ok r"
  shows "response_wf r"
  by (rule Response_decode_wf [OF assms])

text \<open>The list of a gateway with one scene, the seventh, called Day.\<close>

theorem decoded_response_well_formed_witness:
  "response_wf (SceneList \<lparr>slst_scenes = [\<lparr>sum_scene_id = 7, sum_name = ''Day''\<rparr>], slst_remaining_scenes = 0\<rparr>)
   \<and> str_valid ''Day''"
proof -
  let ?l = "SceneList \<lparr>slst_scenes = [\<lparr>sum_scene_id = 7, sum_name = ''Day''\<rparr>], slst_remaining_scenes = 0\<rparr>"
  let ?p = "[1, 7, 68, 97, 121] @ replicate 61 0 @ [0]"
  have "decode_scene_summary ?p 0 = Ok \<lparr>sum_scene_id = 7, sum_name = ''Day''\<rparr>"
    by code_simp
  then have "Response_decode (Frame_new GW_GET_SCENE_LIST_NTF ?p) = Ok ?l"
    by (simp add: Response_decode_def Frame_new_def decode_scene_contact_def decode_scene_list_def Let_def
        nth_append)
  then have "response_wf ?l" by (rule decoded_response_well_formed)
  then show ?thesis by (simp add: response_wf_def scene_summary_wf_def)
qed

text \<open>
  Every confirmation and every notification of the protocol is decoded: only frames of other
  commands are passed on as unknown, and those with their payload untouched.
\<close>

theorem known_responses_are_decoded:
  assumes "kind (frame_command f) = ConfirmationKind \<or> kind (frame_command f) = NotificationKind"
  shows "Response_decode f \<noteq> Ok (UnknownResponse c p)"
  using handled_if_known_response [OF assms] by (simp add: Response_decode_unknown_iff)

theorem known_responses_are_decoded_witness:
  "Response_decode (Frame_new GW_GET_STATE_CFM [1, 2]) \<noteq> Ok (UnknownResponse GW_GET_STATE_CFM [1, 2])"
  by (rule known_responses_are_decoded)
    (simp add: Frame_new_def kind_Confirmation_iff confirmed_commands_def)

text \<open>
  A frame whose payload does not have the length of its command is rejected with the error that
  says so: a truncated payload when it is short, an invalid length when it is long.
\<close>

theorem wrong_payload_length_rejected:
  assumes "(c, n) \<in> set response_lengths" "length p \<noteq> n"
  shows "Response_decode (Frame_new c p) =
     Err (if length p < n then TruncatedPayload c n (length p) else InvalidPayloadLength c n (length p))"
  using response_lengths_enforced [of p KLF_PROTOCOL_ID] assms
  by (auto simp: list_all_iff Frame_new_def length_error_def)

theorem wrong_payload_length_rejected_witness:
  "Response_decode (Frame_new GW_ERROR_NTF [1, 2]) =
     Err (if length [1, 2 :: u8] < 1 then TruncatedPayload GW_ERROR_NTF 1 (length [1, 2 :: u8])
          else InvalidPayloadLength GW_ERROR_NTF 1 (length [1, 2 :: u8]))"
  by (rule wrong_payload_length_rejected) (simp_all add: response_lengths_def)

text \<open>
  C26. What the client writes about groups, networks, node sets and contact inputs reads back as it
  was: the encoders of the requests and the decoders of the responses agree on the layouts.
\<close>

theorem layouts_round_trip:
  assumes "group_wf g" "encode_group_information g = Ok p"
    "contact_link_wf l" "encode_contact_input_link l = Ok q" "network_setup_wf s" "node_set_wf n"
  shows "decode_group_information p c = Ok g \<and> decode_contact_input_link q 0 = Ok l
     \<and> Response_decode (Frame_new GW_GET_NETWORK_SETUP_CFM (encode_network_setup s)) = Ok (NetworkSetup s)
     \<and> decode_node_set (encode_node_set n) 0 = Ok n"
  using decode_encode_group_information [OF assms(1,2)] decode_encode_contact_input_link [OF assms(3,4)]
    decode_encode_network_setup [OF assms(5)] decode_encode_node_set [OF assms(6)]
  by simp

definition example_group :: GroupInformation where
  "example_group =
     \<lparr>gi_group_id = GroupId 2, gi_order = 513, gi_placement = 1, gi_name = ''south'', gi_velocity = 0,
      gi_node_variation = 0, gi_group_type = 0, gi_object_count = 1,
      gi_actuators = fst (ActuatorSet_insert ActuatorSet_new 3), gi_revision = 7\<rparr>"

definition example_link :: ContactInputLink where
  "example_link =
     \<lparr>ci_contact_input_id = 1, ci_assignment = 1, ci_action_id = 2, ci_command_originator = 1,
      ci_priority_level = 3, ci_parameter_id = 0, ci_position = Relative FULLY_CLOSED, ci_velocity = 0,
      ci_lock_priority_level = 0, ci_priority_level_settings = [0, 1, 2, 3, 0],
      ci_success_output_id = 0, ci_error_output_id = 0\<rparr>"

lemma example_group_wf: "group_wf example_group"
  by (simp add: group_wf_def example_group_def ActuatorSet_wf_ops actuators_wf_def ActuatorSet_new_def
      str_valid_def as_bytes_def actuator_defs Let_def)

lemma example_group_encoded: "\<exists>p. encode_group_information example_group = Ok p"
  by (simp add: encode_group_information_def example_group_def encode_fixed_string_def as_bytes_def Let_def)

lemma example_link_encoded: "\<exists>q. encode_contact_input_link example_link = Ok q"
  by (simp add: encode_contact_input_link_def example_link_def validate_priority_settings_def Let_def)

theorem layouts_round_trip_witness:
  "\<exists>p q. decode_group_information p GW_GET_GROUP_INFORMATION_NTF = Ok example_group
     \<and> decode_contact_input_link q 0 = Ok example_link
     \<and> Response_decode (Frame_new GW_GET_NETWORK_SETUP_CFM (encode_network_setup
          \<lparr>net_ip_address = [10, 0, 0, 2], net_subnet_mask = [255, 0, 0, 0],
           net_default_gateway = [10, 0, 0, 1], net_dhcp = True\<rparr>))
        = Ok (NetworkSetup \<lparr>net_ip_address = [10, 0, 0, 2], net_subnet_mask = [255, 0, 0, 0],
           net_default_gateway = [10, 0, 0, 1], net_dhcp = True\<rparr>)
     \<and> decode_node_set (encode_node_set (NodeSet_new ActuatorSet_new (BeaconSet 5))) 0
        = Ok (NodeSet_new ActuatorSet_new (BeaconSet 5))"
proof -
  obtain p q where p: "encode_group_information example_group = Ok p"
    and q: "encode_contact_input_link example_link = Ok q"
    using example_group_encoded example_link_encoded by blast
  have "decode_group_information p GW_GET_GROUP_INFORMATION_NTF = Ok example_group
     \<and> decode_contact_input_link q 0 = Ok example_link
     \<and> Response_decode (Frame_new GW_GET_NETWORK_SETUP_CFM (encode_network_setup
          \<lparr>net_ip_address = [10, 0, 0, 2], net_subnet_mask = [255, 0, 0, 0],
           net_default_gateway = [10, 0, 0, 1], net_dhcp = True\<rparr>))
        = Ok (NetworkSetup \<lparr>net_ip_address = [10, 0, 0, 2], net_subnet_mask = [255, 0, 0, 0],
           net_default_gateway = [10, 0, 0, 1], net_dhcp = True\<rparr>)
     \<and> decode_node_set (encode_node_set (NodeSet_new ActuatorSet_new (BeaconSet 5))) 0
        = Ok (NodeSet_new ActuatorSet_new (BeaconSet 5))"
    by (rule layouts_round_trip [OF example_group_wf p _ q])
      (simp_all add: contact_link_wf_def example_link_def FULLY_CLOSED_def network_setup_wf_def
        node_set_wf_def NodeSet_new_def actuators_wf_def ActuatorSet_new_def beacons_wf_def BEACON_MASK_def)
  then show ?thesis by blast
qed

end
