(* ===== verification/Slip.thy ===== *)
theory Slip
  imports Klf_Error
begin

text \<open>
  The SLIP framing layer (\<open>src/klf200/slip.rs\<close>): \<open>slip_encode\<close> escapes and delimits one frame, and
  \<open>decoder\<close> is the streaming decoder, whose \<open>push\<close> consumes one chunk of received bytes and returns
  the frames and errors completed by it.
\<close>

section \<open>Encoding\<close>

definition END_BYTE :: u8 where "END_BYTE = 0xC0"
definition ESC :: u8 where "ESC = 0xDB"
definition ESC_END :: u8 where "ESC_END = 0xDC"
definition ESC_ESC :: u8 where "ESC_ESC = 0xDD"

definition DEFAULT_MAX_FRAME_LENGTH :: nat where "DEFAULT_MAX_FRAME_LENGTH = 1024"

lemmas slip_consts = END_BYTE_def ESC_def ESC_END_def ESC_ESC_def

definition escape_byte :: "u8 \<Rightarrow> u8 list" where
  "escape_byte b =
     (if b = END_BYTE then [ESC, ESC_END] else if b = ESC then [ESC, ESC_ESC] else [b])"

definition slip_encode :: "u8 list \<Rightarrow> u8 list" where
  "slip_encode frame = END_BYTE # concat (map escape_byte frame) @ [END_BYTE]"

section \<open>The streaming decoder\<close>

record decoder =
  buffer :: "u8 list"
  maximum_length :: nat
  started :: bool
  escaped :: bool
  discarding :: bool

definition decoder_new :: "nat \<Rightarrow> decoder" where
  "decoder_new m =
     \<lparr>buffer = [], maximum_length = m, started = False, escaped = False, discarding = False\<rparr>"

definition decoder_default :: decoder where
  "decoder_default = decoder_new DEFAULT_MAX_FRAME_LENGTH"

type_synonym slip_item = "(klf_error, u8 list) outcome"

text \<open>The tail of the loop body: store one unescaped byte, or start discarding an oversized frame.\<close>

definition store_byte :: "decoder \<Rightarrow> u8 \<Rightarrow> decoder \<times> slip_item list" where
  "store_byte d b =
     (if length (buffer d) = maximum_length d
      then (d\<lparr>buffer := [], discarding := True\<rparr>, [Err (SlipFrameTooLarge (maximum_length d))])
      else (d\<lparr>buffer := buffer d @ [b]\<rparr>, []))"

text \<open>One iteration of the loop of \<open>Decoder::push\<close>, with what it appends to \<open>decoded\<close>.\<close>

definition push_byte :: "decoder \<Rightarrow> u8 \<Rightarrow> decoder \<times> slip_item list" where
  "push_byte d byte =
     (if byte = END_BYTE then
        (if \<not> started d then
           (d\<lparr>started := True, buffer := [], escaped := False, discarding := False\<rparr>, [])
         else if escaped d \<and> \<not> discarding d then
           (d\<lparr>buffer := [], escaped := False, discarding := False\<rparr>, [Err IncompleteSlipEscape])
         else if \<not> discarding d \<and> buffer d \<noteq> [] then
           (d\<lparr>buffer := [], escaped := False, discarding := False\<rparr>, [Ok (buffer d)])
         else (d\<lparr>buffer := [], escaped := False, discarding := False\<rparr>, []))
      else if \<not> started d \<or> discarding d then (d, [])
      else if escaped d then
        (if byte = ESC_END then store_byte (d\<lparr>escaped := False\<rparr>) END_BYTE
         else if byte = ESC_ESC then store_byte (d\<lparr>escaped := False\<rparr>) ESC
         else (d\<lparr>escaped := False, buffer := [], discarding := True\<rparr>, [Err (InvalidSlipEscape byte)]))
      else if byte = ESC then (d\<lparr>escaped := True\<rparr>, [])
      else store_byte d byte)"

fun push :: "decoder \<Rightarrow> u8 list \<Rightarrow> decoder \<times> slip_item list" where
  "push d [] = (d, [])"
| "push d (byte # input) =
     (let (d', out) = push_byte d byte; (d'', out') = push d' input in (d'', out @ out'))"

section \<open>Invariants\<close>

text \<open>The decoder buffers at most \<open>maximum_length\<close> bytes, and nothing while it discards or waits.\<close>

definition decoder_inv :: "decoder \<Rightarrow> bool" where
  "decoder_inv d \<longleftrightarrow> length (buffer d) \<le> maximum_length d
     \<and> (discarding d \<longrightarrow> buffer d = [] \<and> started d \<and> \<not> escaped d)
     \<and> (\<not> started d \<longrightarrow> buffer d = [] \<and> \<not> escaped d)"

text \<open>Between frames: delimited, nothing buffered.\<close>

definition idle :: "nat \<Rightarrow> decoder" where
  "idle m = \<lparr>buffer = [], maximum_length = m, started = True, escaped = False, discarding = False\<rparr>"

lemma decoder_inv_new: "decoder_inv (decoder_new m)"
  by (simp add: decoder_inv_def decoder_new_def)

lemma decoder_inv_idle: "decoder_inv (idle m)"
  by (simp add: decoder_inv_def idle_def)

lemma push_byte_inv:
  "decoder_inv d \<Longrightarrow> decoder_inv (fst (push_byte d b))"
  by (auto simp: decoder_inv_def push_byte_def store_byte_def)

lemma push_byte_maximum_length [simp]:
  "maximum_length (fst (push_byte d b)) = maximum_length d"
  by (simp add: push_byte_def store_byte_def)

lemma push_Cons:
  "push d (b # bs) =
     (fst (push (fst (push_byte d b)) bs), snd (push_byte d b) @ snd (push (fst (push_byte d b)) bs))"
  by (simp add: case_prod_unfold Let_def)

declare push.simps(2) [simp del]

lemma push_inv: "decoder_inv d \<Longrightarrow> decoder_inv (fst (push d bs))"
  by (induction bs arbitrary: d) (auto simp: push_Cons push_byte_inv)

lemma push_maximum_length [simp]: "maximum_length (fst (push d bs)) = maximum_length d"
  by (induction bs arbitrary: d) (auto simp: push_Cons)

text \<open>Feeding two chunks one after the other is feeding their concatenation.\<close>

lemma push_append:
  "push d (xs @ ys) = (fst (push (fst (push d xs)) ys), snd (push d xs) @ snd (push (fst (push d xs)) ys))"
  by (induction xs arbitrary: d) (auto simp: push_Cons)

section \<open>Decoding an encoded frame\<close>

text \<open>A decoder inside a frame.\<close>

definition receiving :: "decoder \<Rightarrow> bool" where
  "receiving d \<longleftrightarrow> started d \<and> \<not> escaped d \<and> \<not> discarding d"

lemma push_escape_byte:
  assumes "receiving d"
  shows "push d (escape_byte b) = store_byte d b"
  using assms by (auto simp: escape_byte_def push_Cons receiving_def push_byte_def store_byte_def slip_consts)

lemma push_discarding:
  assumes "started d" "discarding d" "END_BYTE \<notin> set bs"
  shows "push d bs = (d, [])"
  using assms by (induction bs) (auto simp: push_Cons push_byte_def)

lemma END_notin_escaped: "END_BYTE \<notin> set (concat (map escape_byte bs))"
  by (auto simp: escape_byte_def slip_consts split: if_splits)

lemma store_byte_receiving:
  "receiving d \<Longrightarrow> length (buffer d) < maximum_length d \<Longrightarrow>
     store_byte d b = (d\<lparr>buffer := buffer d @ [b]\<rparr>, [])"
  by (simp add: store_byte_def)

lemma push_escaped:
  assumes "receiving d" "length (buffer d) \<le> maximum_length d"
  shows "push d (concat (map escape_byte bs)) =
    (if length (buffer d) + length bs \<le> maximum_length d
     then (d\<lparr>buffer := buffer d @ bs\<rparr>, [])
     else (d\<lparr>buffer := [], discarding := True\<rparr>, [Err (SlipFrameTooLarge (maximum_length d))]))"
  using assms
proof (induction bs arbitrary: d)
  case Nil
  then show ?case by simp
next
  case (Cons b bs)
  have split: "push d (concat (map escape_byte (b # bs))) =
      (fst (push (fst (store_byte d b)) (concat (map escape_byte bs))),
       snd (store_byte d b) @ snd (push (fst (store_byte d b)) (concat (map escape_byte bs))))"
    using Cons.prems by (simp add: push_append push_escape_byte)
  show ?case
  proof (cases "length (buffer d) = maximum_length d")
    case True
    let ?d = "d\<lparr>buffer := [], discarding := True\<rparr>"
    have "push ?d (concat (map escape_byte bs)) = (?d, [])"
      using Cons.prems END_notin_escaped by (intro push_discarding) (simp_all add: receiving_def)
    then show ?thesis using True split by (simp add: store_byte_def)
  next
    case False
    let ?d = "d\<lparr>buffer := buffer d @ [b]\<rparr>"
    have "receiving ?d" "length (buffer ?d) \<le> maximum_length ?d"
      using Cons.prems False by (auto simp: receiving_def)
    then have "push ?d (concat (map escape_byte bs)) =
      (if length (buffer d) + Suc (length bs) \<le> maximum_length d
       then (d\<lparr>buffer := buffer d @ b # bs\<rparr>, [])
       else (d\<lparr>buffer := [], discarding := True\<rparr>, [Err (SlipFrameTooLarge (maximum_length d))]))"
      using Cons.IH by simp
    then show ?thesis using split False by (simp add: store_byte_def)
  qed
qed

lemma push_END:
  assumes "decoder_inv d"
  shows "fst (push_byte d END_BYTE) = idle (maximum_length d)"
  using assms by (auto simp: push_byte_def idle_def)

lemma push_body:
  "push (idle m) (concat (map escape_byte frame) @ [END_BYTE]) =
     (idle m,
      if frame = [] then []
      else if length frame \<le> m then [Ok frame] else [Err (SlipFrameTooLarge m)])"
proof -
  have "receiving (idle m)" by (simp add: receiving_def idle_def)
  then show ?thesis
    by (auto simp: push_append push_Cons push_escaped idle_def push_byte_def)
qed

text \<open>
  Whatever the decoder went through before, an encoded frame re-synchronises it: the leading
  delimiter ends what was pending, then exactly the frame (or the size error) comes out.
\<close>

lemma push_slip_encode:
  assumes "decoder_inv d"
  shows "push d (slip_encode frame) =
    (idle (maximum_length d),
     snd (push_byte d END_BYTE) @
       (if frame = [] then []
        else if length frame \<le> maximum_length d then [Ok frame]
        else [Err (SlipFrameTooLarge (maximum_length d))]))"
  using assms by (simp add: slip_encode_def push_Cons push_END push_body)

lemma push_byte_END_idle [simp]: "push_byte (idle m) END_BYTE = (idle m, [])"
  by (simp add: push_byte_def idle_def)

lemma push_byte_END_new [simp]: "push_byte (decoder_new m) END_BYTE = (idle m, [])"
  by (simp add: push_byte_def idle_def decoder_new_def)

lemma push_stream:
  assumes "\<And>f. f \<in> set frames \<Longrightarrow> f \<noteq> [] \<and> length f \<le> m"
  shows "push (idle m) (concat (map slip_encode frames)) = (idle m, map Ok frames)"
  using assms
proof (induction frames)
  case Nil
  then show ?case by simp
next
  case (Cons f fs)
  have "push (idle m) (slip_encode f) = (idle m, [Ok f])"
    using Cons.prems push_slip_encode [OF decoder_inv_idle, of m f]
    by (simp add: idle_def) (simp add: idle_def [symmetric])
  then show ?case using Cons by (simp add: push_append)
qed

text \<open>Every frame the decoder delivers is non-empty and within the configured bound.\<close>

lemma push_byte_delivers:
  "decoder_inv d \<Longrightarrow> Ok f \<in> set (snd (push_byte d b)) \<Longrightarrow> f \<noteq> [] \<and> length f \<le> maximum_length d"
  by (auto simp: push_byte_def store_byte_def decoder_inv_def split: if_splits)

lemma push_delivers:
  "decoder_inv d \<Longrightarrow> Ok f \<in> set (snd (push d bs)) \<Longrightarrow> f \<noteq> [] \<and> length f \<le> maximum_length d"
proof (induction bs arbitrary: d)
  case (Cons b bs)
  then show ?case
    using push_byte_delivers [of d f b] push_byte_inv [of d b] push_byte_maximum_length [of d b]
    by (metis UnE push_Cons set_append snd_conv)
qed simp

section \<open>Properties\<close>

text \<open>
  Wherever the decoder is, an encoded frame is delivered whole if it fits and reported as too
  large if it does not, nothing of it leaks into what follows, and the decoder is between frames
  afterwards.
\<close>

theorem slip_delivers_frame:
  assumes "decoder_inv d" "frame \<noteq> []"
  shows "push d (slip_encode frame) =
     (idle (maximum_length d),
      snd (push_byte d END_BYTE)
        @ [if length frame \<le> maximum_length d then Ok frame else Err (SlipFrameTooLarge (maximum_length d))])"
  using push_slip_encode [OF assms(1), of frame] assms(2) by simp

theorem slip_delivers_frame_witness:
  "push (decoder_new 4) (slip_encode [0xC0, 0xDB, 7]) =
     (idle (maximum_length (decoder_new 4)),
      snd (push_byte (decoder_new 4) END_BYTE)
        @ [if length [0xC0, 0xDB, 7 :: u8] \<le> maximum_length (decoder_new 4) then Ok [0xC0, 0xDB, 7]
           else Err (SlipFrameTooLarge (maximum_length (decoder_new 4)))])"
  by (rule slip_delivers_frame) (simp_all add: decoder_inv_new)

text \<open>
  The decoder does not depend on how its input is cut into chunks, and it buffers no more than
  its maximum length whatever it is fed.
\<close>

theorem slip_chunks_and_bound:
  "push d (xs @ ys) =
     (fst (push (fst (push d xs)) ys), snd (push d xs) @ snd (push (fst (push d xs)) ys))
   \<and> length (buffer (fst (push (decoder_new m) xs))) \<le> m"
  using push_append [of d xs ys] push_inv [OF decoder_inv_new, of m xs]
    push_maximum_length [of "decoder_new m" xs]
  by (auto simp: decoder_inv_def decoder_new_def)

end
