(* ===== verification/Klf_Display.thy ===== *)
theory Klf_Display
  imports Klf_Error Rust_Str
begin

text \<open>
  The texts of commands and errors (\<open>Display\<close> of \<open>CommandId\<close> in \<open>src/klf200/command_id.rs\<close> and the
  \<open>error\<close> attributes of \<open>src/klf200/error.rs\<close>), which the connection puts into its events.
\<close>

section \<open>Hexadecimal numbers\<close>

definition hex_digit :: "nat \<Rightarrow> nat \<Rightarrow> char" where
  "hex_digit letter_base d = (if d < 10 then char_of (48 + d) else char_of (letter_base + (d - 10)))"

text \<open>\<open>{:02x}\<close> of a byte and \<open>{:04X}\<close> of a 16-bit number.\<close>

definition lower_hex_u8 :: "u8 \<Rightarrow> string" where
  "lower_hex_u8 b = [hex_digit 97 (unat b div 16), hex_digit 97 (unat b mod 16)]"

definition upper_hex_u16 :: "u16 \<Rightarrow> string" where
  "upper_hex_u16 w =
     [hex_digit 65 (unat w div 4096), hex_digit 65 (unat w div 256 mod 16),
      hex_digit 65 (unat w div 16 mod 16), hex_digit 65 (unat w mod 16)]"

section \<open>Texts\<close>

definition CommandId_display :: "CommandId \<Rightarrow> string" where
  "CommandId_display c =
     (case command_name c of
        Some n \<Rightarrow> n
      | None \<Rightarrow> ''UNKNOWN_COMMAND_0x'' @ upper_hex_u16 (raw c))"

primrec KlfError_display :: "klf_error \<Rightarrow> string" where
  "KlfError_display (PayloadTooLarge len) =
     ''payload is too large for a KLF frame: '' @ nat_display len @ '' bytes''"
| "KlfError_display (FrameTooShort actual) =
     ''KLF frame is too short: expected at least 5 bytes, got '' @ nat_display actual"
| "KlfError_display (InvalidProtocolId actual) =
     ''invalid KLF protocol identifier 0x'' @ lower_hex_u8 actual"
| "KlfError_display (InvalidFrameLength declared actual) =
     ''invalid KLF frame length: header declares '' @ nat_display declared
       @ '' bytes, actual length field covers '' @ nat_display actual"
| "KlfError_display (InvalidChecksum expected actual) =
     ''invalid KLF frame checksum: expected 0x'' @ lower_hex_u8 expected @ '', got 0x'' @ lower_hex_u8 actual"
| "KlfError_display (InvalidSlipEscape byte) =
     ''invalid SLIP escape sequence: 0xdb 0x'' @ lower_hex_u8 byte"
| "KlfError_display IncompleteSlipEscape = ''SLIP frame ended with an incomplete escape sequence''"
| "KlfError_display (SlipFrameTooLarge maximum) =
     ''SLIP frame exceeded the configured maximum of '' @ nat_display maximum @ '' bytes''"
| "KlfError_display InvalidUtf8 = ''fixed-width string contains invalid UTF-8''"
| "KlfError_display (StringTooLong actual maximum) =
     ''string needs '' @ nat_display actual @ '' bytes but the field permits at most '' @ nat_display maximum"
| "KlfError_display SessionIdsExhausted = ''session ID space is exhausted''"
| "KlfError_display (SessionIdInUse session) =
     ''session ID '' @ nat_display (unat session) @ '' is already active''"
| "KlfError_display (UnsupportedRequest command) =
     ''request command '' @ CommandId_display command @ '' is not supported by the typed encoder''"
| "KlfError_display (MissingConfirmation command) =
     ''request command '' @ CommandId_display command @ '' has no known confirmation''"
| "KlfError_display (RequestTimeout command) = ''request for '' @ CommandId_display command @ '' timed out''"
| "KlfError_display ConnectTimeout = ''connection attempt timed out''"
| "KlfError_display ConnectionClosed = ''KLF connection is closed''"
| "KlfError_display ClientClosed = ''KLF client command channel is closed''"
| "KlfError_display AuthenticationRejected = ''KLF authentication was rejected''"
| "KlfError_display (DiscoveryRejected status) =
     ''KLF discovery request was rejected with status '' @ nat_display (unat status)"
| "KlfError_display (UnexpectedResponseError operation command) =
     ''unexpected response to '' @ operation @ '': '' @ CommandId_display command"
| "KlfError_display (Io message) = ''I/O error: '' @ message"
| "KlfError_display (Tls message) = ''TLS error: '' @ message"
| "KlfError_display (Protocol message) = ''protocol error: '' @ message"
| "KlfError_display EmptyCertificateFile = ''certificate file did not contain any certificates''"
| "KlfError_display (TruncatedPayload command expected actual) =
     ''command '' @ CommandId_display command @ '' payload is too short: expected at least ''
       @ nat_display expected @ '' bytes, got '' @ nat_display actual"
| "KlfError_display (InvalidPayloadLength command expected actual) =
     ''command '' @ CommandId_display command @ '' payload has invalid length: expected exactly ''
       @ nat_display expected @ '' bytes, got '' @ nat_display actual"
| "KlfError_display (InvalidRequest message) = ''invalid request: '' @ message"

end
