(* ===== verification/Connection.thy ===== *)
theory Connection
  imports Response Slip Klf_Display
begin

text \<open>
  The connection actor (\<open>src/klf200/connection.rs\<close>): the reader task that turns the byte stream into
  frames, and the loop that owns the request queue, the pending request and the active sessions.

  Instants and durations are natural numbers. A oneshot sender is identified by a number; what the
  actor does to the outside is a list of effects in the order it happens. What it receives is the
  argument of a step: the commands of the clients, the results of \<open>read\<close> and \<open>write_all\<close>, the clock
  and the iteration order of the hash map of sessions.
\<close>

section \<open>Data\<close>

record ConnectionSettings =
  request_timeout :: nat
  session_timeout :: nat
  command_buffer :: nat
  event_buffer :: nat
  incoming_buffer :: nat
  read_buffer_size :: nat
  maximum_slip_frame_length :: nat
  timeout_check_interval :: nat

text \<open>The default settings, with durations in milliseconds.\<close>

definition ConnectionSettings_default :: ConnectionSettings where
  "ConnectionSettings_default =
     \<lparr>request_timeout = 5000, session_timeout = 120000, command_buffer = 16, event_buffer = 64,
       incoming_buffer = 32, read_buffer_size = 4096, maximum_slip_frame_length = 1024,
       timeout_check_interval = 50\<rparr>"

datatype ConnectionEvent =
    Notification Response
  | UnexpectedResponse Response
  | SessionTimedOut SessionId
  | ProtocolError string
  | Disconnected string

type_synonym reply_id = nat

datatype ActorCommand =
    Send Request reply_id
  | Shutdown reply_id

record QueuedRequest =
  qr_request :: Request
  qr_reply :: reply_id

record PendingRequest =
  pr_command :: CommandId
  pr_expected_confirmation :: CommandId
  pr_session_id :: "SessionId option"
  pr_deadline :: nat
  pr_reply :: reply_id

datatype Incoming =
    IncomingFrame Frame
  | IncomingProtocolError klf_error
  | IncomingClosed klf_error

datatype effect =
    Reply reply_id "Response result"
  | ShutdownReply reply_id "unit result"
  | Event ConnectionEvent
  | Write "u8 list"

type_synonym sessions = "SessionId \<Rightarrow> nat option"

section \<open>The reader task\<close>

text \<open>
  What \<open>reader.read\<close> yields: some bytes (none at the end of the stream) or an error. The list of the
  results is what the stream will deliver; its end is a stream that delivers nothing more.
\<close>

datatype read_result = ReadBytes "u8 list" | ReadError string

definition io_error :: "string \<Rightarrow> klf_error" where
  "io_error message = Io message"

definition decoded_incoming :: "u8 list result \<Rightarrow> Incoming list" where
  "decoded_incoming decoded =
     (case and_then decoded Frame_decode of
        Ok frame \<Rightarrow> [IncomingFrame frame]
      | Err error \<Rightarrow> [IncomingProtocolError error]
      | Panic \<Rightarrow> [])"

fun read_loop :: "decoder \<Rightarrow> read_result list \<Rightarrow> Incoming list" where
  "read_loop d [] = []"
| "read_loop d (ReadError message # reads) = [IncomingClosed (io_error message)]"
| "read_loop d (ReadBytes bytes # reads) =
     (if bytes = [] then [IncomingClosed ConnectionClosed]
      else
        let (d', decoded) = push d bytes
        in concat (map decoded_incoming decoded) @ read_loop d' reads)"

definition read_frames :: "ConnectionSettings \<Rightarrow> read_result list \<Rightarrow> Incoming list" where
  "read_frames settings reads = read_loop (decoder_new (max (maximum_slip_frame_length settings) 1)) reads"

section \<open>Dispatching requests\<close>

text \<open>
  \<open>write_error\<close> is the outcome of the one \<open>write_all\<close> a call can make, \<open>None\<close> when it succeeds;
  \<open>now\<close> is the instant read after it. A \<open>write_all\<close> that fails may already have put a part of the frame on the
  stream; that part is not counted among the bytes written, since the loop ends with the error and nothing
  follows that could complete the frame.
\<close>

fun dispatch_next ::
  "sessions \<Rightarrow> string option \<Rightarrow> nat \<Rightarrow> nat \<Rightarrow> QueuedRequest list \<Rightarrow> PendingRequest option \<Rightarrow>
     QueuedRequest list \<times> PendingRequest option \<times> effect list \<times> unit result"
where
  "dispatch_next sessions write_error now timeout [] pending = ([], pending, [], Ok ())"
| "dispatch_next sessions write_error now timeout (queued # requests) pending =
     (let command = Request_command_id (qr_request queued);
          continue = (\<lambda>error.
            let (requests', pending', effects, r) =
                  dispatch_next sessions write_error now timeout requests pending
            in (requests', pending', Reply (qr_reply queued) (Err error) # effects, r))
      in case expected_confirmation command of
           None \<Rightarrow> continue (MissingConfirmation command)
         | Some confirmation \<Rightarrow>
             (let session_id = Request_session_id (qr_request queued)
              in case (case session_id of None \<Rightarrow> None | Some s \<Rightarrow> map_option (\<lambda>_. s) (sessions s)) of
                   Some s \<Rightarrow> continue (SessionIdInUse (session_id_get s))
                 | None \<Rightarrow>
                     (case and_then (Request_encode (qr_request queued)) Frame_encode of
                        Err error \<Rightarrow> continue error
                      | Panic \<Rightarrow> (requests, pending, [], Panic)
                      | Ok frame \<Rightarrow>
                          (case write_error of
                             Some message \<Rightarrow>
                               (requests, pending, [Reply (qr_reply queued) (Err ConnectionClosed)],
                                Err (io_error message))
                           | None \<Rightarrow>
                               (requests,
                                Some \<lparr>pr_command = command, pr_expected_confirmation = confirmation,
                                      pr_session_id = session_id, pr_deadline = now + timeout,
                                      pr_reply = qr_reply queued\<rparr>,
                                [Write (slip_encode frame)], Ok ())))))"

section \<open>Handling frames\<close>

definition response_session_id :: "Response \<Rightarrow> SessionId option" where
  "response_session_id response =
     (case response of
        CommandAccepted s _ \<Rightarrow> Some s
      | StatusAccepted s _ \<Rightarrow> Some s
      | SessionCommandResult result \<Rightarrow> Some (scr_session_id result)
      | SceneSessionResult result \<Rightarrow> Some (sser_session_id result)
      | ProductGroupResult result \<Rightarrow> Some (pgr_session_id result)
      | _ \<Rightarrow> None)"

definition confirmation_session_matches :: "SessionId option \<Rightarrow> Response \<Rightarrow> bool" where
  "confirmation_session_matches expected response =
     (case expected of None \<Rightarrow> True | Some e \<Rightarrow> response_session_id response = Some e)"

definition session_was_accepted :: "Response \<Rightarrow> bool" where
  "session_was_accepted response =
     (case response of
        CommandAccepted _ status \<Rightarrow> status = 1
      | StatusAccepted _ status \<Rightarrow> status = 1
      | SessionCommandResult result \<Rightarrow>
          (let command = scr_command result
           in if command = GW_WINK_SEND_CFM \<or> command = GW_SET_LIMITATION_CFM
                \<or> command = GW_GET_LIMITATION_STATUS_CFM then scr_status result = 1
              else if command = GW_MODE_SEND_CFM then scr_status result = 0
              else False)
      | SceneSessionResult result \<Rightarrow> sser_status result = 0
      | ProductGroupResult result \<Rightarrow> pgr_status result = 0
      | _ \<Rightarrow> False)"

definition terminal_session_id :: "Response \<Rightarrow> SessionId option" where
  "terminal_session_id response =
     (case response of
        SessionFinished s \<Rightarrow> Some s
      | WinkFinished s \<Rightarrow> Some s
      | _ \<Rightarrow> None)"

definition remove_session :: "SessionId option \<Rightarrow> sessions \<Rightarrow> sessions" where
  "remove_session removed sessions =
     (case removed of None \<Rightarrow> sessions | Some s \<Rightarrow> sessions(s := None))"

definition handle_frame ::
  "Frame \<Rightarrow> nat \<Rightarrow> nat \<Rightarrow> PendingRequest option \<Rightarrow> sessions \<Rightarrow>
     PendingRequest option \<times> sessions \<times> effect list"
where
  "handle_frame frame now timeout pending sessions =
     (let command = frame_command frame
      in case (case pending of
                 Some request \<Rightarrow> if pr_expected_confirmation request = command then Some request else None
               | None \<Rightarrow> None) of
           Some request \<Rightarrow>
             (case Response_decode frame of
                Ok response \<Rightarrow>
                  if \<not> confirmation_session_matches (pr_session_id request) response
                  then (pending, sessions, [Event (UnexpectedResponse response)])
                  else
                    (None,
                     (case pr_session_id request of
                        None \<Rightarrow> sessions
                      | Some s \<Rightarrow>
                          if session_was_accepted response then sessions(s := Some (now + timeout))
                          else sessions(s := None)),
                     [Reply (pr_reply request) (Ok response)])
              | Err error \<Rightarrow>
                  (None, remove_session (pr_session_id request) sessions,
                   [Reply (pr_reply request) (Err error)])
              | Panic \<Rightarrow> (pending, sessions, []))
         | None \<Rightarrow>
             (case Response_decode frame of
                Ok response \<Rightarrow>
                  if kind command = NotificationKind
                  then (pending, remove_session (terminal_session_id response) sessions,
                        [Event (Notification response)])
                  else (pending, sessions, [Event (UnexpectedResponse response)])
              | Err error \<Rightarrow> (pending, sessions, [Event (ProtocolError (KlfError_display error))])
              | Panic \<Rightarrow> (pending, sessions, [])))"

section \<open>Timeouts\<close>

definition expire_request ::
  "nat \<Rightarrow> PendingRequest option \<Rightarrow> sessions \<Rightarrow> PendingRequest option \<times> sessions \<times> effect list"
where
  "expire_request now pending sessions =
     (case pending of
        Some request \<Rightarrow>
          if pr_deadline request \<le> now
          then (None, remove_session (pr_session_id request) sessions,
                [Reply (pr_reply request) (Err (RequestTimeout (pr_command request)))])
          else (pending, sessions, [])
      | None \<Rightarrow> (pending, sessions, []))"

text \<open>\<open>keys\<close> is the order in which the hash map yields its keys.\<close>

definition expire_sessions :: "SessionId list \<Rightarrow> nat \<Rightarrow> sessions \<Rightarrow> sessions \<times> effect list" where
  "expire_sessions keys now sessions =
     (let expired = filter (\<lambda>s. case sessions s of Some deadline \<Rightarrow> deadline \<le> now | None \<Rightarrow> False) keys
      in (foldl (\<lambda>m s. m(s := None)) sessions expired,
          map (\<lambda>s. Event (SessionTimedOut s)) expired))"

section \<open>The actor loop\<close>

record actor =
  requests :: "QueuedRequest list"
  pending :: "PendingRequest option"
  active :: sessions

definition actor_new :: actor where
  "actor_new = \<lparr>requests = [], pending = None, active = (\<lambda>_. None)\<rparr>"

text \<open>
  What \<open>tokio::select!\<close> yields in one iteration. A tick carries the two instants its two calls read
  and the iteration order of the sessions; a frame carries the instant its handling reads.
\<close>

datatype actor_input =
    CommandReceived ActorCommand
  | CommandsClosed
  | IncomingReceived Incoming nat
  | IncomingEnded
  | TimeoutTick nat nat "SessionId list"

text \<open>Leaving the loop: the reason of the disconnect and the sender waiting for the shutdown, if any.\<close>

record exit =
  disconnect_reason :: "string option"
  shutdown_reply :: "reply_id option"

definition actor_select ::
  "ConnectionSettings \<Rightarrow> actor_input \<Rightarrow> actor \<Rightarrow> actor \<times> effect list \<times> exit option"
where
  "actor_select settings input a =
     (case input of
        CommandReceived (Send request reply) \<Rightarrow>
          (a\<lparr>requests := requests a @ [\<lparr>qr_request = request, qr_reply = reply\<rparr>]\<rparr>, [], None)
      | CommandReceived (Shutdown reply) \<Rightarrow>
          (a, [], Some \<lparr>disconnect_reason = None, shutdown_reply = Some reply\<rparr>)
      | CommandsClosed \<Rightarrow> (a, [], Some \<lparr>disconnect_reason = None, shutdown_reply = None\<rparr>)
      | IncomingReceived (IncomingFrame frame) now \<Rightarrow>
          (let (p, s, effects) = handle_frame frame now (session_timeout settings) (pending a) (active a)
           in (a\<lparr>pending := p, active := s\<rparr>, effects, None))
      | IncomingReceived (IncomingProtocolError error) now \<Rightarrow>
          (a, [Event (ProtocolError (KlfError_display error))], None)
      | IncomingReceived (IncomingClosed error) now \<Rightarrow>
          (a, [], Some \<lparr>disconnect_reason = Some (KlfError_display error), shutdown_reply = None\<rparr>)
      | IncomingEnded \<Rightarrow>
          (a, [], Some \<lparr>disconnect_reason = Some (KlfError_display ConnectionClosed), shutdown_reply = None\<rparr>)
      | TimeoutTick now1 now2 keys \<Rightarrow>
          (let (p, s, effects1) = expire_request now1 (pending a) (active a);
               (s', effects2) = expire_sessions keys now2 s
           in (a\<lparr>pending := p, active := s'\<rparr>, effects1 @ effects2, None)))"

text \<open>The dispatch at the top of the loop body.\<close>

definition actor_dispatch ::
  "ConnectionSettings \<Rightarrow> string option \<Rightarrow> nat \<Rightarrow> actor \<Rightarrow> actor \<times> effect list \<times> exit option"
where
  "actor_dispatch settings write_error now a =
     (case pending a of
        Some _ \<Rightarrow> (a, [], None)
      | None \<Rightarrow>
          (let (rs, p, effects, r) =
                 dispatch_next (active a) write_error now (request_timeout settings) (requests a) (pending a)
           in (a\<lparr>requests := rs, pending := p\<rparr>, effects,
               (case r of
                  Err error \<Rightarrow>
                    Some \<lparr>disconnect_reason = Some (KlfError_display error), shutdown_reply = None\<rparr>
                | _ \<Rightarrow> None))))"

text \<open>One iteration: its inputs are the outcome and instant of a write, and the selected input.\<close>

type_synonym iteration_input = "string option \<times> nat \<times> actor_input"

definition actor_iteration ::
  "ConnectionSettings \<Rightarrow> iteration_input \<Rightarrow> actor \<Rightarrow> actor \<times> effect list \<times> exit option"
where
  "actor_iteration settings i a =
     (let (write_error, now, input) = i;
          (a', effects, stop) = actor_dispatch settings write_error now a
      in case stop of
           Some e \<Rightarrow> (a', effects, Some e)
         | None \<Rightarrow>
             (let (a'', effects', stop') = actor_select settings input a'
              in (a'', effects @ effects', stop')))"

definition fail_outstanding :: "actor \<Rightarrow> actor \<times> effect list" where
  "fail_outstanding a =
     (a\<lparr>pending := None, requests := []\<rparr>,
      (case pending a of None \<Rightarrow> [] | Some request \<Rightarrow> [Reply (pr_reply request) (Err ConnectionClosed)])
        @ map (\<lambda>request. Reply (qr_reply request) (Err ConnectionClosed)) (requests a))"

definition drain_commands :: "ActorCommand list \<Rightarrow> effect list" where
  "drain_commands commands =
     concat (map (\<lambda>command. case command of
         Send _ reply \<Rightarrow> [Reply reply (Err ConnectionClosed)]
       | Shutdown _ \<Rightarrow> []) commands)"

text \<open>
  What follows the loop: outstanding and still queued commands fail, the writer is shut down with
  \<open>shutdown_result\<close> as its outcome (a timeout is an I/O error), and the waiting parties are told.
\<close>

definition actor_finish ::
  "ActorCommand list \<Rightarrow> unit result \<Rightarrow> exit \<Rightarrow> actor \<Rightarrow> actor \<times> effect list"
where
  "actor_finish commands shutdown_result e a =
     (let (a', effects) = fail_outstanding a
      in (a', effects @ drain_commands commands
            @ (case disconnect_reason e of None \<Rightarrow> [] | Some reason \<Rightarrow> [Event (Disconnected reason)])
            @ (case shutdown_reply e of None \<Rightarrow> [] | Some reply \<Rightarrow> [ShutdownReply reply shutdown_result])))"

fun actor_loop ::
  "ConnectionSettings \<Rightarrow> iteration_input list \<Rightarrow> actor \<Rightarrow> actor \<times> effect list \<times> exit option"
where
  "actor_loop settings [] a = (a, [], None)"
| "actor_loop settings (i # is) a =
     (let (a', effects, stop) = actor_iteration settings i a
      in case stop of
           Some e \<Rightarrow> (a', effects, Some e)
         | None \<Rightarrow>
             (let (a'', effects', stop') = actor_loop settings is a'
              in (a'', effects @ effects', stop')))"

text \<open>A complete run: the loop until it is left, then the epilogue.\<close>

definition run_actor ::
  "ConnectionSettings \<Rightarrow> iteration_input list \<Rightarrow> ActorCommand list \<Rightarrow> unit result \<Rightarrow>
     actor \<times> effect list \<times> exit option"
where
  "run_actor settings is commands shutdown_result =
     (let (a, effects, stop) = actor_loop settings is actor_new
      in case stop of
           None \<Rightarrow> (a, effects, None)
         | Some e \<Rightarrow>
             (let (a', effects') = actor_finish commands shutdown_result e a
              in (a', effects @ effects', Some e)))"

section \<open>Replies are given once and in order\<close>

primrec replied :: "effect \<Rightarrow> reply_id list" where
  "replied (Reply i r) = [i]"
| "replied (ShutdownReply i r) = []"
| "replied (Event e) = []"
| "replied (Write bs) = []"

definition replies :: "effect list \<Rightarrow> reply_id list" where
  "replies effects = concat (map replied effects)"

lemma replies_simps [simp]:
  "replies [] = []" "replies (e # es) = replied e @ replies es" "replies (es @ fs) = replies es @ replies fs"
  by (simp_all add: replies_def)

definition pending_reply :: "PendingRequest option \<Rightarrow> reply_id list" where
  "pending_reply p = (case p of None \<Rightarrow> [] | Some r \<Rightarrow> [pr_reply r])"

lemma pending_reply_simps [simp]: "pending_reply None = []" "pending_reply (Some r) = [pr_reply r]"
  by (simp_all add: pending_reply_def)

text \<open>The requests the actor still owes an answer, oldest first.\<close>

definition outstanding :: "actor \<Rightarrow> reply_id list" where
  "outstanding a = pending_reply (pending a) @ map qr_reply (requests a)"

primrec submitted_command :: "ActorCommand \<Rightarrow> reply_id list" where
  "submitted_command (Send request reply) = [reply]"
| "submitted_command (Shutdown reply) = []"

fun submitted :: "actor_input \<Rightarrow> reply_id list" where
  "submitted (CommandReceived command) = submitted_command command"
| "submitted _ = []"

lemma encoded_not_Panic [simp]: "and_then (Request_encode r) Frame_encode \<noteq> Panic"
  by (simp add: and_then_eq_Panic_iff Request_encode_not_Panic Frame_encode_not_Panic)

lemma dispatch_next_order:
  assumes "dispatch_next ss we now t rs None = (rs', p', effects, r)"
  shows "replies effects @ pending_reply p' @ map qr_reply rs' = map qr_reply rs"
  using assms
proof (induction rs arbitrary: rs' p' effects r)
  case (Cons q rs)
  then show ?case
    by (auto simp: Let_def split: option.splits outcome.splits prod.splits)
qed simp

lemma dispatch_next_not_Panic:
  assumes "dispatch_next ss we now t rs p = (rs', p', effects, r)"
  shows "r \<noteq> Panic"
  using assms
proof (induction rs arbitrary: rs' p' effects r)
  case (Cons q rs)
  then show ?case
    by (auto simp: Let_def split: option.splits outcome.splits prod.splits)
qed simp

lemma handle_frame_order:
  assumes "handle_frame f now t p ss = (p', ss', effects)"
  shows "replies effects @ pending_reply p' = pending_reply p"
  using assms
  by (auto simp: handle_frame_def Let_def split: option.splits outcome.splits if_splits)

lemma expire_request_order:
  assumes "expire_request now p ss = (p', ss', effects)"
  shows "replies effects @ pending_reply p' = pending_reply p"
  using assms by (auto simp: expire_request_def split: option.splits if_splits)

lemma expire_sessions_replies:
  assumes "expire_sessions keys now ss = (ss', effects)"
  shows "replies effects = []"
proof -
  have "replies (map (\<lambda>s. Event (SessionTimedOut s)) xs) = []" for xs by (induction xs) auto
  then show ?thesis using assms by (auto simp: expire_sessions_def Let_def)
qed

lemma actor_dispatch_order:
  assumes "actor_dispatch settings we now a = (a', effects, stop)"
  shows "replies effects @ outstanding a' = outstanding a"
  using assms
  by (auto simp: actor_dispatch_def outstanding_def dest!: dispatch_next_order
      split: option.splits prod.splits)

lemma actor_select_order:
  assumes "actor_select settings input a = (a', effects, stop)"
  shows "replies effects @ outstanding a' = outstanding a @ submitted input"
proof (cases input)
  case (CommandReceived c)
  then show ?thesis using assms by (cases c) (auto simp: actor_select_def outstanding_def)
next
  case (IncomingReceived inc now)
  then show ?thesis using assms
    by (cases inc) (auto simp: actor_select_def outstanding_def dest: handle_frame_order
        simp flip: append_assoc split: prod.splits)
next
  case (TimeoutTick n1 n2 keys)
  then show ?thesis using assms
    by (auto simp: actor_select_def outstanding_def Let_def dest: expire_request_order
        dest!: expire_sessions_replies split: prod.splits simp flip: append_assoc)
qed (use assms in \<open>auto simp: actor_select_def\<close>)

text \<open>
  What the actor has taken from its command channel: the input of an iteration is not received when
  the dispatch before it already leaves the loop.
\<close>

definition iteration_taken :: "ConnectionSettings \<Rightarrow> iteration_input \<Rightarrow> actor \<Rightarrow> reply_id list" where
  "iteration_taken settings i a =
     (let (write_error, now, input) = i
      in case actor_dispatch settings write_error now a of
           (_, _, Some _) \<Rightarrow> []
         | (_, _, None) \<Rightarrow> submitted input)"

fun loop_taken :: "ConnectionSettings \<Rightarrow> iteration_input list \<Rightarrow> actor \<Rightarrow> reply_id list" where
  "loop_taken settings [] a = []"
| "loop_taken settings (i # is) a =
     iteration_taken settings i a @
       (case actor_iteration settings i a of
          (a', _, None) \<Rightarrow> loop_taken settings is a'
        | (_, _, Some _) \<Rightarrow> [])"

lemma actor_iteration_order:
  assumes "actor_iteration settings i a = (a', effects, stop)"
  shows "replies effects @ outstanding a' = outstanding a @ iteration_taken settings i a"
  using assms
  by (auto simp: actor_iteration_def iteration_taken_def Let_def split: prod.splits option.splits
      dest!: actor_dispatch_order actor_select_order)

lemma actor_loop_order:
  assumes "actor_loop settings is a = (a', effects, stop)"
  shows "replies effects @ outstanding a' = outstanding a @ loop_taken settings is a"
  using assms
proof (induction "is" arbitrary: a a' effects stop)
  case (Cons i "is")
  obtain b es st where it: "actor_iteration settings i a = (b, es, st)"
    by (cases "actor_iteration settings i a") auto
  note order = actor_iteration_order [OF it]
  show ?case
  proof (cases st)
    case (Some e)
    then show ?thesis using Cons.prems it order by auto
  next
    case None
    then obtain c fs where rest: "actor_loop settings is b = (c, fs, stop)" "a' = c" "effects = es @ fs"
      using Cons.prems it by (auto split: prod.splits)
    then show ?thesis using Cons.IH [OF rest(1)] order it None by (simp flip: append_assoc) simp
  qed
qed simp

lemma outstanding_new [simp]: "outstanding actor_new = []"
  by (simp add: outstanding_def actor_new_def)

lemma drain_commands_replies: "replies (drain_commands cs) = concat (map submitted_command cs)"
  by (induction cs) (auto simp: drain_commands_def replies_def split: ActorCommand.splits)

lemma fail_outstanding_replies: "replies (snd (fail_outstanding a)) = outstanding a"
proof -
  have "replies (map (\<lambda>q. Reply (qr_reply q) (Err ConnectionClosed)) qs) = map qr_reply qs" for qs
    by (induction qs) auto
  then show ?thesis
    by (auto simp: fail_outstanding_def outstanding_def split: option.splits)
qed

lemma actor_finish_order:
  assumes "actor_finish cs sr e a = (a', effects)"
  shows "replies effects = outstanding a @ concat (map submitted_command cs) \<and> outstanding a' = []"
  using assms fail_outstanding_replies [of a]
  by (auto simp: actor_finish_def drain_commands_replies fail_outstanding_def outstanding_def
      split: prod.splits option.splits)

lemma run_actor_order:
  assumes "run_actor settings is cs sr = (a, effects, stop)"
  shows "replies effects @ outstanding a = loop_taken settings is actor_new
      @ (if stop = None then [] else concat (map submitted_command cs))"
    and "stop \<noteq> None \<Longrightarrow> outstanding a = []"
proof -
  obtain b es st where loop: "actor_loop settings is actor_new = (b, es, st)"
    by (cases "actor_loop settings is actor_new") auto
  note order = actor_loop_order [OF loop]
  show "replies effects @ outstanding a = loop_taken settings is actor_new
      @ (if stop = None then [] else concat (map submitted_command cs))"
    and "stop \<noteq> None \<Longrightarrow> outstanding a = []"
    using assms order loop
    by (auto simp: run_actor_def split: option.splits prod.splits dest!: actor_finish_order
        simp flip: append_assoc)
qed

section \<open>The invariant of the actor\<close>

text \<open>
  The states the loop passes through, and what holds in all of them: the pending request waits for
  the confirmation of its own command, and its session is not an active one.
\<close>

inductive reachable :: "ConnectionSettings \<Rightarrow> actor \<Rightarrow> bool" for settings where
  start: "reachable settings actor_new"
| iterate: "reachable settings a \<Longrightarrow> actor_iteration settings i a = (a', effects, stop) \<Longrightarrow> reachable settings a'"

definition pending_inv :: "PendingRequest option \<Rightarrow> sessions \<Rightarrow> bool" where
  "pending_inv p ss \<longleftrightarrow>
     (case p of
        None \<Rightarrow> True
      | Some r \<Rightarrow>
          expected_confirmation (pr_command r) = Some (pr_expected_confirmation r)
            \<and> (case pr_session_id r of None \<Rightarrow> True | Some s \<Rightarrow> ss s = None))"

abbreviation actor_inv :: "actor \<Rightarrow> bool" where
  "actor_inv a \<equiv> pending_inv (pending a) (active a)"

lemma pending_inv_None [simp]: "pending_inv None ss"
  by (simp add: pending_inv_def)

lemma pending_inv_fewer:
  "pending_inv p ss \<Longrightarrow> (\<And>s. ss' s = ss s \<or> ss' s = None) \<Longrightarrow> pending_inv p ss'"
  by (auto simp: pending_inv_def split: option.splits) (metis option.distinct(1))+

lemma dispatch_next_inv:
  assumes "dispatch_next ss we now t rs p = (rs', p', effects, r)" "pending_inv p ss"
  shows "pending_inv p' ss"
  using assms
proof (induction rs arbitrary: rs' p' effects r)
  case (Cons q rs)
  then show ?case
    by (auto simp: Let_def pending_inv_def split: option.splits outcome.splits prod.splits)
qed simp

lemma remove_session_fewer: "remove_session x ss s = ss s \<or> remove_session x ss s = None"
  by (auto simp: remove_session_def split: option.splits)

lemma handle_frame_inv:
  assumes "handle_frame f now t p ss = (p', ss', effects)" "pending_inv p ss"
  shows "pending_inv p' ss'"
  using assms pending_inv_fewer [OF _ remove_session_fewer]
  by (auto simp: handle_frame_def Let_def split: option.splits outcome.splits if_splits)

lemma expire_request_inv:
  assumes "expire_request now p ss = (p', ss', effects)" "pending_inv p ss"
  shows "pending_inv p' ss'"
  using assms by (auto simp: expire_request_def split: option.splits if_splits)

lemma foldl_remove: "foldl (\<lambda>m s. m(s := None)) ss xs s = (if s \<in> set xs then None else ss s)"
  by (induction xs arbitrary: ss) auto

lemma expire_sessions_eq:
  assumes "dom ss \<subseteq> set keys"
  shows "fst (expire_sessions keys now ss) s =
      (case ss s of Some d \<Rightarrow> if d \<le> now then None else Some d | None \<Rightarrow> None)"
  using assms by (auto simp: expire_sessions_def Let_def foldl_remove split: option.splits)

lemma expire_sessions_inv:
  assumes "expire_sessions keys now ss = (ss', effects)" "pending_inv p ss"
  shows "pending_inv p ss'"
proof (rule pending_inv_fewer [OF assms(2)])
  show "ss' s = ss s \<or> ss' s = None" for s
    using assms(1) by (auto simp: expire_sessions_def Let_def foldl_remove split: if_splits)
qed

lemma actor_dispatch_inv:
  assumes "actor_dispatch settings we now a = (a', effects, stop)" "actor_inv a"
  shows "actor_inv a'"
  using assms
  by (auto simp: actor_dispatch_def dest: dispatch_next_inv split: option.splits prod.splits)

lemma actor_select_inv:
  assumes "actor_select settings input a = (a', effects, stop)" "actor_inv a"
  shows "actor_inv a'"
proof (cases input)
  case (CommandReceived c)
  then show ?thesis using assms by (cases c) (auto simp: actor_select_def)
next
  case (IncomingReceived inc now)
  then show ?thesis using assms
    by (cases inc) (auto simp: actor_select_def dest: handle_frame_inv split: prod.splits)
next
  case (TimeoutTick n1 n2 keys)
  then show ?thesis using assms
    by (auto simp: actor_select_def Let_def dest: expire_request_inv expire_sessions_inv split: prod.splits)
qed (use assms in \<open>auto simp: actor_select_def\<close>)

lemma actor_iteration_inv:
  assumes "actor_iteration settings i a = (a', effects, stop)" "actor_inv a"
  shows "actor_inv a'"
  using assms
  by (auto simp: actor_iteration_def split: prod.splits option.splits
      dest: actor_dispatch_inv actor_select_inv)

lemma reachable_inv: "reachable settings a \<Longrightarrow> actor_inv a"
  by (induction rule: reachable.induct) (auto simp: actor_new_def dest: actor_iteration_inv)

lemma actor_loop_reachable:
  "reachable settings a \<Longrightarrow> actor_loop settings is a = (a', effects, stop) \<Longrightarrow> reachable settings a'"
proof (induction "is" arbitrary: a effects)
  case (Cons i "is")
  then show ?case
    by (auto split: prod.splits option.splits intro: reachable.iterate)
qed simp

section \<open>Confirmations\<close>

text \<open>A request is answered with a response only by its own confirmation, for its own session.\<close>

lemma handle_frame_reply:
  assumes "handle_frame f now t p ss = (p', ss', effects)" "Reply i (Ok response) \<in> set effects"
  obtains r where "p = Some r" "p' = None" "i = pr_reply r" "frame_command f = pr_expected_confirmation r"
    "Response_decode f = Ok response" "confirmation_session_matches (pr_session_id r) response"
  using assms
  by (auto simp: handle_frame_def Let_def split: option.splits outcome.splits if_splits)

lemma handle_frame_confirms:
  assumes "frame_command f = pr_expected_confirmation r" "Response_decode f = Ok response"
    "confirmation_session_matches (pr_session_id r) response"
  shows "handle_frame f now t (Some r) ss =
      (None, (case pr_session_id r of None \<Rightarrow> ss
         | Some s \<Rightarrow> if session_was_accepted response then ss(s := Some (now + t)) else ss(s := None)),
       [Reply (pr_reply r) (Ok response)])"
  using assms by (simp add: handle_frame_def)

lemma actor_select_tick_expires:
  assumes "pending a = Some r" "pr_deadline r \<le> now1"
    "actor_select settings (TimeoutTick now1 now2 keys) a = (a', effects, stop)"
  shows "pending a' = None" "Reply (pr_reply r) (Err (RequestTimeout (pr_command r))) \<in> set effects"
  using assms by (auto simp: actor_select_def expire_request_def Let_def split: prod.splits)

lemma dispatch_next_progress:
  assumes "dispatch_next ss None now t rs None = (rs', p', effects, r)"
  shows "p' \<noteq> None \<or> rs' = []" "r = Ok ()"
  using assms
proof (induction rs arbitrary: rs' p' effects r)
  case (Cons q rs)
  {
    case 1
    then show ?case using Cons.IH(1)
      by (auto simp: Let_def split: option.splits outcome.splits prod.splits)
  next
    case 2
    then show ?case using Cons.IH(2)
      by (auto simp: Let_def split: option.splits outcome.splits prod.splits)
  }
qed simp_all

section \<open>The byte stream\<close>

text \<open>How the stream is cut into reads does not matter to the frames that come out.\<close>

lemma read_loop_chunks:
  assumes "[] \<notin> set chunks"
  shows "read_loop d (map ReadBytes chunks @ reads) =
      concat (map decoded_incoming (snd (push d (concat chunks))))
        @ read_loop (fst (push d (concat chunks))) reads"
  using assms
proof (induction chunks arbitrary: d)
  case (Cons c cs)
  obtain d' out where "push d c = (d', out)" by (cases "push d c")
  moreover have "c \<noteq> []" using Cons.prems by auto
  ultimately show ?case using Cons by (simp add: push_append)
qed simp

lemma decoded_incoming_encoded: "Frame_encode f = Ok bs \<Longrightarrow> decoded_incoming (Ok bs) = [IncomingFrame f]"
  by (simp add: decoded_incoming_def Frame_decode_encode)

lemma Frame_encode_length:
  assumes "Frame_encode f = Ok bs"
  shows "bs \<noteq> []" "length bs \<le> 257"
  using assms by (auto simp: Frame_encode_Ok_iff frame_bytes_def Let_def)

lemma maximum_length_new [simp]: "maximum_length (decoder_new m) = m"
  by (simp add: decoder_new_def)

lemma push_new_stream:
  assumes "\<And>bs. bs \<in> set frames \<Longrightarrow> bs \<noteq> [] \<and> length bs \<le> m"
  shows "snd (push (decoder_new m) (concat (map slip_encode frames))) = map Ok frames"
proof (cases frames)
  case (Cons bs rest)
  then show ?thesis
    using push_slip_encode [OF decoder_inv_new, of m bs] push_stream [of rest m] assms
    by (simp add: push_append)
qed simp

lemma decoded_incoming_stream:
  "map Frame_encode frames = map Ok encoded \<Longrightarrow>
     concat (map decoded_incoming (map Ok encoded)) = map IncomingFrame frames"
  by (induction frames arbitrary: encoded) (auto simp: decoded_incoming_encoded Cons_eq_map_conv)

lemma encoded_stream_bounds:
  assumes "map Frame_encode frames = map Ok encoded" "bs \<in> set encoded"
  shows "bs \<noteq> [] \<and> length bs \<le> 257"
proof -
  have "Ok bs \<in> set (map Frame_encode frames)" unfolding assms(1) using assms(2) by simp
  then obtain f where "Frame_encode f = Ok bs" by auto
  then show ?thesis using Frame_encode_length by blast
qed

lemma read_frames_stream:
  assumes "map Frame_encode frames = map Ok encoded" "concat chunks = concat (map slip_encode encoded)"
    "[] \<notin> set chunks" "257 \<le> maximum_slip_frame_length settings"
  shows "read_frames settings (map ReadBytes chunks @ [ReadBytes []]) =
      map IncomingFrame frames @ [IncomingClosed ConnectionClosed]"
proof -
  let ?m = "max (maximum_slip_frame_length settings) 1"
  have fits: "bs \<noteq> [] \<and> length bs \<le> ?m" if "bs \<in> set encoded" for bs
    using encoded_stream_bounds [OF assms(1) that] assms(4) by simp
  show ?thesis
    using push_new_stream [of encoded ?m, OF fits] decoded_incoming_stream [OF assms(1)]
    by (simp add: read_frames_def read_loop_chunks [OF assms(3)] assms(2))
qed

text \<open>After any noise, the next frame is delivered: at worst what the noise started is reported first.\<close>

lemma read_frames_resync:
  assumes "Frame_encode f = Ok bs" "257 \<le> maximum_slip_frame_length settings"
  shows "\<exists>before. read_frames settings (ReadBytes (noise @ slip_encode bs) # reads) =
      before @ IncomingFrame f # read_loop (idle (maximum_slip_frame_length settings)) reads"
proof -
  let ?m = "max (maximum_slip_frame_length settings) 1"
  let ?d = "fst (push (decoder_new ?m) noise)"
  have m: "?m = maximum_slip_frame_length settings" using assms(2) by simp
  have inv: "decoder_inv ?d" by (simp add: push_inv decoder_inv_new)
  have bs: "bs \<noteq> []" "length bs \<le> ?m"
    using Frame_encode_length [OF assms(1)] assms(2) by auto
  have "slip_encode bs \<noteq> []" by (simp add: slip_encode_def)
  have pushed: "push (decoder_new ?m) (noise @ slip_encode bs) =
      (idle ?m, (snd (push (decoder_new ?m) noise) @ snd (push_byte ?d END_BYTE)) @ [Ok bs])"
    unfolding push_append push_slip_encode [OF inv] using bs by simp
  show ?thesis
    unfolding read_frames_def m using pushed m \<open>slip_encode bs \<noteq> []\<close>
    by (auto simp: decoded_incoming_encoded [OF assms(1)])
qed

section \<open>Sessions are confirmed\<close>

text \<open>
  The confirmation of a request with a session decodes to a response with a session, so the match of
  the two identifiers is never missed for lack of one.
\<close>

definition session_confirmations :: "CommandId list" where
  "session_confirmations =
     [GW_COMMAND_SEND_CFM, GW_STATUS_REQUEST_CFM, GW_WINK_SEND_CFM, GW_SET_LIMITATION_CFM,
      GW_GET_LIMITATION_STATUS_CFM, GW_MODE_SEND_CFM, GW_ACTIVATE_SCENE_CFM, GW_STOP_SCENE_CFM,
      GW_ACTIVATE_PRODUCTGROUP_CFM]"

lemma session_request_confirmation:
  assumes "typed r" "Request_session_id r = Some s"
    "expected_confirmation (Request_command_id r) = Some c"
  shows "c \<in> set session_confirmations"
proof (cases r)
  case (CommandExtension x)
  then show ?thesis using assms(3)
    by (cases x) (auto simp: expected_confirmation_eq confirmed_commands_def session_confirmations_def)
next
  case (SceneContact x)
  then show ?thesis using assms(2,3)
    by (cases x) (auto simp: expected_confirmation_eq confirmed_commands_def session_confirmations_def)
qed (use assms in \<open>auto simp: expected_confirmation_eq confirmed_commands_def typed_def
      session_confirmations_def\<close>)

lemma session_confirmation_decoded:
  "list_all (\<lambda>c. \<forall>i p response.
      Response_decode \<lparr>frame_protocol_id = i, frame_command = c, frame_payload = p\<rparr> = Ok response \<longrightarrow>
      (\<exists>s. response_session_id response = Some s)) session_confirmations"
  unfolding session_confirmations_def list.pred_inject
  by (intro conjI allI impI TrueI)
    (auto simp: Response_decode_def decode_core_def decode_command_extension_def
      decode_scene_contact_def decode_session_status_def outcome_iffs response_session_id_def Let_def
      split: if_splits)

lemma session_confirmation:
  assumes "typed r" "Request_session_id r = Some s"
    "expected_confirmation (Request_command_id r) = Some (frame_command f)"
    "Response_decode f = Ok response"
  shows "\<exists>s'. response_session_id response = Some s'"
  using session_request_confirmation [OF assms(1-3)] session_confirmation_decoded assms(4)
  by (cases f) (fastforce simp: list_all_iff)

section \<open>Properties\<close>

text \<open>
  C5. In every run of the actor, whatever the clients, the gateway, the clock and the socket do, the
  requests it has taken are answered exactly once and in the order they were taken; what is not yet
  answered is outstanding, and once the loop is left nothing is.
\<close>

theorem requests_answered_in_order:
  "case run_actor settings is commands shutdown_result of (a, effects, stop) \<Rightarrow>
     replies effects @ outstanding a =
       loop_taken settings is actor_new
         @ (case stop of None \<Rightarrow> [] | Some _ \<Rightarrow> concat (map submitted_command commands))
     \<and> (stop = None \<or> outstanding a = [])"
  by (cases "run_actor settings is commands shutdown_result")
    (auto dest: run_actor_order split: option.splits)

text \<open>
  In every state the loop reaches, a pending request waits for the confirmation that belongs to
  its command, and its session is not among the active ones.
\<close>

theorem pending_request_consistent:
  "case actor_loop settings is actor_new of (a, effects, stop) \<Rightarrow>
     (case pending a of
        None \<Rightarrow> True
      | Some r \<Rightarrow>
          expected_confirmation (pr_command r) = Some (pr_expected_confirmation r)
          \<and> (case pr_session_id r of None \<Rightarrow> True | Some s \<Rightarrow> active a s = None))"
  using actor_loop_reachable [OF reachable.start, of settings "is", THEN reachable_inv]
  by (auto simp: pending_inv_def split: prod.splits)

text \<open>
  C6. A client gets a response only from a frame that carries the confirmation of its own request,
  decodes to that response, and names the session of the request if it has one; the request is then
  no longer pending.
\<close>

theorem reply_is_own_confirmation:
  assumes "handle_frame f now timeout p ss = (p', ss', effects)" "Reply i (Ok response) \<in> set effects"
  shows "\<exists>r. p = Some r \<and> p' = None \<and> i = pr_reply r \<and> frame_command f = pr_expected_confirmation r
     \<and> Response_decode f = Ok response
     \<and> (case pr_session_id r of None \<Rightarrow> True | Some s \<Rightarrow> response_session_id response = Some s)"
  using handle_frame_reply [OF assms] unfolding confirmation_session_matches_def by metis

theorem reply_is_own_confirmation_witness:
  "\<exists>r. Some \<lparr>pr_command = GW_REBOOT_REQ, pr_expected_confirmation = GW_REBOOT_CFM, pr_session_id = None,
        pr_deadline = 9, pr_reply = 4\<rparr> = Some r \<and> (None :: PendingRequest option) = None \<and> 4 = pr_reply r
     \<and> frame_command (Frame_new GW_REBOOT_CFM []) = pr_expected_confirmation r
     \<and> Response_decode (Frame_new GW_REBOOT_CFM []) = Ok (Acknowledgement GW_REBOOT_CFM)
     \<and> (case pr_session_id r of None \<Rightarrow> True
        | Some s \<Rightarrow> response_session_id (Acknowledgement GW_REBOOT_CFM) = Some s)"
  by (rule reply_is_own_confirmation [where now = 1 and timeout = 1 and ss = "\<lambda>_. None" and ss' = "\<lambda>_. None"
        and effects = "[Reply 4 (Ok (Acknowledgement GW_REBOOT_CFM))]"])
    (simp_all add: handle_frame_def Frame_new_def Response_decode_def decode_core_def
      confirmation_session_matches_def)

text \<open>
  A request whose deadline has passed is answered with a timeout by the next tick, and is no longer
  pending then.
\<close>

theorem expired_request_answered:
  assumes "pending a = Some r" "pr_deadline r \<le> now1"
  shows "case actor_select settings (TimeoutTick now1 now2 keys) a of (a', effects, stop) \<Rightarrow>
     pending a' = None \<and> stop = None
     \<and> Reply (pr_reply r) (Err (RequestTimeout (pr_command r))) \<in> set effects"
  using assms by (auto simp: actor_select_def expire_request_def Let_def split: prod.splits)

theorem expired_request_answered_witness:
  "case actor_select ConnectionSettings_default (TimeoutTick 5 6 [])
      \<lparr>requests = [], pending = Some \<lparr>pr_command = GW_GET_STATE_REQ,
         pr_expected_confirmation = GW_GET_STATE_CFM, pr_session_id = None, pr_deadline = 5, pr_reply = 2\<rparr>,
       active = (\<lambda>_. None)\<rparr> of (a', effects, stop) \<Rightarrow>
     pending a' = None \<and> stop = None \<and> Reply 2 (Err (RequestTimeout GW_GET_STATE_REQ)) \<in> set effects"
  using expired_request_answered [of "\<lparr>requests = [], pending = Some \<lparr>pr_command = GW_GET_STATE_REQ,
         pr_expected_confirmation = GW_GET_STATE_CFM, pr_session_id = None, pr_deadline = 5, pr_reply = 2\<rparr>,
       active = (\<lambda>_. None)\<rparr>" "\<lparr>pr_command = GW_GET_STATE_REQ,
         pr_expected_confirmation = GW_GET_STATE_CFM, pr_session_id = None, pr_deadline = 5, pr_reply = 2\<rparr>"
      5 ConnectionSettings_default 6 "[]"]
  by simp

text \<open>
  C23. Dispatching always makes progress: with a working socket it ends with a pending request or with
  an empty queue, never with an error, and requests that cannot be sent do not block those behind them.
\<close>

theorem dispatch_makes_progress:
  "case dispatch_next sessions None now timeout rs None of (rs', p', effects, r) \<Rightarrow>
     r = Ok () \<and> (rs' = [] \<or> (\<exists>p. p' = Some p))
     \<and> replies effects @ pending_reply p' @ map qr_reply rs' = map qr_reply rs"
  by (cases "dispatch_next sessions None now timeout rs None")
    (auto dest: dispatch_next_progress dispatch_next_order)

text \<open>
  The frames of the gateway arrive unchanged and in order, however the stream is cut into reads,
  when the reader accepts SLIP frames of the largest frame size.
\<close>

theorem byte_stream_delivers_frames:
  assumes "map Frame_encode frames = map Ok encoded"
    "concat chunks = concat (map slip_encode encoded)" "[] \<notin> set chunks"
    "257 \<le> maximum_slip_frame_length settings"
  shows "read_frames settings (map ReadBytes chunks @ [ReadBytes []]) =
     map IncomingFrame frames @ [IncomingClosed ConnectionClosed]"
  by (rule read_frames_stream [OF assms])

theorem byte_stream_delivers_frames_witness:
  "read_frames ConnectionSettings_default
     (map ReadBytes [[0xC0, 0x00, 0x03], [0x00, 0x02, 0x01], [0xC0]] @ [ReadBytes []]) =
   map IncomingFrame [Frame_new GW_REBOOT_CFM []] @ [IncomingClosed ConnectionClosed]"
  by (rule byte_stream_delivers_frames [where encoded = "[[0x00, 0x03, 0x00, 0x02, 0x01]]"])
    (simp_all add: Frame_encode_def Frame_new_def frame_consts u8_try_from_def u16_to_be_bytes_def
      checksum_Cons Let_def slip_encode_def escape_byte_def slip_consts ConnectionSettings_default_def)

text \<open>
  C24. After any bytes at all, the next frame is delivered and the reader is in step again: noise costs
  at most what is reported before that frame.
\<close>

theorem reader_resynchronises:
  assumes "Frame_encode f = Ok bs" "257 \<le> maximum_slip_frame_length settings"
  shows "\<exists>before. read_frames settings (ReadBytes (noise @ slip_encode bs) # reads) =
     before @ IncomingFrame f # read_loop (idle (maximum_slip_frame_length settings)) reads"
  by (rule read_frames_resync [OF assms])

theorem reader_resynchronises_witness:
  "\<exists>before. read_frames ConnectionSettings_default
       (ReadBytes ([0xC0, 0x17, 0xDB] @ slip_encode [0x00, 0x03, 0x00, 0x02, 0x01]) # []) =
     before @ IncomingFrame (Frame_new GW_REBOOT_CFM []) # read_loop (idle 1024) []"
  using reader_resynchronises [of "Frame_new GW_REBOOT_CFM []" "[0x00, 0x03, 0x00, 0x02, 0x01]"
      ConnectionSettings_default "[0xC0, 0x17, 0xDB]" "[]"]
  by (simp add: Frame_encode_def Frame_new_def frame_consts u8_try_from_def u16_to_be_bytes_def
      checksum_Cons Let_def ConnectionSettings_default_def)

text \<open>
  The confirmation of every typed request that belongs to a session decodes to a response with a
  session, so that a confirmation is held against the session of the request and never ignored.
\<close>

theorem session_confirmation_names_session:
  assumes "typed r" "Request_session_id r = Some s"
    "expected_confirmation (Request_command_id r) = Some (frame_command f)"
    "Response_decode f = Ok response"
  shows "\<exists>s'. response_session_id response = Some s'"
  by (rule session_confirmation [OF assms])

theorem session_confirmation_names_session_witness:
  "\<exists>s'. response_session_id (StatusAccepted (SessionId 258) 1) = Some s'"
  by (rule session_confirmation_names_session
        [where r = "StatusRequest (SessionId 258) (CommandTarget [NodeId 3]) MainInformation"
          and f = "Frame_new GW_STATUS_REQUEST_CFM [1, 2, 1]"])
    (simp_all add: typed_def expected_confirmation_eq confirmed_commands_def Frame_new_def
      Response_decode_def decode_core_def decode_session_status_def session_id_eq session_id_at_eq
      u16_from_be_bytes_def)

text \<open>
  A tick ends exactly the sessions whose deadline has passed, whatever order the hash map has, and
  announces each of them once.
\<close>

theorem expired_sessions_announced:
  assumes "set keys = dom ss" "distinct keys"
  shows "fst (expire_sessions keys now ss) =
       (\<lambda>s. case ss s of Some d \<Rightarrow> if d \<le> now then None else Some d | None \<Rightarrow> None)
     \<and> distinct (snd (expire_sessions keys now ss))
     \<and> set (snd (expire_sessions keys now ss)) =
         {Event (SessionTimedOut s) | s. \<exists>d. ss s = Some d \<and> d \<le> now}"
proof (intro conjI ext)
  show "fst (expire_sessions keys now ss) s =
      (case ss s of Some d \<Rightarrow> if d \<le> now then None else Some d | None \<Rightarrow> None)" for s
    using assms by (simp add: expire_sessions_eq)
  show "distinct (snd (expire_sessions keys now ss))"
    using assms(2) by (simp add: expire_sessions_def Let_def distinct_map inj_on_def)
  show "set (snd (expire_sessions keys now ss)) =
      {Event (SessionTimedOut s) | s. \<exists>d. ss s = Some d \<and> d \<le> now}"
    using assms(1) by (auto simp: expire_sessions_def Let_def split: option.splits)
qed

theorem expired_sessions_announced_witness:
  "fst (expire_sessions [SessionId 7] 30 [SessionId 7 \<mapsto> (20 :: nat)]) =
       (\<lambda>s. case [SessionId 7 \<mapsto> (20 :: nat)] s of Some d \<Rightarrow> if d \<le> 30 then None else Some d | None \<Rightarrow> None)
     \<and> distinct (snd (expire_sessions [SessionId 7] 30 [SessionId 7 \<mapsto> (20 :: nat)]))
     \<and> set (snd (expire_sessions [SessionId 7] 30 [SessionId 7 \<mapsto> (20 :: nat)])) =
         {Event (SessionTimedOut s) | s. \<exists>d. [SessionId 7 \<mapsto> (20 :: nat)] s = Some d \<and> d \<le> 30}"
  by (rule expired_sessions_announced) simp_all

end
