(* ===== verification/Client.thy ===== *)
theory Client
  imports Connection
begin

text \<open>
  The operations of \<open>Klf200Client\<close> (\<open>src/klf200/connection.rs\<close>). An operation sends requests to the
  actor and may then follow the stream of events: the answers of the actor and what the event channel
  delivers are arguments, and the end of the list of deliveries is the timeout of the operation.
\<close>

section \<open>Configuration\<close>

definition DEFAULT_KLF_PORT :: u16 where "DEFAULT_KLF_PORT = 51200"

record Klf200Config =
  kc_host :: string
  kc_port :: u16
  kc_certificate :: "string option"
  kc_connect_timeout :: nat
  kc_connection :: ConnectionSettings

definition Klf200Config_new :: "string \<Rightarrow> Klf200Config" where
  "Klf200Config_new host =
     \<lparr>kc_host = host, kc_port = DEFAULT_KLF_PORT, kc_certificate = None, kc_connect_timeout = 10000,
      kc_connection = ConnectionSettings_default\<rparr>"

section \<open>The command of a response\<close>

primrec response_command :: "Response \<Rightarrow> CommandId" where
  "response_command (ErrorNotification _) = GW_ERROR_NTF"
| "response_command (Acknowledgement command) = command"
| "response_command (UnknownResponse command _) = command"
| "response_command (OperationStatus command _) = command"
| "response_command (PasswordEntered _) = GW_PASSWORD_ENTER_CFM"
| "response_command (PasswordChanged _) = GW_PASSWORD_CHANGE_CFM"
| "response_command (PasswordChangedNotification _) = GW_PASSWORD_CHANGE_NTF"
| "response_command (Version _) = GW_GET_VERSION_CFM"
| "response_command (ProtocolVersion _) = GW_GET_PROTOCOL_VERSION_CFM"
| "response_command (GatewayState _) = GW_GET_STATE_CFM"
| "response_command (NetworkSetup _) = GW_GET_NETWORK_SETUP_CFM"
| "response_command (LocalTime _) = GW_GET_LOCAL_TIME_CFM"
| "response_command (SystemTableData _) = GW_CS_GET_SYSTEMTABLE_DATA_NTF"
| "response_command (NodeDiscoveryResult _) = GW_CS_DISCOVER_NODES_NTF"
| "response_command (NodesRemoved _) = GW_CS_REMOVE_NODES_CFM"
| "response_command (ControllerCopyResult _) = GW_CS_CONTROLLER_COPY_NTF"
| "response_command (KeyChangeResult result) = kcr_command result"
| "response_command (PgcJob _) = GW_CS_PGC_JOB_NTF"
| "response_command (SystemTableUpdate _) = GW_CS_SYSTEM_TABLE_UPDATE_NTF"
| "response_command (ConfigurationActivationResult _) = GW_CS_ACTIVATE_CONFIGURATION_MODE_CFM"
| "response_command (NodeMutationResult result) = nmr_command result"
| "response_command (GroupOperationResult result) = gor_command result"
| "response_command (GroupInformation notification) = gin_command notification"
| "response_command (GroupChange _) = GW_GROUP_INFORMATION_CHANGED_NTF"
| "response_command (AllGroupsAccepted _) = GW_GET_ALL_GROUPS_INFORMATION_CFM"
| "response_command (GroupDeleted _) = GW_GROUP_DELETED_NTF"
| "response_command (SessionCommandResult result) = scr_command result"
| "response_command (WinkFinished _) = GW_WINK_SEND_NTF"
| "response_command (LimitationStatus _) = GW_LIMITATION_STATUS_NTF"
| "response_command (ModeNotification _) = GW_MODE_SEND_NTF"
| "response_command (SceneStatusResult result) = ssr_command result"
| "response_command (SceneInitializationResult _) = GW_INITIALIZE_SCENE_NTF"
| "response_command (SceneObjectResult result) = sor_command result"
| "response_command (SceneListAccepted _) = GW_GET_SCENE_LIST_CFM"
| "response_command (SceneList _) = GW_GET_SCENE_LIST_NTF"
| "response_command (SceneInformation _) = GW_GET_SCENE_INFOAMATION_NTF"
| "response_command (SceneSessionResult result) = sser_command result"
| "response_command (SceneChange _) = GW_SCENE_INFORMATION_CHANGED_NTF"
| "response_command (ProductGroupResult _) = GW_ACTIVATE_PRODUCTGROUP_CFM"
| "response_command (ProductGroupNotification _) = GW_ACTIVATE_PRODUCTGROUP_NTF"
| "response_command (ContactInputLinks _) = GW_GET_CONTACT_INPUT_LINK_LIST_CFM"
| "response_command (ContactInputOperationResult result) = cor_command result"
| "response_command (ActivationLogHeader _) = GW_GET_ACTIVATION_LOG_HEADER_CFM"
| "response_command (ActivationLogEntry entry) = ale_command entry"
| "response_command (MultipleActivationLogResult _) = GW_GET_MULTIPLE_ACTIVATION_LOG_LINES_CFM"
| "response_command (NodeInformationAccepted _ _) = GW_GET_NODE_INFORMATION_CFM"
| "response_command (AllNodesInformationAccepted _ _) = GW_GET_ALL_NODES_INFORMATION_CFM"
| "response_command (NodeInformation _) = GW_GET_ALL_NODES_INFORMATION_NTF"
| "response_command (NodeInformationChanged _) = GW_NODE_INFORMATION_CHANGED_NTF"
| "response_command (NodeStatePosition _) = GW_NODE_STATE_POSITION_CHANGED_NTF"
| "response_command (CommandAccepted _ _) = GW_COMMAND_SEND_CFM"
| "response_command (CommandRunStatus _) = GW_COMMAND_RUN_STATUS_NTF"
| "response_command (CommandRemainingTime _ _ _ _) = GW_COMMAND_REMAINING_TIME_NTF"
| "response_command (SessionFinished _) = GW_SESSION_FINISHED_NTF"
| "response_command (StatusAccepted _ _) = GW_STATUS_REQUEST_CFM"
| "response_command (StatusNotification _) = GW_STATUS_REQUEST_NTF"

definition unexpected_response :: "string \<Rightarrow> Response \<Rightarrow> klf_error" where
  "unexpected_response operation response = UnexpectedResponseError operation (response_command response)"

section \<open>Requests\<close>

text \<open>What becomes of a command put into the actor's channel.\<close>

datatype 'a delivery = ChannelClosed | ReplyDropped | Replied 'a

definition send_unlocked :: "(Request \<Rightarrow> Response result delivery) \<Rightarrow> Request \<Rightarrow> Response result" where
  "send_unlocked actor request =
     (case actor request of
        ChannelClosed \<Rightarrow> Err ConnectionClosed
      | ReplyDropped \<Rightarrow> Err ConnectionClosed
      | Replied r \<Rightarrow> r)"

text \<open>\<open>send\<close> holds the request gate; in a sequential reading it is \<open>send_unlocked\<close>.\<close>

definition send :: "(Request \<Rightarrow> Response result delivery) \<Rightarrow> Request \<Rightarrow> Response result" where
  "send actor request = send_unlocked actor request"

definition login :: "(Request \<Rightarrow> Response result delivery) \<Rightarrow> string \<Rightarrow> unit result" where
  "login actor password =
     and_then (password_enter password) (\<lambda>request.
     and_then (send actor request) (\<lambda>response.
       (case response of
          PasswordEntered accepted \<Rightarrow> if accepted then Ok () else Err AuthenticationRejected
        | _ \<Rightarrow> Err (unexpected_response ''password login'' response))))"

definition version :: "(Request \<Rightarrow> Response result delivery) \<Rightarrow> Version result" where
  "version actor =
     and_then (send actor GetVersion) (\<lambda>response.
       (case response of
          Version v \<Rightarrow> Ok v
        | _ \<Rightarrow> Err (unexpected_response ''version request'' response)))"

definition protocol_version :: "(Request \<Rightarrow> Response result delivery) \<Rightarrow> ProtocolVersion result" where
  "protocol_version actor =
     and_then (send actor GetProtocolVersion) (\<lambda>response.
       (case response of
          ProtocolVersion v \<Rightarrow> Ok v
        | _ \<Rightarrow> Err (unexpected_response ''protocol version request'' response)))"

definition gateway_state :: "(Request \<Rightarrow> Response result delivery) \<Rightarrow> GatewayState result" where
  "gateway_state actor =
     and_then (send actor GetState) (\<lambda>response.
       (case response of
          GatewayState state \<Rightarrow> Ok state
        | _ \<Rightarrow> Err (unexpected_response ''gateway state request'' response)))"

section \<open>Operations that follow the events\<close>

text \<open>What a receiver of the broadcast channel yields.\<close>

datatype received = Received ConnectionEvent | Lagged nat | Closed

text \<open>
  The three collecting loops treat everything but their own notifications alike: a closed connection,
  a protocol error and a lagging receiver end them, other events are skipped.
\<close>

fun discover_nodes_loop :: "received list \<Rightarrow> NodeInformation list \<Rightarrow> NodeInformation list result" where
  "discover_nodes_loop [] nodes = Err (RequestTimeout GW_GET_ALL_NODES_INFORMATION_REQ)"
| "discover_nodes_loop (Received (Notification response) # events) nodes =
     (case response of
        NodeInformation node \<Rightarrow> discover_nodes_loop events (nodes @ [node])
      | Acknowledgement command \<Rightarrow>
          if command = GW_GET_ALL_NODES_INFORMATION_FINISHED_NTF then Ok nodes
          else discover_nodes_loop events nodes
      | _ \<Rightarrow> discover_nodes_loop events nodes)"
| "discover_nodes_loop (Received (Disconnected reason) # events) nodes = Err ConnectionClosed"
| "discover_nodes_loop (Closed # events) nodes = Err ConnectionClosed"
| "discover_nodes_loop (Received (ProtocolError message) # events) nodes = Err (Protocol message)"
| "discover_nodes_loop (Received other # events) nodes = discover_nodes_loop events nodes"
| "discover_nodes_loop (Lagged n # events) nodes =
     Err (InvalidRequest ''node discovery event receiver lagged'')"

definition discover_nodes ::
  "(Request \<Rightarrow> Response result delivery) \<Rightarrow> received list \<Rightarrow> NodeInformation list result"
where
  "discover_nodes actor events =
     and_then (send_unlocked actor GetAllNodesInformation) (\<lambda>response.
       (case response of
          AllNodesInformationAccepted status _ \<Rightarrow>
            if status = 0 then discover_nodes_loop events [] else Err (DiscoveryRejected status)
        | _ \<Rightarrow> Err (unexpected_response ''node discovery'' response)))"

fun node_information_loop :: "NodeId \<Rightarrow> received list \<Rightarrow> NodeInformation result" where
  "node_information_loop node_id [] = Err (RequestTimeout GW_GET_NODE_INFORMATION_REQ)"
| "node_information_loop node_id (Received (Notification response) # events) =
     (case response of
        NodeInformation information \<Rightarrow>
          if ni_node_id information = node_id then Ok information
          else node_information_loop node_id events
      | _ \<Rightarrow> node_information_loop node_id events)"
| "node_information_loop node_id (Received (Disconnected reason) # events) = Err ConnectionClosed"
| "node_information_loop node_id (Closed # events) = Err ConnectionClosed"
| "node_information_loop node_id (Received (ProtocolError message) # events) = Err (Protocol message)"
| "node_information_loop node_id (Received other # events) = node_information_loop node_id events"
| "node_information_loop node_id (Lagged n # events) =
     Err (InvalidRequest ''node information event receiver lagged'')"

definition node_information ::
  "(Request \<Rightarrow> Response result delivery) \<Rightarrow> received list \<Rightarrow> NodeId \<Rightarrow> NodeInformation result"
where
  "node_information actor events node_id =
     and_then (send_unlocked actor (GetNodeInformation node_id)) (\<lambda>response.
       (case response of
          NodeInformationAccepted status confirmed \<Rightarrow>
            if status = 0 then
              (if confirmed = node_id then node_information_loop node_id events
               else Err (InvalidRequest ''node information confirmation referenced another node''))
            else Err (DiscoveryRejected status)
        | _ \<Rightarrow> Err (unexpected_response ''node information request'' response)))"

fun discover_groups_loop :: "received list \<Rightarrow> GroupInformation list \<Rightarrow> GroupInformation list result" where
  "discover_groups_loop [] groups = Err (RequestTimeout GW_GET_ALL_GROUPS_INFORMATION_REQ)"
| "discover_groups_loop (Received (Notification response) # events) groups =
     (case response of
        GroupInformation notification \<Rightarrow>
          if gin_command notification = GW_GET_ALL_GROUPS_INFORMATION_NTF
          then discover_groups_loop events (groups @ [gin_information notification])
          else discover_groups_loop events groups
      | Acknowledgement command \<Rightarrow>
          if command = GW_GET_ALL_GROUPS_INFORMATION_FINISHED_NTF then Ok groups
          else discover_groups_loop events groups
      | _ \<Rightarrow> discover_groups_loop events groups)"
| "discover_groups_loop (Received (Disconnected reason) # events) groups = Err ConnectionClosed"
| "discover_groups_loop (Closed # events) groups = Err ConnectionClosed"
| "discover_groups_loop (Received (ProtocolError message) # events) groups = Err (Protocol message)"
| "discover_groups_loop (Received other # events) groups = discover_groups_loop events groups"
| "discover_groups_loop (Lagged n # events) groups =
     Err (InvalidRequest ''group discovery event receiver lagged'')"

definition discover_groups ::
  "(Request \<Rightarrow> Response result delivery) \<Rightarrow> received list \<Rightarrow> GroupInformation list result"
where
  "discover_groups actor events =
     and_then (send_unlocked actor (NodeGroup (GetAllGroups False 0))) (\<lambda>response.
       (case response of
          AllGroupsAccepted accepted \<Rightarrow>
            if aga_status accepted = 0 then discover_groups_loop events []
            else if aga_status accepted = 2 then Ok []
            else Err (DiscoveryRejected (aga_status accepted))
        | _ \<Rightarrow> Err (unexpected_response ''group discovery'' response)))"

section \<open>Shutdown\<close>

definition acknowledged :: "string \<Rightarrow> CommandId \<Rightarrow> Response result \<Rightarrow> unit result" where
  "acknowledged operation expected answer =
     and_then answer (\<lambda>response.
       if response = Acknowledgement expected then Ok ()
       else Err (unexpected_response operation response))"

text \<open>\<open>Result::and\<close>.\<close>

definition and_result :: "unit result \<Rightarrow> unit result \<Rightarrow> unit result" where
  "and_result r s = and_then r (\<lambda>_. s)"

definition shutdown_inner ::
  "(Request \<Rightarrow> Response result delivery) \<Rightarrow> unit result delivery \<Rightarrow> bool \<Rightarrow> unit result"
where
  "shutdown_inner actor stopped reboot =
     (let monitor_result =
            acknowledged ''house monitor disable'' GW_HOUSE_STATUS_MONITOR_DISABLE_CFM
              (send_unlocked actor HouseStatusMonitorDisable);
          reboot_result =
            (if reboot
             then acknowledged ''gateway reboot'' GW_REBOOT_CFM (send_unlocked actor Reboot)
             else Ok ())
      in case stopped of
           ChannelClosed \<Rightarrow> and_result (and_result reboot_result monitor_result) (Err ClientClosed)
         | ReplyDropped \<Rightarrow> Err ConnectionClosed
         | Replied shutdown_result \<Rightarrow>
             and_then shutdown_result (\<lambda>_.
               (case reboot_result of
                  Err error \<Rightarrow> Err error
                | Ok _ \<Rightarrow> if reboot then Ok () else monitor_result
                | Panic \<Rightarrow> Panic)))"

definition shutdown :: "(Request \<Rightarrow> Response result delivery) \<Rightarrow> unit result delivery \<Rightarrow> unit result" where
  "shutdown actor stopped = shutdown_inner actor stopped False"

definition shutdown_and_reboot ::
  "(Request \<Rightarrow> Response result delivery) \<Rightarrow> unit result delivery \<Rightarrow> unit result"
where
  "shutdown_and_reboot actor stopped = shutdown_inner actor stopped True"

section \<open>Responses name their command\<close>

lemma response_command_lists:
  "decode_system_table_data p c = Ok r \<Longrightarrow> response_command r = GW_CS_GET_SYSTEMTABLE_DATA_NTF"
  "decode_scene_list p c = Ok r \<Longrightarrow> response_command r = GW_GET_SCENE_LIST_NTF"
  "decode_scene_information p c = Ok r \<Longrightarrow> response_command r = GW_GET_SCENE_INFOAMATION_NTF"
  "decode_contact_input_links p c = Ok r \<Longrightarrow> response_command r = GW_GET_CONTACT_INPUT_LINK_LIST_CFM"
  by (auto simp: decode_system_table_data_def decode_scene_list_def decode_scene_information_def
      decode_contact_input_links_def outcome_iffs Let_def split: if_splits)

lemma response_command_gateway: "decode_gateway c p = Ok r \<Longrightarrow> response_command r = c"
  by (auto simp: decode_gateway_def outcome_iffs split: if_splits)

lemma response_command_families:
  "decode_configuration c p = Ok r \<Longrightarrow> response_command r = c"
  "decode_node_group c p = Ok r \<Longrightarrow> response_command r = c"
  "decode_command_extension c p = Ok r \<Longrightarrow> response_command r = c"
  "decode_scene_contact c p = Ok r \<Longrightarrow> response_command r = c"
  "decode_activation_log c p = Ok r \<Longrightarrow> response_command r = c"
  by (auto simp: decode_configuration_def decode_node_group_def decode_command_extension_def
      decode_scene_contact_def decode_activation_log_def outcome_iffs Let_def response_command_lists
      split: if_splits)

lemma response_command_core:
  "decode_core c p = Ok r \<Longrightarrow>
     response_command r = c \<or> (\<exists>n. r = NodeInformation n) \<and> c = GW_GET_NODE_INFORMATION_NTF"
  unfolding decode_core_def
  by (auto simp: outcome_iffs decode_session_status_def response_command_gateway split: if_splits)

lemma response_command_decode:
  assumes "Response_decode f = Ok r"
  shows "response_command r = frame_command f
     \<or> (\<exists>n. r = NodeInformation n) \<and> frame_command f = GW_GET_NODE_INFORMATION_NTF"
  using assms unfolding Response_decode_def Let_def
  by (simp split: if_splits add: response_command_families response_command_core)

section \<open>Discovery\<close>

text \<open>An event that a collecting loop reads without stopping.\<close>

fun passes :: "CommandId \<Rightarrow> received \<Rightarrow> bool" where
  "passes finished (Received (Notification response)) \<longleftrightarrow> response \<noteq> Acknowledgement finished"
| "passes finished (Received (UnexpectedResponse response)) \<longleftrightarrow> True"
| "passes finished (Received (SessionTimedOut s)) \<longleftrightarrow> True"
| "passes finished _ \<longleftrightarrow> False"

definition finished_event :: "CommandId \<Rightarrow> received" where
  "finished_event finished = Received (Notification (Acknowledgement finished))"

fun announced_node :: "received \<Rightarrow> NodeInformation list" where
  "announced_node (Received (Notification response)) =
     (case response of NodeInformation n \<Rightarrow> [n] | _ \<Rightarrow> [])"
| "announced_node _ = []"

fun announced_group :: "received \<Rightarrow> GroupInformation list" where
  "announced_group (Received (Notification response)) =
     (case response of
        GroupInformation g \<Rightarrow>
          if gin_command g = GW_GET_ALL_GROUPS_INFORMATION_NTF then [gin_information g] else []
      | _ \<Rightarrow> [])"
| "announced_group _ = []"

lemma discover_nodes_loop_step:
  assumes "passes GW_GET_ALL_NODES_INFORMATION_FINISHED_NTF e"
  shows "discover_nodes_loop (e # es) nodes = discover_nodes_loop es (nodes @ announced_node e)"
  using assms
  by (cases "(GW_GET_ALL_NODES_INFORMATION_FINISHED_NTF, e)" rule: passes.cases)
    (auto split: Response.splits)

lemma discover_nodes_loop_collects:
  assumes "list_all (passes GW_GET_ALL_NODES_INFORMATION_FINISHED_NTF) events"
  shows "discover_nodes_loop (events @ rest) nodes =
      discover_nodes_loop rest (nodes @ concat (map announced_node events))"
  using assms
  by (induction events arbitrary: nodes) (simp_all add: discover_nodes_loop_step del: discover_nodes_loop.simps)

lemma discover_groups_loop_step:
  assumes "passes GW_GET_ALL_GROUPS_INFORMATION_FINISHED_NTF e"
  shows "discover_groups_loop (e # es) groups = discover_groups_loop es (groups @ announced_group e)"
  using assms
  by (cases "(GW_GET_ALL_GROUPS_INFORMATION_FINISHED_NTF, e)" rule: passes.cases)
    (auto split: Response.splits)

lemma discover_groups_loop_collects:
  assumes "list_all (passes GW_GET_ALL_GROUPS_INFORMATION_FINISHED_NTF) events"
  shows "discover_groups_loop (events @ rest) groups =
      discover_groups_loop rest (groups @ concat (map announced_group events))"
  using assms
  by (induction events arbitrary: groups) (simp_all add: discover_groups_loop_step del: discover_groups_loop.simps)

lemma node_information_loop_matches:
  "node_information_loop n events = Ok information \<Longrightarrow> ni_node_id information = n"
  by (induction n events rule: node_information_loop.induct) (auto split: Response.splits if_splits)

lemma node_information_matches:
  assumes "node_information actor events n = Ok information"
  shows "ni_node_id information = n"
proof -
  obtain response where answer: "send_unlocked actor (GetNodeInformation n) = Ok response"
    using assms by (auto simp: node_information_def outcome_iffs)
  show ?thesis using assms node_information_loop_matches
    by (cases response) (auto simp: node_information_def answer split: if_splits)
qed

section \<open>Shutdown\<close>

lemma acknowledged_Ok_iff: "acknowledged op c answer = Ok u \<longleftrightarrow> answer = Ok (Acknowledgement c)"
  by (cases answer) (auto simp: acknowledged_def)

lemma shutdown_Ok_iff:
  "shutdown actor stopped = Ok u \<longleftrightarrow>
     (\<exists>v. stopped = Replied (Ok v))
     \<and> send_unlocked actor HouseStatusMonitorDisable = Ok (Acknowledgement GW_HOUSE_STATUS_MONITOR_DISABLE_CFM)"
  by (cases stopped) (auto simp: shutdown_def shutdown_inner_def and_result_def outcome_iffs Let_def
      acknowledged_Ok_iff)

lemma shutdown_and_reboot_Ok_iff:
  "shutdown_and_reboot actor stopped = Ok u \<longleftrightarrow>
     (\<exists>v. stopped = Replied (Ok v)) \<and> send_unlocked actor Reboot = Ok (Acknowledgement GW_REBOOT_CFM)"
proof (cases stopped)
  case (Replied r)
  have "(case x of Err error \<Rightarrow> Err error | Ok _ \<Rightarrow> Ok () | Panic \<Rightarrow> Panic) = Ok u \<longleftrightarrow> x = Ok u" for x :: "unit result"
    by (cases x) auto
  then show ?thesis using Replied
    by (auto simp: shutdown_and_reboot_def shutdown_inner_def outcome_iffs Let_def acknowledged_Ok_iff)
qed (auto simp: shutdown_and_reboot_def shutdown_inner_def and_result_def outcome_iffs Let_def)

section \<open>Properties\<close>

text \<open>
  The command a response is reported under is the command of the frame it was decoded from, with
  one exception: node information asked for a single node is reported as that of all nodes.
\<close>

theorem response_names_its_command:
  assumes "Response_decode f = Ok r"
  shows "response_command r = frame_command f
     \<or> (\<exists>n. r = NodeInformation n) \<and> frame_command f = GW_GET_NODE_INFORMATION_NTF"
  by (rule response_command_decode [OF assms])

theorem response_names_its_command_witness:
  "response_command (PasswordEntered True) = frame_command (Frame_new GW_PASSWORD_ENTER_CFM [0])
     \<or> (\<exists>n. PasswordEntered True = NodeInformation n)
       \<and> frame_command (Frame_new GW_PASSWORD_ENTER_CFM [0]) = GW_GET_NODE_INFORMATION_NTF"
  by (rule response_names_its_command)
    (simp add: Response_decode_def decode_core_def decode_gateway_def Frame_new_def)

definition example_information :: NodeInformation where
  "example_information =
     \<lparr>ni_node_id = NodeId 9, ni_order = 0, ni_placement = 0, ni_name = ''shutter'', ni_velocity = 0,
      ni_node_type_sub_type = 128, ni_product_group = 0, ni_product_type = 0, ni_variation = 0,
      ni_power_mode = 0, ni_build_number = 0, ni_serial_number = [0, 0, 0, 0, 0, 0, 0, 1],
      ni_operating_state = Done, ni_current_position = Relative FULLY_OPEN,
      ni_target_position = Relative FULLY_OPEN,
      ni_functional_positions = [Ignore, Ignore, Ignore, Ignore], ni_remaining_time = 0,
      ni_timestamp = ProtocolTimestamp 0, ni_aliases = []\<rparr>"

text \<open>
  C36. Once the gateway has accepted a discovery, the result is exactly the announced nodes, in the
  order of their notifications, up to the notification that ends it, unless the connection, the
  protocol or the receiver fails before it.
\<close>

theorem discovery_collects_announced_nodes:
  assumes "send_unlocked actor GetAllNodesInformation = Ok (AllNodesInformationAccepted 0 count)"
    "list_all (passes GW_GET_ALL_NODES_INFORMATION_FINISHED_NTF) events"
  shows "discover_nodes actor (events @ finished_event GW_GET_ALL_NODES_INFORMATION_FINISHED_NTF # rest)
     = Ok (concat (map announced_node events))"
  using assms
  by (simp add: discover_nodes_def discover_nodes_loop_collects finished_event_def)

theorem discovery_collects_announced_nodes_witness:
  "discover_nodes (\<lambda>_. Replied (Ok (AllNodesInformationAccepted 0 1)))
      ([Received (SessionTimedOut (SessionId 5)), Received (Notification (NodeInformation example_information)),
        Received (Notification (GroupDeleted (GroupId 1)))]
        @ finished_event GW_GET_ALL_NODES_INFORMATION_FINISHED_NTF # [])
     = Ok [example_information]"
proof -
  let ?events = "[Received (SessionTimedOut (SessionId 5)),
    Received (Notification (NodeInformation example_information)), Received (Notification (GroupDeleted (GroupId 1)))]"
  have "send_unlocked (\<lambda>_. Replied (Ok (AllNodesInformationAccepted 0 1))) GetAllNodesInformation =
      Ok (AllNodesInformationAccepted 0 1)" by (simp add: send_unlocked_def)
  from discovery_collects_announced_nodes [OF this, of ?events "[]"] show ?thesis by simp
qed

text \<open>
  The information read for one node is the information of that node, whatever other notifications
  arrive in between.
\<close>

theorem node_information_is_of_the_node:
  assumes "node_information actor events node = Ok information"
  shows "ni_node_id information = node"
  by (rule node_information_matches [OF assms])

theorem node_information_is_of_the_node_witness:
  "ni_node_id example_information = NodeId 9"
  by (rule node_information_is_of_the_node
        [where actor = "\<lambda>_. Replied (Ok (NodeInformationAccepted 0 (NodeId 9)))"
          and events = "[Received (Notification (NodeInformation example_information))]"])
    (simp add: node_information_def send_unlocked_def example_information_def)

text \<open>
  A shutdown succeeds exactly when the stream was closed and the gateway confirmed that the house
  monitor is off; with a reboot, exactly when the stream was closed and the reboot was confirmed.
\<close>

theorem shutdown_outcome:
  "(shutdown actor stopped = Ok u \<longleftrightarrow>
      (\<exists>v. stopped = Replied (Ok v))
      \<and> send_unlocked actor HouseStatusMonitorDisable
          = Ok (Acknowledgement GW_HOUSE_STATUS_MONITOR_DISABLE_CFM))
   \<and> (shutdown_and_reboot actor stopped = Ok u \<longleftrightarrow>
      (\<exists>v. stopped = Replied (Ok v)) \<and> send_unlocked actor Reboot = Ok (Acknowledgement GW_REBOOT_CFM))"
  by (simp only: shutdown_Ok_iff shutdown_and_reboot_Ok_iff simp_thms)

end
