(* ===== verification/Rust_Collections.thy ===== *)
theory Rust_Collections
  imports Prelude
begin

text \<open>
  \<open>BTreeMap\<close> and \<open>BTreeSet\<close> of the Rust standard library: a map is the list of its entries in
  ascending key order, which is the order every iteration of it has.
\<close>

section \<open>Operations\<close>

type_synonym ('k, 'v) btree_map = "('k \<times> 'v) list"

abbreviation btree_get :: "('k, 'v) btree_map \<Rightarrow> 'k \<Rightarrow> 'v option" where
  "btree_get m k \<equiv> map_of m k"

abbreviation btree_keys :: "('k, 'v) btree_map \<Rightarrow> 'k list" where
  "btree_keys m \<equiv> map fst m"

fun btree_insert :: "'k :: linorder \<Rightarrow> 'v \<Rightarrow> ('k, 'v) btree_map \<Rightarrow> ('k, 'v) btree_map" where
  "btree_insert k v [] = [(k, v)]"
| "btree_insert k v ((a, b) # m) =
     (if k < a then (k, v) # (a, b) # m
      else if k = a then (k, v) # m
      else (a, b) # btree_insert k v m)"

definition btree_remove :: "'k \<Rightarrow> ('k, 'v) btree_map \<Rightarrow> ('k, 'v) btree_map" where
  "btree_remove k m = filter (\<lambda>(a, b). a \<noteq> k) m"

definition btree_wf :: "('k :: linorder, 'v) btree_map \<Rightarrow> bool" where
  "btree_wf m \<longleftrightarrow> sorted_wrt (<) (btree_keys m)"

text \<open>A sorted set is the ascending list of its elements.\<close>

definition btree_set :: "'k :: linorder list \<Rightarrow> 'k list" where
  "btree_set xs = sorted_list_of_set (set xs)"

section \<open>The contract of a map\<close>

locale key_value_map =
  fixes inv :: "'m \<Rightarrow> bool"
    and lookup :: "'m \<Rightarrow> 'k \<Rightarrow> 'v option"
    and put :: "'k \<Rightarrow> 'v \<Rightarrow> 'm \<Rightarrow> 'm"
    and drop_key :: "'k \<Rightarrow> 'm \<Rightarrow> 'm"
    and keys :: "'m \<Rightarrow> 'k list"
  assumes lookup_put: "inv m \<Longrightarrow> lookup (put k v m) j = (if j = k then Some v else lookup m j)"
    and lookup_drop_key: "inv m \<Longrightarrow> lookup (drop_key k m) j = (if j = k then None else lookup m j)"
    and set_keys: "inv m \<Longrightarrow> set (keys m) = {k. lookup m k \<noteq> None}"
    and inv_put: "inv m \<Longrightarrow> inv (put k v m)"
    and inv_drop_key: "inv m \<Longrightarrow> inv (drop_key k m)"
begin

text \<open>Inserting the values of a list under their own keys, the last one of a key winning.\<close>

definition put_all :: "('v \<Rightarrow> 'k) \<Rightarrow> 'v list \<Rightarrow> 'm \<Rightarrow> 'm" where
  "put_all key vs m = foldl (\<lambda>m v. put (key v) v m) m vs"

definition drop_all :: "'k list \<Rightarrow> 'm \<Rightarrow> 'm" where
  "drop_all ks m = foldl (\<lambda>m k. drop_key k m) m ks"

lemma inv_put_all: "inv m \<Longrightarrow> inv (put_all key vs m)"
  unfolding put_all_def by (induction vs arbitrary: m) (auto simp: inv_put)

lemma inv_drop_all: "inv m \<Longrightarrow> inv (drop_all ks m)"
  unfolding drop_all_def by (induction ks arbitrary: m) (auto simp: inv_drop_key)

lemma lookup_drop_all: "inv m \<Longrightarrow> lookup (drop_all ks m) j = (if j \<in> set ks then None else lookup m j)"
  unfolding drop_all_def
  by (induction ks arbitrary: m) (auto simp: inv_drop_key lookup_drop_key)

lemma lookup_put_all:
  "inv m \<Longrightarrow> lookup (put_all key vs m) j =
     (case find (\<lambda>v. key v = j) (rev vs) of Some v \<Rightarrow> Some v | None \<Rightarrow> lookup m j)"
proof (induction vs rule: rev_induct)
  case Nil
  then show ?case by (simp add: put_all_def)
next
  case (snoc v vs)
  have "put_all key (vs @ [v]) m = put (key v) v (put_all key vs m)" by (simp add: put_all_def)
  then show ?case using snoc by (simp add: lookup_put inv_put_all)
qed

lemma lookup_put_all_keyed:
  assumes "inv m" "\<And>k v. lookup m k = Some v \<Longrightarrow> key v = k" "lookup (put_all key vs m) j = Some v"
  shows "key v = j"
  using assms by (auto simp: lookup_put_all find_Some_iff split: option.splits)

lemma keys_put_all: "inv m \<Longrightarrow> set (keys (put_all key vs m)) = set (keys m) \<union> key ` set vs"
  by (auto simp: set_keys inv_put_all lookup_put_all find_None_iff split: option.splits)

lemma keys_drop_all: "inv m \<Longrightarrow> set (keys (drop_all ks m)) = set (keys m) - set ks"
  by (auto simp: set_keys inv_drop_all lookup_drop_all)

end

section \<open>The sorted list meets it\<close>

lemma btree_wf_Nil [simp]: "btree_wf []"
  by (simp add: btree_wf_def)

lemma btree_wf_Cons: "btree_wf ((a, b) # m) \<longleftrightarrow> (\<forall>k \<in> set (btree_keys m). a < k) \<and> btree_wf m"
  by (auto simp: btree_wf_def)

lemma btree_wf_distinct: "btree_wf m \<Longrightarrow> distinct (btree_keys m)"
  by (simp add: btree_wf_def strict_sorted_iff)

lemma set_btree_insert_keys: "set (btree_keys (btree_insert k v m)) = insert k (set (btree_keys m))"
  by (induction k v m rule: btree_insert.induct) auto

lemma btree_wf_insert: "btree_wf m \<Longrightarrow> btree_wf (btree_insert k v m)"
proof (induction k v m rule: btree_insert.induct)
  case (2 k v a b m)
  have "set (btree_keys (btree_insert k v m)) = insert k (set (btree_keys m))"
    by (rule set_btree_insert_keys)
  then show ?case using 2 by (auto simp: btree_wf_Cons simp del: set_map)
qed (simp add: btree_wf_Cons)

lemma btree_get_insert:
  "btree_wf m \<Longrightarrow> btree_get (btree_insert k v m) j = (if j = k then Some v else btree_get m j)"
proof (induction k v m rule: btree_insert.induct)
  case (2 k v a b m)
  have "btree_get m k = None" if "k < a"
    using 2(2) that by (auto simp: btree_wf_Cons map_of_eq_None_iff)
  then show ?case using 2 by (auto simp: btree_wf_Cons map_of_eq_None_iff)
qed simp

lemma btree_wf_remove: "btree_wf m \<Longrightarrow> btree_wf (btree_remove k m)"
  unfolding btree_wf_def btree_remove_def
  by (induction m) auto

lemma btree_get_remove: "btree_get (btree_remove k m) j = (if j = k then None else btree_get m j)"
  unfolding btree_remove_def by (induction m) auto

interpretation bt: key_value_map btree_wf map_of btree_insert btree_remove btree_keys
  by unfold_locales
    (auto simp: btree_get_insert btree_get_remove btree_wf_insert btree_wf_remove
      map_of_eq_None_iff image_iff dest: map_of_SomeD weak_map_of_SomeI)

lemma distinct_keys_entries:
  assumes "distinct (btree_keys m)"
  shows "map (\<lambda>k. (k, the (map_of m k))) (btree_keys m) = m"
proof (rule nth_equalityI)
  fix i assume "i < length (map (\<lambda>k. (k, the (map_of m k))) (btree_keys m))"
  then have i: "i < length m" by simp
  then have "(fst (m ! i), snd (m ! i)) \<in> set m" by simp
  then have "map_of m (fst (m ! i)) = Some (snd (m ! i))" using assms by (rule map_of_is_SomeI [rotated])
  then show "map (\<lambda>k. (k, the (map_of m k))) (btree_keys m) ! i = m ! i" using i by simp
qed simp

lemma btree_ext:
  assumes "btree_wf m" "btree_wf n" "map_of m = map_of n"
  shows "m = n"
proof -
  have "set (btree_keys m) = set (btree_keys n)"
    using assms(3) by (metis dom_map_of_conv_image_fst set_map)
  then have keys: "btree_keys m = btree_keys n"
    using assms(1,2) by (simp add: btree_wf_def strict_sorted_equal)
  then show ?thesis
    using distinct_keys_entries [OF btree_wf_distinct, OF assms(1)]
      distinct_keys_entries [OF btree_wf_distinct, OF assms(2)] assms(3) by metis
qed

end
