(* ===== verification/Velux_Node.thy ===== *)
theory Velux_Node
  imports Response Klf_Display Rust_Collections
begin

text \<open>
  Nodes as the bridge sees them (\<open>src/veluxnode.rs\<close>): actuator types, the state of a cover, the
  resolution of cover actions, and the cache of nodes that follows the gateway's notifications.
\<close>

section \<open>Actuators\<close>

datatype ActuatorType =
    VenetianBlind | RollerShutter | Awning | WindowOpener | GarageOpener | Light | GateOpener
  | RollingDoorOpener | Lock | Blind | Beacon | DualShutter | HeatingTemperatureInterface
  | OnOffSwitch | HorizontalAwning | ExteriorVenetianBlind | LouvreBlind | CurtainTrack
  | VentilationPoint | ExteriorHeating | HeatPump | IntrusionAlarm | SwingingShutter
  | UnknownActuator u16

definition from_code :: "u16 \<Rightarrow> ActuatorType" where
  "from_code code =
     (if code = 1 then VenetianBlind
      else if code = 2 then RollerShutter
      else if code = 3 then Awning
      else if code = 4 then WindowOpener
      else if code = 5 then GarageOpener
      else if code = 6 then Light
      else if code = 7 then GateOpener
      else if code = 8 then RollingDoorOpener
      else if code = 9 then Lock
      else if code = 10 then Blind
      else if code = 12 then Beacon
      else if code = 13 then DualShutter
      else if code = 14 then HeatingTemperatureInterface
      else if code = 15 then OnOffSwitch
      else if code = 16 then HorizontalAwning
      else if code = 17 then ExteriorVenetianBlind
      else if code = 18 then LouvreBlind
      else if code = 19 then CurtainTrack
      else if code = 20 then VentilationPoint
      else if code = 21 then ExteriorHeating
      else if code = 22 then HeatPump
      else if code = 23 then IntrusionAlarm
      else if code = 24 then SwingingShutter
      else UnknownActuator code)"

primrec actuator_code :: "ActuatorType \<Rightarrow> u16" where
  "actuator_code VenetianBlind = 1"
| "actuator_code RollerShutter = 2"
| "actuator_code Awning = 3"
| "actuator_code WindowOpener = 4"
| "actuator_code GarageOpener = 5"
| "actuator_code Light = 6"
| "actuator_code GateOpener = 7"
| "actuator_code RollingDoorOpener = 8"
| "actuator_code Lock = 9"
| "actuator_code Blind = 10"
| "actuator_code Beacon = 12"
| "actuator_code DualShutter = 13"
| "actuator_code HeatingTemperatureInterface = 14"
| "actuator_code OnOffSwitch = 15"
| "actuator_code HorizontalAwning = 16"
| "actuator_code ExteriorVenetianBlind = 17"
| "actuator_code LouvreBlind = 18"
| "actuator_code CurtainTrack = 19"
| "actuator_code VentilationPoint = 20"
| "actuator_code ExteriorHeating = 21"
| "actuator_code HeatPump = 22"
| "actuator_code IntrusionAlarm = 23"
| "actuator_code SwingingShutter = 24"
| "actuator_code (UnknownActuator code) = code"

primrec actuator_label :: "ActuatorType \<Rightarrow> string" where
  "actuator_label VenetianBlind = ''venetian_blind''"
| "actuator_label RollerShutter = ''roller_shutter''"
| "actuator_label Awning = ''awning''"
| "actuator_label WindowOpener = ''window_opener''"
| "actuator_label GarageOpener = ''garage_opener''"
| "actuator_label Light = ''light''"
| "actuator_label GateOpener = ''gate_opener''"
| "actuator_label RollingDoorOpener = ''rolling_door_opener''"
| "actuator_label Lock = ''lock''"
| "actuator_label Blind = ''blind''"
| "actuator_label Beacon = ''beacon''"
| "actuator_label DualShutter = ''dual_shutter''"
| "actuator_label HeatingTemperatureInterface = ''heating_temperature_interface''"
| "actuator_label OnOffSwitch = ''on_off_switch''"
| "actuator_label HorizontalAwning = ''horizontal_awning''"
| "actuator_label ExteriorVenetianBlind = ''exterior_venetian_blind''"
| "actuator_label LouvreBlind = ''louvre_blind''"
| "actuator_label CurtainTrack = ''curtain_track''"
| "actuator_label VentilationPoint = ''ventilation_point''"
| "actuator_label ExteriorHeating = ''exterior_heating''"
| "actuator_label HeatPump = ''heat_pump''"
| "actuator_label IntrusionAlarm = ''intrusion_alarm''"
| "actuator_label SwingingShutter = ''swinging_shutter''"
| "actuator_label (UnknownActuator _) = ''unknown''"

datatype CoverStrategy = MainParameter

definition for_actuator :: "ActuatorType \<Rightarrow> CoverStrategy option" where
  "for_actuator actuator_type =
     (if actuator_type \<in> {VenetianBlind, RollerShutter, Awning, WindowOpener, GarageOpener, GateOpener,
           RollingDoorOpener, Blind, HorizontalAwning, ExteriorVenetianBlind, LouvreBlind,
           CurtainTrack, SwingingShutter}
      then Some MainParameter else None)"

section \<open>Covers\<close>

datatype CoverState = CoverOpen | CoverClosed | CoverOpening | CoverClosing | CoverUnknown
datatype Availability = Available | Unavailable
datatype StatusSource = Discovery | NotificationSource | Poll | CommandSource

record StatusFreshness =
  sf_source :: StatusSource
  sf_timestamp :: "ProtocolTimestamp option"

datatype CoverAction = OpenAction | CloseAction | ToggleAction
datatype CoverEndpoint = EndpointOpen | EndpointClosed

primrec endpoint_parameter :: "CoverEndpoint \<Rightarrow> StandardParameter" where
  "endpoint_parameter EndpointOpen = Relative FULLY_OPEN"
| "endpoint_parameter EndpointClosed = Relative FULLY_CLOSED"

datatype NodeError =
    UnsupportedActuator NodeId
  | PositionUnknown NodeId
  | NodeProtocol string

record VeluxNode =
  vn_id :: NodeId
  vn_name :: string
  vn_order :: u16
  vn_placement :: u8
  vn_serial_number :: "u8 list"
  vn_node_type_sub_type :: u16
  vn_actuator_type :: ActuatorType
  vn_actuator_subtype :: u8
  vn_product_group :: i8
  vn_product_type :: i8
  vn_velocity :: u8
  vn_variation :: u8
  vn_power_mode :: u8
  vn_build_number :: u8
  vn_cover_strategy :: "CoverStrategy option"
  vn_availability :: Availability
  vn_operating_state :: OperatingState
  vn_current_position :: "Percentage option"
  vn_target_position :: "Percentage option"
  vn_remaining_time :: "u16 option"
  vn_freshness :: "StatusFreshness option"

record CoverStatusSnapshot =
  cs_state :: CoverState
  cs_position :: "u8 option"
  cs_target :: "u8 option"
  cs_operating_state :: string
  cs_remaining_time :: "u16 option"

fun relative_position :: "StandardParameter \<Rightarrow> Percentage option" where
  "relative_position (Relative position) = Some position"
| "relative_position _ = None"

definition mqtt_open_percent :: "Percentage \<Rightarrow> u8" where
  "mqtt_open_percent position =
     (let r = rounded_percent position in if r \<le> 100 then 100 - r else 0)"

definition known_remaining_time :: "u16 \<Rightarrow> u16 option" where
  "known_remaining_time seconds = (if seconds \<noteq> 0xFFFF then Some seconds else None)"

primrec operating_state_from_run_status :: "RunStatus \<Rightarrow> OperatingState" where
  "operating_state_from_run_status Completed = Done"
| "operating_state_from_run_status Failed = ExecutionError"
| "operating_state_from_run_status Active = Executing"
| "operating_state_from_run_status (UnknownRunStatus value) = UnknownState value"

primrec operating_state_label :: "OperatingState \<Rightarrow> string" where
  "operating_state_label NonExecuting = ''nonexecuting''"
| "operating_state_label ExecutionError = ''execution_error''"
| "operating_state_label NotUsed = ''not_used''"
| "operating_state_label WaitingForPower = ''waiting_for_power''"
| "operating_state_label Executing = ''executing''"
| "operating_state_label Done = ''done''"
| "operating_state_label (UnknownState _) = ''unknown''"

definition derive_cover_state ::
  "OperatingState \<Rightarrow> Percentage option \<Rightarrow> Percentage option \<Rightarrow> CoverState"
where
  "derive_cover_state operating_state current_position target_position =
     (if operating_state \<in> {Executing, WaitingForPower} then
        (case (current_position, target_position) of
           (Some current, Some target) \<Rightarrow>
             if target > current then CoverClosing
             else if target < current then CoverOpening
             else CoverUnknown
         | _ \<Rightarrow> CoverUnknown)
      else if operating_state \<in> {NonExecuting, Done} then
        (case current_position of
           Some position \<Rightarrow> if position = FULLY_CLOSED then CoverClosed else CoverOpen
         | None \<Rightarrow> CoverUnknown)
      else CoverUnknown)"

section \<open>Nodes\<close>

definition from_information :: "NodeInformation \<Rightarrow> VeluxNode" where
  "from_information information =
     (let actuator_code = drop_bit 6 (ni_node_type_sub_type information);
          actuator_type = from_code actuator_code
      in \<lparr>vn_id = ni_node_id information, vn_name = ni_name information, vn_order = ni_order information,
          vn_placement = ni_placement information, vn_serial_number = ni_serial_number information,
          vn_node_type_sub_type = ni_node_type_sub_type information,
          vn_actuator_type = actuator_type,
          vn_actuator_subtype =
            (case u8_try_from (unat (ni_node_type_sub_type information AND 0x3F)) of
               Some subtype \<Rightarrow> subtype | None \<Rightarrow> 0),
          vn_product_group = ni_product_group information,
          vn_product_type = ni_product_type information, vn_velocity = ni_velocity information,
          vn_variation = ni_variation information, vn_power_mode = ni_power_mode information,
          vn_build_number = ni_build_number information,
          vn_cover_strategy = for_actuator actuator_type, vn_availability = Available,
          vn_operating_state = ni_operating_state information,
          vn_current_position = relative_position (ni_current_position information),
          vn_target_position = relative_position (ni_target_position information),
          vn_remaining_time = known_remaining_time (ni_remaining_time information),
          vn_freshness = Some \<lparr>sf_source = Discovery, sf_timestamp = Some (ni_timestamp information)\<rparr>\<rparr>)"

definition is_controllable :: "VeluxNode \<Rightarrow> bool" where
  "is_controllable node \<longleftrightarrow> vn_cover_strategy node \<noteq> None"

definition state :: "VeluxNode \<Rightarrow> CoverState" where
  "state node =
     derive_cover_state (vn_operating_state node) (vn_current_position node) (vn_target_position node)"

definition snapshot :: "VeluxNode \<Rightarrow> CoverStatusSnapshot" where
  "snapshot node =
     \<lparr>cs_state = state node, cs_position = map_option mqtt_open_percent (vn_current_position node),
      cs_target = map_option mqtt_open_percent (vn_target_position node),
      cs_operating_state = operating_state_label (vn_operating_state node),
      cs_remaining_time = vn_remaining_time node\<rparr>"

definition HEX :: "string" where "HEX = ''0123456789abcdef''"

definition serial_number_hex :: "VeluxNode \<Rightarrow> string" where
  "serial_number_hex node =
     concat (map (\<lambda>byte. [HEX ! unat (drop_bit 4 byte), HEX ! unat (byte AND 0x0F)])
       (vn_serial_number node))"

definition toggle_endpoint :: "VeluxNode \<Rightarrow> (NodeError, CoverEndpoint) outcome" where
  "toggle_endpoint node =
     (let at_rest =
        (case vn_current_position node of
           Some position \<Rightarrow>
             Ok (if position \<ge> from_percent 50 then EndpointOpen else EndpointClosed)
         | None \<Rightarrow> Err (PositionUnknown (vn_id node)))
      in if vn_operating_state node \<in> {Executing, WaitingForPower} then
           (if vn_target_position node = Some FULLY_CLOSED then Ok EndpointOpen
            else if vn_target_position node = Some FULLY_OPEN then Ok EndpointClosed
            else if state node = CoverClosing then Ok EndpointOpen
            else if state node = CoverOpening then Ok EndpointClosed
            else at_rest)
         else at_rest)"

primrec resolve_action :: "VeluxNode \<Rightarrow> CoverAction \<Rightarrow> (NodeError, CoverEndpoint) outcome" where
  "resolve_action node OpenAction = Ok EndpointOpen"
| "resolve_action node CloseAction = Ok EndpointClosed"
| "resolve_action node ToggleAction = toggle_endpoint node"

definition command_target :: "NodeId list \<Rightarrow> (NodeError, CommandTarget) outcome" where
  "command_target nodes =
     (case CommandTarget_new nodes of
        Ok target \<Rightarrow> Ok target
      | Err error \<Rightarrow> Err (NodeProtocol (KlfError_display error))
      | Panic \<Rightarrow> Panic)"

definition command_request :: "VeluxNode \<Rightarrow> SessionId \<Rightarrow> CoverAction \<Rightarrow> (NodeError, Request) outcome" where
  "command_request node session action =
     (if vn_cover_strategy node = None then Err (UnsupportedActuator (vn_id node))
      else
        and_then (resolve_action node action) (\<lambda>endpoint.
        and_then (command_target [vn_id node]) (\<lambda>target.
        Ok (CommandSend
              \<lparr>cr_session_id = session, cr_main_parameter = endpoint_parameter endpoint\<rparr> target))))"

section \<open>Updates of a node\<close>

text \<open>Each update returns the node and whether it changed.\<close>

definition mark_command_accepted :: "VeluxNode \<Rightarrow> CoverEndpoint \<Rightarrow> VeluxNode \<times> bool" where
  "mark_command_accepted node endpoint =
     (let node' = node\<lparr>
            vn_target_position :=
              (case endpoint of EndpointOpen \<Rightarrow> Some FULLY_OPEN | EndpointClosed \<Rightarrow> Some FULLY_CLOSED),
            vn_operating_state := Executing,
            vn_freshness := Some \<lparr>sf_source = CommandSource, sf_timestamp = None\<rparr>\<rparr>
      in (node', node' \<noteq> node))"

definition apply_command_confirmation ::
  "VeluxNode \<Rightarrow> Response \<Rightarrow> SessionId \<Rightarrow> CoverEndpoint \<Rightarrow> VeluxNode \<times> bool"
where
  "apply_command_confirmation node response session endpoint =
     (if response = CommandAccepted session 1 then mark_command_accepted node endpoint
      else (node, False))"

definition apply_information_changed :: "VeluxNode \<Rightarrow> NodeInformationChanged \<Rightarrow> VeluxNode \<times> bool" where
  "apply_information_changed node information =
     (if nc_node_id information \<noteq> vn_id node then (node, False)
      else
        let node' = node\<lparr>vn_name := nc_name information, vn_order := nc_order information,
                      vn_placement := nc_placement information,
                      vn_variation := nc_variation information\<rparr>
        in (node', node' \<noteq> node))"

definition apply_state_position ::
  "VeluxNode \<Rightarrow> NodeStatePosition \<Rightarrow> StatusSource \<Rightarrow> VeluxNode \<times> bool"
where
  "apply_state_position node s source =
     (if np_node_id s \<noteq> vn_id node then (node, False)
      else
        let node' = node\<lparr>
              vn_availability := Available,
              vn_operating_state := np_operating_state s,
              vn_current_position := relative_position (np_current_position s),
              vn_target_position := relative_position (np_target_position s),
              vn_remaining_time := known_remaining_time (np_remaining_time s),
              vn_freshness := Some \<lparr>sf_source = source, sf_timestamp = Some (np_timestamp s)\<rparr>\<rparr>
        in (node', node' \<noteq> node))"

definition apply_status :: "VeluxNode \<Rightarrow> StatusNotification \<Rightarrow> StatusSource \<Rightarrow> VeluxNode \<times> bool" where
  "apply_status node status source =
     (if st_node_id status \<noteq> vn_id node then (node, False)
      else
        (case st_detail status of
           MainDetail target_position current_position remaining_time _ _ \<Rightarrow>
             (let node' = node\<lparr>
                    vn_availability := Available,
                    vn_operating_state := operating_state_from_run_status (st_run_status status),
                    vn_current_position := relative_position current_position,
                    vn_target_position := relative_position target_position,
                    vn_remaining_time := known_remaining_time remaining_time,
                    vn_freshness := Some \<lparr>sf_source = source, sf_timestamp = None\<rparr>\<rparr>
              in (node', node' \<noteq> node))
         | _ \<Rightarrow> (node, False)))"

definition apply_run_status :: "VeluxNode \<Rightarrow> CommandRunStatus \<Rightarrow> VeluxNode \<times> bool" where
  "apply_run_status node status =
     (if rs_node_id status \<noteq> vn_id node then (node, False)
      else
        let node1 = node\<lparr>
              vn_operating_state := operating_state_from_run_status (rs_run_status status),
              vn_remaining_time :=
                (case rs_run_status status of
                   Completed \<Rightarrow> Some 0
                 | Failed \<Rightarrow> None
                 | Active \<Rightarrow> vn_remaining_time node
                 | UnknownRunStatus _ \<Rightarrow> vn_remaining_time node)\<rparr>;
            node2 =
              (if rs_node_parameter status = 0
               then node1\<lparr>vn_current_position := relative_position (rs_parameter_value status)\<rparr>
               else node1);
            node3 = node2\<lparr>vn_freshness := Some \<lparr>sf_source = NotificationSource, sf_timestamp = None\<rparr>\<rparr>
        in (node3, node3 \<noteq> node))"

definition set_available :: "VeluxNode \<Rightarrow> bool \<Rightarrow> VeluxNode \<times> bool" where
  "set_available node available =
     (let availability = (if available then Available else Unavailable)
      in if vn_availability node = availability then (node, False)
         else (node\<lparr>vn_availability := availability\<rparr>, True))"

definition mark_status_unknown :: "VeluxNode \<Rightarrow> VeluxNode \<times> bool" where
  "mark_status_unknown node =
     (let node' = node\<lparr>
            vn_operating_state := UnknownState 0xFF,
            vn_current_position := None,
            vn_target_position := None,
            vn_remaining_time := None,
            vn_freshness := Some \<lparr>sf_source = Poll, sf_timestamp = None\<rparr>\<rparr>
      in (node', node' \<noteq> node))"

section \<open>The node cache\<close>

type_synonym VeluxNodeCache = "(NodeId, VeluxNode) btree_map"

record ReconcileResult =
  rec_added :: "NodeId list"
  rec_updated :: "NodeId list"
  rec_removed :: "NodeId list"

text \<open>The body of the loop of \<open>reconcile\<close>.\<close>

definition reconcile_one ::
  "VeluxNodeCache \<times> ReconcileResult \<Rightarrow> NodeInformation \<Rightarrow> VeluxNodeCache \<times> ReconcileResult"
where
  "reconcile_one s information =
     (let (nodes, result) = s;
          node = from_information information;
          result' =
            (case btree_get nodes (vn_id node) of
               None \<Rightarrow> result\<lparr>rec_added := rec_added result @ [vn_id node]\<rparr>
             | Some existing \<Rightarrow>
                 if existing \<noteq> node then result\<lparr>rec_updated := rec_updated result @ [vn_id node]\<rparr>
                 else result)
      in (btree_insert (vn_id node) node nodes, result'))"

definition reconcile ::
  "VeluxNodeCache \<Rightarrow> NodeInformation list \<Rightarrow> VeluxNodeCache \<times> ReconcileResult"
where
  "reconcile cache information =
     (let present = map ni_node_id information;
          (nodes, result) =
            foldl reconcile_one (cache, \<lparr>rec_added = [], rec_updated = [], rec_removed = []\<rparr>) information;
          removed = filter (\<lambda>node_id. node_id \<notin> set present) (btree_keys nodes)
      in (foldl (\<lambda>m k. btree_remove k m) nodes removed, result\<lparr>rec_removed := removed\<rparr>))"

text \<open>\<open>get_mut(id).and_then(|node| update(node).then_some(node.id))\<close>.\<close>

definition update_node ::
  "VeluxNodeCache \<Rightarrow> NodeId \<Rightarrow> (VeluxNode \<Rightarrow> VeluxNode \<times> bool) \<Rightarrow> VeluxNodeCache \<times> NodeId option"
where
  "update_node cache node_id f =
     (case btree_get cache node_id of
        None \<Rightarrow> (cache, None)
      | Some node \<Rightarrow>
          (let (node', changed) = f node
           in (btree_insert node_id node' cache, if changed then Some (vn_id node') else None)))"

definition apply_remaining_time :: "u16 \<Rightarrow> VeluxNode \<Rightarrow> VeluxNode \<times> bool" where
  "apply_remaining_time seconds node =
     (let updated = known_remaining_time seconds
      in if vn_remaining_time node = updated then (node, False)
         else (node\<lparr>vn_remaining_time := updated,
                    vn_freshness := Some \<lparr>sf_source = NotificationSource, sf_timestamp = None\<rparr>\<rparr>, True))"

definition apply_response :: "VeluxNodeCache \<Rightarrow> Response \<Rightarrow> VeluxNodeCache \<times> NodeId option" where
  "apply_response cache response =
     (case response of
        NodeInformation information \<Rightarrow>
          (let node = from_information information;
               changed = btree_get cache (vn_id node) \<noteq> Some node
           in (btree_insert (vn_id node) node cache, if changed then Some (vn_id node) else None))
      | NodeInformationChanged information \<Rightarrow>
          update_node cache (nc_node_id information) (\<lambda>node. apply_information_changed node information)
      | NodeStatePosition s \<Rightarrow>
          update_node cache (np_node_id s) (\<lambda>node. apply_state_position node s NotificationSource)
      | StatusNotification status \<Rightarrow>
          update_node cache (st_node_id status) (\<lambda>node. apply_status node status Poll)
      | CommandRunStatus status \<Rightarrow>
          update_node cache (rs_node_id status) (\<lambda>node. apply_run_status node status)
      | CommandRemainingTime _ node_id _ seconds \<Rightarrow>
          update_node cache node_id (apply_remaining_time seconds)
      | _ \<Rightarrow> (cache, None))"

definition set_all_available :: "VeluxNodeCache \<Rightarrow> bool \<Rightarrow> VeluxNodeCache \<times> NodeId list" where
  "set_all_available cache available =
     (map (\<lambda>(k, node). (k, fst (set_available node available))) cache,
      List.map_filter
        (\<lambda>(k, node). if snd (set_available node available)
           then Some (vn_id (fst (set_available node available))) else None) cache)"

section \<open>Actuator codes\<close>

lemma actuator_code_from_code: "actuator_code (from_code c) = c"
  by (simp add: from_code_def)

lemma from_code_actuator_code:
  "from_code (actuator_code t) = t \<longleftrightarrow>
     (\<forall>c. t = UnknownActuator c \<longrightarrow> c \<notin> {1..10} \<and> c \<notin> {12..24})"
proof (cases t)
  case (UnknownActuator c)
  have "c \<in> {1..10} \<longleftrightarrow> c \<in> {1, 2, 3, 4, 5, 6, 7, 8, 9, 10}"
       "c \<in> {12..24} \<longleftrightarrow> c \<in> {12, 13, 14, 15, 16, 17, 18, 19, 20, 21, 22, 23, 24}"
    by (auto simp: word_le_nat_alt word_unat_eq_iff; presburger)+
  then show ?thesis using UnknownActuator by (simp add: from_code_def) blast
qed (simp_all add: from_code_def)

section \<open>Positions\<close>

definition position_wf :: "Percentage option \<Rightarrow> bool" where
  "position_wf p \<longleftrightarrow> (case p of None \<Rightarrow> True | Some q \<Rightarrow> q \<le> FULLY_CLOSED)"

lemma position_wf_relative: "parameter_wf p \<Longrightarrow> position_wf (relative_position p)"
  by (cases p) (auto simp: position_wf_def FULLY_CLOSED_def less_eq_Percentage_def)

lemma rounded_percent_le: "rounded_percent p \<le> 100"
  using unat_rounded_percent [of p] by (simp add: word_le_nat_alt)

lemma unat_mqtt_open_percent: "unat (mqtt_open_percent p) = 100 - unat (rounded_percent p)"
  using rounded_percent_le [of p] by (simp add: mqtt_open_percent_def unat_sub)

lemma mqtt_open_percent_le: "unat (mqtt_open_percent p) \<le> 100"
  by (simp add: unat_mqtt_open_percent)

lemma mqtt_open_percent_anti: "p \<le> q \<Longrightarrow> unat (mqtt_open_percent q) \<le> unat (mqtt_open_percent p)"
  by (auto simp: unat_mqtt_open_percent unat_rounded_percent less_eq_Percentage_def word_le_nat_alt
      intro!: diff_le_mono2 min.mono div_le_mono)

lemma mqtt_open_percent_ends: "mqtt_open_percent FULLY_OPEN = 100" "mqtt_open_percent FULLY_CLOSED = 0"
  by (simp_all add: word_unat_eq_iff unat_mqtt_open_percent unat_rounded_percent FULLY_OPEN_def FULLY_CLOSED_def)

section \<open>Toggling\<close>

abbreviation moving :: "VeluxNode \<Rightarrow> bool" where
  "moving node \<equiv> vn_operating_state node \<in> {Executing, WaitingForPower}"

lemma state_moving:
  "state node = CoverClosing \<longleftrightarrow> moving node \<and>
     (\<exists>c t. vn_current_position node = Some c \<and> vn_target_position node = Some t \<and> c < t)"
  "state node = CoverOpening \<longleftrightarrow> moving node \<and>
     (\<exists>c t. vn_current_position node = Some c \<and> vn_target_position node = Some t \<and> t < c)"
  by (auto simp: state_def derive_cover_state_def split: option.splits if_splits)

lemma toggle_reverses:
  assumes "position_wf (vn_current_position node)"
  shows "state node = CoverClosing \<Longrightarrow> toggle_endpoint node = Ok EndpointOpen"
    and "state node = CoverOpening \<Longrightarrow> toggle_endpoint node = Ok EndpointClosed"
proof -
  have open_least: "FULLY_OPEN \<le> q" for q by (cases q) (simp add: FULLY_OPEN_def)
  have differ: "FULLY_OPEN \<noteq> FULLY_CLOSED" by (simp add: FULLY_OPEN_def FULLY_CLOSED_def)
  show "state node = CoverClosing \<Longrightarrow> toggle_endpoint node = Ok EndpointOpen"
    using open_least by (auto simp: toggle_endpoint_def state_moving Let_def not_less [symmetric])
  show "state node = CoverOpening \<Longrightarrow> toggle_endpoint node = Ok EndpointClosed"
    using assms by (auto simp: toggle_endpoint_def state_moving Let_def position_wf_def not_less [symmetric])
qed

lemma toggle_driven:
  assumes "moving node"
  shows "vn_target_position node = Some FULLY_CLOSED \<Longrightarrow> toggle_endpoint node = Ok EndpointOpen"
    and "vn_target_position node = Some FULLY_OPEN \<Longrightarrow> toggle_endpoint node = Ok EndpointClosed"
  using assms by (simp_all add: toggle_endpoint_def FULLY_OPEN_def FULLY_CLOSED_def)

lemma toggle_by_position:
  assumes "\<not> moving node \<or> state node \<notin> {CoverClosing, CoverOpening}
    \<and> vn_target_position node \<notin> {Some FULLY_CLOSED, Some FULLY_OPEN}"
  shows "toggle_endpoint node =
    (case vn_current_position node of
       None \<Rightarrow> Err (PositionUnknown (vn_id node))
     | Some p \<Rightarrow> Ok (if 25600 \<le> percentage_raw p then EndpointOpen else EndpointClosed))"
proof -
  have "from_percent 50 = Percentage 25600" by (simp add: from_percent_def)
  with assms show ?thesis
    by (auto simp: toggle_endpoint_def Let_def less_eq_Percentage_def split: option.splits)
qed

lemma toggle_fails_iff:
  "(\<exists>e. toggle_endpoint node = Err e) \<longleftrightarrow>
     vn_current_position node = None
     \<and> \<not> (moving node \<and> vn_target_position node \<in> {Some FULLY_CLOSED, Some FULLY_OPEN})"
  by (auto simp: toggle_endpoint_def Let_def state_moving split: option.splits)

lemma toggle_Err:
  "toggle_endpoint node = Err e \<Longrightarrow> e = PositionUnknown (vn_id node) \<and> vn_current_position node = None"
  by (auto simp: toggle_endpoint_def Let_def split: if_splits option.splits)

lemma toggle_not_Panic [simp]: "toggle_endpoint node \<noteq> Panic"
  by (simp add: toggle_endpoint_def Let_def split: option.splits)

section \<open>Commands\<close>

lemma command_target_single: "command_target [n] = Ok (CommandTarget [n])"
  by (simp add: command_target_def CommandTarget_new_def MAX_TARGETS_def)

lemma command_request_eq:
  "command_request node session action =
     (if \<not> is_controllable node then Err (UnsupportedActuator (vn_id node))
      else and_then (resolve_action node action) (\<lambda>endpoint.
        Ok (CommandSend \<lparr>cr_session_id = session, cr_main_parameter = endpoint_parameter endpoint\<rparr>
              (CommandTarget [vn_id node]))))"
  by (simp add: command_request_def is_controllable_def command_target_single)

lemma command_request_Ok:
  assumes "command_request node session action = Ok r"
  shows "typed r" "request_wf r" "Request_session_id r = Some session"
    "request_target r = Some (41, CommandTarget [vn_id node])"
  using assms
  by (auto simp: command_request_eq outcome_iffs typed_def target_valid_def split: if_splits)

section \<open>The cache\<close>

text \<open>
  Every entry is stored under the identifier of its node, the entries are sorted, and positions are
  between fully open and fully closed.
\<close>

definition node_wf :: "VeluxNode \<Rightarrow> bool" where
  "node_wf node \<longleftrightarrow> position_wf (vn_current_position node) \<and> position_wf (vn_target_position node)"

definition cache_inv :: "VeluxNodeCache \<Rightarrow> bool" where
  "cache_inv cache \<longleftrightarrow> btree_wf cache
     \<and> (\<forall>k node. btree_get cache k = Some node \<longrightarrow> vn_id node = k \<and> node_wf node)"

lemma node_wf_from_information: "node_information_wf i \<Longrightarrow> node_wf (from_information i)"
  by (simp add: node_wf_def from_information_def Let_def node_information_wf_def position_wf_relative)

lemma vn_id_from_information [simp]: "vn_id (from_information i) = ni_node_id i"
  by (simp add: from_information_def Let_def)

lemma cache_inv_insert:
  "cache_inv cache \<Longrightarrow> node_wf node \<Longrightarrow> cache_inv (btree_insert (vn_id node) node cache)"
  by (auto simp: cache_inv_def btree_wf_insert btree_get_insert)

text \<open>An update of a node: it keeps the identifier, reports exactly whether it changed anything.\<close>

definition update_ok :: "(VeluxNode \<Rightarrow> VeluxNode \<times> bool) \<Rightarrow> bool" where
  "update_ok f \<longleftrightarrow> (\<forall>node. vn_id (fst (f node)) = vn_id node \<and> (snd (f node) \<longleftrightarrow> fst (f node) \<noteq> node)
     \<and> (node_wf node \<longrightarrow> node_wf (fst (f node))))"

lemma position_wf_simps [simp]: "position_wf None" "position_wf (Some FULLY_OPEN)" "position_wf (Some FULLY_CLOSED)"
  by (simp_all add: position_wf_def FULLY_OPEN_def FULLY_CLOSED_def)

lemma update_ok_simple:
  "update_ok (\<lambda>node. apply_information_changed node information)"
  "update_ok mark_status_unknown"
  "update_ok (\<lambda>node. mark_command_accepted node endpoint)"
  by (simp_all add: update_ok_def apply_information_changed_def mark_status_unknown_def
      mark_command_accepted_def node_wf_def Let_def split: CoverEndpoint.splits)

lemma update_ok_remaining_time: "update_ok (apply_remaining_time seconds)"
proof -
  have neq: "n\<lparr>vn_remaining_time := t, vn_freshness := f\<rparr> \<noteq> n" if "vn_remaining_time n \<noteq> t" for n t f
  proof
    assume "n\<lparr>vn_remaining_time := t, vn_freshness := f\<rparr> = n"
    from arg_cong [OF this, of vn_remaining_time] that show False by simp
  qed
  show ?thesis
    by (simp add: update_ok_def apply_remaining_time_def node_wf_def Let_def) (use neq in blast)
qed

lemma update_ok_available: "update_ok (\<lambda>node. set_available node available)"
proof -
  have neq: "n\<lparr>vn_availability := a\<rparr> \<noteq> n" if "vn_availability n \<noteq> a" for n a
  proof
    assume "n\<lparr>vn_availability := a\<rparr> = n"
    from arg_cong [OF this, of vn_availability] that show False by simp
  qed
  show ?thesis
    by (simp add: update_ok_def set_available_def node_wf_def Let_def) (use neq in blast)
qed

lemma update_ok_state_position:
  "node_state_wf p \<Longrightarrow> update_ok (\<lambda>node. apply_state_position node p source)"
  by (auto simp: update_ok_def apply_state_position_def node_wf_def node_state_wf_def position_wf_relative
      Let_def)

lemma update_ok_status:
  "detail_wf (st_detail status) \<Longrightarrow> update_ok (\<lambda>node. apply_status node status source)"
  by (auto simp: update_ok_def apply_status_def node_wf_def position_wf_relative Let_def
      split: StatusNotificationDetail.splits)

lemma update_ok_run_status:
  "parameter_wf (rs_parameter_value status) \<Longrightarrow> update_ok (\<lambda>node. apply_run_status node status)"
  by (auto simp: update_ok_def apply_run_status_def node_wf_def position_wf_relative Let_def)

text \<open>
  A cache step is faithful when it keeps the invariant, and reports an identifier exactly when the
  entry of that identifier changed, leaving every other entry alone.
\<close>

definition faithful :: "VeluxNodeCache \<Rightarrow> VeluxNodeCache \<times> NodeId option \<Rightarrow> bool" where
  "faithful cache r \<longleftrightarrow> cache_inv (fst r)
     \<and> (case snd r of
          None \<Rightarrow> fst r = cache
        | Some k \<Rightarrow> btree_get (fst r) k \<noteq> btree_get cache k
            \<and> (\<forall>j. j \<noteq> k \<longrightarrow> btree_get (fst r) j = btree_get cache j))"

lemma btree_insert_same: "btree_wf m \<Longrightarrow> btree_get m k = Some v \<Longrightarrow> btree_insert k v m = m"
  by (rule btree_ext) (auto simp: btree_wf_insert btree_get_insert)

lemma faithful_insert:
  assumes "cache_inv cache" "node_wf node"
  shows "faithful cache (btree_insert (vn_id node) node cache,
      if btree_get cache (vn_id node) \<noteq> Some node then Some (vn_id node) else None)"
proof -
  have wf: "btree_wf cache" using assms(1) by (simp add: cache_inv_def)
  note inv = cache_inv_insert [OF assms]
  show ?thesis
  proof (cases "btree_get cache (vn_id node) = Some node")
    case True
    then show ?thesis using inv by (simp add: faithful_def btree_insert_same [OF wf])
  next
    case False
    then have "Some node \<noteq> btree_get cache (vn_id node)" by metis
    then show ?thesis using False inv by (simp add: faithful_def btree_get_insert [OF wf])
  qed
qed

lemma faithful_update_node:
  assumes "cache_inv cache" "update_ok f"
  shows "faithful cache (update_node cache k f)"
proof (cases "btree_get cache k")
  case None
  then show ?thesis using assms by (simp add: update_node_def faithful_def)
next
  case (Some node)
  have node: "vn_id node = k" "node_wf node" using Some assms(1) by (auto simp: cache_inv_def)
  have ok: "vn_id (fst (f node)) = vn_id node" "snd (f node) \<longleftrightarrow> fst (f node) \<noteq> node"
    "node_wf node \<longrightarrow> node_wf (fst (f node))"
    using assms(2) unfolding update_ok_def by blast+
  then have "node_wf (fst (f node))" using node by blast
  from faithful_insert [OF assms(1) this] ok node Some
  have "faithful cache (btree_insert k (fst (f node)) cache, if snd (f node) then Some k else None)"
    by (cases "fst (f node) = node") simp_all
  then show ?thesis using ok(1) node by (simp add: update_node_def Some split_beta split: if_splits)
qed

lemma faithful_same: "cache_inv cache \<Longrightarrow> faithful cache (cache, None)"
  by (simp add: faithful_def)

lemma apply_response_faithful:
  assumes "cache_inv cache" "response_wf response"
  shows "faithful cache (apply_response cache response)"
proof (cases response)
  case (NodeInformation i)
  then have "node_wf (from_information i)"
    using assms(2) by (simp add: response_wf_def node_wf_from_information)
  from faithful_insert [OF assms(1) this] show ?thesis
    by (simp add: apply_response_def NodeInformation Let_def)
qed (use assms in \<open>auto simp: apply_response_def response_wf_def faithful_same
      intro!: faithful_update_node update_ok_simple update_ok_remaining_time update_ok_state_position
        update_ok_status update_ok_run_status\<close>)

section \<open>Reconciliation\<close>

lemma reconcile_nodes:
  "fst (foldl reconcile_one (cache, result) information) =
     foldl (\<lambda>m node. btree_insert (vn_id node) node m) cache (map from_information information)"
  by (induction information arbitrary: cache result)
    (simp_all add: reconcile_one_def Let_def split_beta)

lemma reconcile_cache_eq:
  "fst (reconcile cache information) =
     bt.drop_all (rec_removed (snd (reconcile cache information)))
       (bt.put_all vn_id (map from_information information) cache)"
  by (simp add: reconcile_def Let_def split_beta reconcile_nodes bt.put_all_def bt.drop_all_def)

lemma reconcile_removed_eq:
  assumes "btree_wf cache"
  shows "set (rec_removed (snd (reconcile cache information))) =
      set (btree_keys cache) - ni_node_id ` set information"
proof -
  let ?nodes = "bt.put_all vn_id (map from_information information) cache"
  have "rec_removed (snd (reconcile cache information)) =
      filter (\<lambda>k. k \<notin> set (map ni_node_id information)) (btree_keys ?nodes)"
    by (simp add: reconcile_def Let_def split_beta reconcile_nodes bt.put_all_def)
  moreover have "set (btree_keys ?nodes) = set (btree_keys cache) \<union> ni_node_id ` set information"
    by (simp only: bt.keys_put_all [OF assms]) (auto simp: image_image)
  ultimately show ?thesis by (simp del: set_map) auto
qed

text \<open>After a reconciliation the cache holds exactly the discovered nodes, as last announced.\<close>

lemma find_map: "find P (map f xs) = map_option f (find (P \<circ> f) xs)"
  by (induction xs) auto

lemma find_Some_in: "find P xs = Some x \<Longrightarrow> x \<in> set xs \<and> P x"
  by (auto simp: find_Some_iff)

lemma reconcile_get:
  assumes "btree_wf cache"
  shows "btree_get (fst (reconcile cache information)) k =
      map_option from_information (find (\<lambda>i. ni_node_id i = k) (rev information))"
proof -
  let ?vs = "map from_information information"
  have inv: "btree_wf (bt.put_all vn_id ?vs cache)" by (rule bt.inv_put_all [OF assms])
  have found: "find (\<lambda>v. vn_id v = k) (rev ?vs) =
      map_option from_information (find (\<lambda>i. ni_node_id i = k) (rev information))"
    by (simp add: rev_map find_map comp_def)
  show ?thesis
  proof (cases "find (\<lambda>i. ni_node_id i = k) (rev information)")
    case None
    then have "k \<notin> ni_node_id ` set information" by (auto simp: find_None_iff)
    then show ?thesis using None found reconcile_removed_eq [OF assms, of information]
      by (auto simp: reconcile_cache_eq bt.lookup_drop_all [OF inv] bt.lookup_put_all [OF assms]
          map_of_eq_None_iff)
  next
    case (Some i)
    then have "k \<in> ni_node_id ` set information" by (auto dest!: find_Some_in)
    then show ?thesis using Some found reconcile_removed_eq [OF assms, of information]
      by (simp add: reconcile_cache_eq bt.lookup_drop_all [OF inv] bt.lookup_put_all [OF assms])
  qed
qed

lemma reconcile_inv:
  assumes "cache_inv cache" "list_all node_information_wf information"
  shows "cache_inv (fst (reconcile cache information))"
proof -
  have wf: "btree_wf cache" using assms(1) by (simp add: cache_inv_def)
  have "btree_wf (fst (reconcile cache information))"
    unfolding reconcile_cache_eq by (intro bt.inv_drop_all bt.inv_put_all wf)
  moreover have "vn_id node = k \<and> node_wf node"
    if "btree_get (fst (reconcile cache information)) k = Some node" for k node
    using that assms(2) node_wf_from_information
    by (auto simp: reconcile_get [OF wf] list_all_iff dest!: find_Some_in)
  ultimately show ?thesis by (simp add: cache_inv_def)
qed

section \<open>Availability\<close>

lemma set_all_available_get:
  "btree_get (fst (set_all_available cache available)) k =
     map_option (\<lambda>node. fst (set_available node available)) (btree_get cache k)"
  by (simp add: set_all_available_def map_of_map comp_def)

lemma vn_id_set_available [simp]: "vn_id (fst (set_available node available)) = vn_id node"
  by (simp add: set_available_def Let_def)

lemma set_all_available_ids:
  fixes available :: bool
  assumes "cache_inv cache"
  defines "differs \<equiv> \<lambda>node. vn_availability node \<noteq> (if available then Available else Unavailable)"
  shows "set (snd (set_all_available cache available)) =
      {k. \<exists>node. btree_get cache k = Some node \<and> differs node}"
proof (rule set_eqI)
  fix k
  have wf: "distinct (btree_keys cache)" using assms by (simp add: cache_inv_def btree_wf_distinct)
  have entries: "(j, node) \<in> set cache \<longleftrightarrow> btree_get cache j = Some node" for j node
    using map_of_eq_Some_iff [OF wf] by metis
  have key: "btree_get cache j = Some node \<Longrightarrow> vn_id node = j" for j node
    using assms(1) by (simp add: cache_inv_def)
  have changed: "snd (set_available node available) \<longleftrightarrow> differs node" for node
    by (simp add: set_available_def Let_def differs_def)
  have "k \<in> set (snd (set_all_available cache available)) \<longleftrightarrow>
      (\<exists>j node. (j, node) \<in> set cache \<and> differs node \<and> k = vn_id node)"
    by (auto simp: set_all_available_def List.map_filter_def image_iff changed split: if_splits)
  also have "\<dots> \<longleftrightarrow> (\<exists>node. btree_get cache k = Some node \<and> differs node)"
    unfolding entries using key by blast
  finally show "k \<in> set (snd (set_all_available cache available)) \<longleftrightarrow>
      k \<in> {k. \<exists>node. btree_get cache k = Some node \<and> differs node}" by simp
qed

section \<open>Properties\<close>

definition example_node :: VeluxNode where
  "example_node =
     \<lparr>vn_id = NodeId 4, vn_name = ''shutter'', vn_order = 0, vn_placement = 0,
      vn_serial_number = [0, 0, 0, 0, 0, 0, 0, 1], vn_node_type_sub_type = 128,
      vn_actuator_type = RollerShutter, vn_actuator_subtype = 0, vn_product_group = 0,
      vn_product_type = 0, vn_velocity = 0, vn_variation = 0, vn_power_mode = 0, vn_build_number = 0,
      vn_cover_strategy = Some MainParameter, vn_availability = Available,
      vn_operating_state = Executing, vn_current_position = Some (Percentage 0x1000),
      vn_target_position = Some FULLY_CLOSED, vn_remaining_time = None, vn_freshness = None\<rparr>"

lemma example_cache_inv: "cache_inv [(NodeId 4, example_node)]"
  by (simp add: cache_inv_def btree_wf_def example_node_def node_wf_def position_wf_def FULLY_CLOSED_def)

text \<open>
  C22. Applying a decoded notification to the cache keeps it sorted and keyed by node, reports a node
  exactly when that node's entry changed, and leaves every other entry as it was.
\<close>

theorem notifications_update_one_node:
  assumes "cache_inv cache" "response_wf response"
  shows "case apply_response cache response of (cache', changed) \<Rightarrow>
     cache_inv cache'
     \<and> (case changed of
          None \<Rightarrow> cache' = cache
        | Some k \<Rightarrow> btree_get cache' k \<noteq> btree_get cache k
            \<and> (\<forall>j. j = k \<or> btree_get cache' j = btree_get cache j))"
  using apply_response_faithful [OF assms]
  by (cases "apply_response cache response") (auto simp: faithful_def split: option.splits)

theorem notifications_update_one_node_witness:
  "snd (apply_response [(NodeId 4, example_node)] (CommandRemainingTime (SessionId 1) (NodeId 4) 0 30)) = Some (NodeId 4)
   \<and> (case apply_response [(NodeId 4, example_node)] (CommandRemainingTime (SessionId 1) (NodeId 4) 0 30) of
        (cache', changed) \<Rightarrow>
          cache_inv cache'
          \<and> (case changed of
               None \<Rightarrow> cache' = [(NodeId 4, example_node)]
             | Some k \<Rightarrow> btree_get cache' k \<noteq> btree_get [(NodeId 4, example_node)] k
                 \<and> (\<forall>j. j = k \<or> btree_get cache' j = btree_get [(NodeId 4, example_node)] j)))"
proof
  show "snd (apply_response [(NodeId 4, example_node)] (CommandRemainingTime (SessionId 1) (NodeId 4) 0 30)) = Some (NodeId 4)"
    by (simp add: apply_response_def update_node_def apply_remaining_time_def known_remaining_time_def
        Let_def example_node_def)
qed (rule notifications_update_one_node,
     simp_all add: example_cache_inv response_wf_def session_valid_def)

text \<open>
  C33. After a reconciliation the cache holds exactly the discovered nodes, each as it was announced
  last, and the nodes reported as removed are those it had and the discovery did not find.
\<close>

theorem reconciliation_is_exact:
  assumes "cache_inv cache"
  shows "(\<forall>k. btree_get (fst (reconcile cache information)) k =
        map_option from_information (find (\<lambda>i. ni_node_id i = k) (rev information)))
     \<and> set (rec_removed (snd (reconcile cache information))) =
        set (btree_keys cache) - ni_node_id ` set information"
  using assms reconcile_get reconcile_removed_eq by (simp add: cache_inv_def del: set_map)

theorem reconciliation_is_exact_witness:
  "(\<forall>k. btree_get (fst (reconcile [(NodeId 4, example_node)] [])) k =
        map_option from_information (find (\<lambda>i. ni_node_id i = k) (rev [])))
     \<and> set (rec_removed (snd (reconcile [(NodeId 4, example_node)] []))) =
        set (btree_keys [(NodeId 4, example_node)]) - ni_node_id ` set ([] :: NodeInformation list)"
  by (rule reconciliation_is_exact [OF example_cache_inv])

text \<open>
  C34. Toggling a cover that moves reverses it: one that is driven to its closed end or to a position
  further closed is opened, one that is driven to its open end or to a position further open is closed;
  for the ends of travel this does not need the current position. A cover that is at rest, or whose
  movement has no known direction, goes to the endpoint it is further from, the open one from the middle
  on. The toggle fails exactly when the current position is unknown and the cover is not driven to an
  end of its travel.
\<close>

theorem toggle_reverses_movement:
  assumes "node_wf node"
  shows "(state node = CoverClosing \<longrightarrow> resolve_action node ToggleAction = Ok EndpointOpen)
     \<and> (state node = CoverOpening \<longrightarrow> resolve_action node ToggleAction = Ok EndpointClosed)
     \<and> (moving node \<and> vn_target_position node = Some FULLY_CLOSED \<longrightarrow>
          resolve_action node ToggleAction = Ok EndpointOpen)
     \<and> (moving node \<and> vn_target_position node = Some FULLY_OPEN \<longrightarrow>
          resolve_action node ToggleAction = Ok EndpointClosed)
     \<and> (\<not> moving node \<or> state node \<notin> {CoverClosing, CoverOpening}
            \<and> vn_target_position node \<notin> {Some FULLY_CLOSED, Some FULLY_OPEN} \<longrightarrow>
          resolve_action node ToggleAction =
            (case vn_current_position node of
               None \<Rightarrow> Err (PositionUnknown (vn_id node))
             | Some p \<Rightarrow> Ok (if 25600 \<le> percentage_raw p then EndpointOpen else EndpointClosed)))
     \<and> ((\<exists>e. resolve_action node ToggleAction = Err e) \<longleftrightarrow>
          vn_current_position node = None
          \<and> \<not> (moving node \<and> vn_target_position node \<in> {Some FULLY_CLOSED, Some FULLY_OPEN}))"
  using toggle_reverses [of node] toggle_driven [of node] toggle_by_position [of node] toggle_fails_iff [of node] assms
  by (simp add: node_wf_def)

theorem toggle_reverses_movement_witness:
  "state example_node = CoverClosing \<and> resolve_action example_node ToggleAction = Ok EndpointOpen
   \<and> resolve_action (example_node\<lparr>vn_current_position := None\<rparr>) ToggleAction = Ok EndpointOpen"
proof -
  have "node_wf example_node" "node_wf (example_node\<lparr>vn_current_position := None\<rparr>)"
    by (simp_all add: node_wf_def example_node_def position_wf_def FULLY_CLOSED_def)
  moreover have "state example_node = CoverClosing"
    by (simp add: example_node_def state_def derive_cover_state_def FULLY_CLOSED_def less_Percentage_def)
  moreover have "moving (example_node\<lparr>vn_current_position := None\<rparr>)"
    "vn_target_position (example_node\<lparr>vn_current_position := None\<rparr>) = Some FULLY_CLOSED"
    by (simp_all add: example_node_def)
  ultimately show ?thesis
    using toggle_reverses_movement [of example_node]
      toggle_reverses_movement [of "example_node\<lparr>vn_current_position := None\<rparr>"] by blast
qed

text \<open>
  C35. The positions shown to MQTT are opening percentages: between 0 and 100, decreasing in the raw
  position, 100 when fully open and 0 when fully closed, and nearest to the exact value.
\<close>

theorem mqtt_positions:
  "unat (mqtt_open_percent p) = 100 - min 100 ((unat (percentage_raw p) + 256) div 512)
   \<and> mqtt_open_percent FULLY_OPEN = 100 \<and> mqtt_open_percent FULLY_CLOSED = 0
   \<and> unat (mqtt_open_percent p) \<le> 100
   \<and> unat (mqtt_open_percent (max p q)) \<le> unat (mqtt_open_percent p)"
  by (simp add: unat_mqtt_open_percent unat_rounded_percent mqtt_open_percent_ends
      mqtt_open_percent_anti [unfolded unat_mqtt_open_percent unat_rounded_percent] max.cobounded1)

end
