(* ===== verification/Mqtt.thy ===== *)
theory Mqtt
  imports Velux_Node
begin

text \<open>
  The MQTT side (\<open>src/mqtt.rs\<close>): configuration, the topic layout, the parsing of commands, the
  publications built for nodes and groups, and the connection. \<open>rumqttc\<close> and \<open>serde_json\<close> are
  libraries: what the event loop yields, whether a request can be queued and the bytes a value is
  serialised to are arguments of the definitions.
\<close>

section \<open>Data\<close>

datatype MqttError =
    InvalidConfiguration string
  | CertificateRead string string
  | InvalidBaseTopic string
  | RetainedCommand
  | UnexpectedCommandTopic string
  | InvalidNodeId string
  | InvalidGroupId string
  | InvalidCommandPayload string
  | InvalidIncomingUtf8 string
  | MqttConnectionError string
  | Serialization string
  | ShutdownTimeout

definition ONLINE_PAYLOAD :: string where "ONLINE_PAYLOAD = ''online''"
definition OFFLINE_PAYLOAD :: string where "OFFLINE_PAYLOAD = ''offline''"

text \<open>Durations are in milliseconds.\<close>

record MqttConfig =
  mc_server :: string
  mc_port :: u16
  mc_ca_cert :: "string option"
  mc_insecure :: bool
  mc_client_id :: string
  mc_user :: string
  mc_password :: string
  mc_base_topic :: string
  mc_keep_alive :: nat
  mc_request_capacity :: nat

definition MqttConfig_new :: "string \<Rightarrow> MqttConfig" where
  "MqttConfig_new server =
     \<lparr>mc_server = server, mc_port = 1883, mc_ca_cert = None, mc_insecure = False,
      mc_client_id = ''velux2mqtt'', mc_user = [], mc_password = [], mc_base_topic = ''velux'',
      mc_keep_alive = 60000, mc_request_capacity = 256\<rparr>"

record IncomingMessage =
  im_topic :: string
  im_payload :: string
  im_retained :: bool

datatype MqttEvent = Connected | Message IncomingMessage

record MqttPublication =
  mp_topic :: string
  mp_payload :: "u8 list"
  mp_retained :: bool

definition retained :: "string \<Rightarrow> u8 list \<Rightarrow> MqttPublication" where
  "retained topic payload = \<lparr>mp_topic = topic, mp_payload = payload, mp_retained = True\<rparr>"

definition clear :: "string \<Rightarrow> MqttPublication" where
  "clear topic = retained topic []"

record NodeCommand =
  nc_node :: NodeId
  nc_action :: CoverAction

datatype GroupAction = GroupOpen | GroupClose

record GroupCommand =
  gc_group :: GroupId
  gc_action :: GroupAction

datatype MqttCommand = NodeCmd NodeCommand | GroupCmd GroupCommand | GatewayReboot

section \<open>Topics\<close>

record TopicLayout =
  tl_base :: string

definition TopicLayout_new :: "string \<Rightarrow> (MqttError, TopicLayout) outcome" where
  "TopicLayout_new topic =
     (let base = trim_matches CHR ''/'' (trim topic)
      in if base = [] \<or> [] \<in> set (split_on CHR ''/'' base)
            \<or> list_ex (\<lambda>c. c = CHR ''+'' \<or> c = CHR ''#'' \<or> c = CHR 0x00) base
         then Err (InvalidBaseTopic base)
         else Ok \<lparr>tl_base = base\<rparr>)"

definition topic_state :: "TopicLayout \<Rightarrow> string" where
  "topic_state topics = tl_base topics @ ''/state''"

definition topic_nodes :: "TopicLayout \<Rightarrow> string" where
  "topic_nodes topics = tl_base topics @ ''/nodes''"

definition topic_groups :: "TopicLayout \<Rightarrow> string" where
  "topic_groups topics = tl_base topics @ ''/groups''"

definition command_filter :: "TopicLayout \<Rightarrow> string" where
  "command_filter topics = tl_base topics @ ''/+/cmnd/control''"

definition gateway_reboot_command :: "TopicLayout \<Rightarrow> string" where
  "gateway_reboot_command topics = tl_base topics @ ''/cmnd/reboot''"

definition node_root :: "TopicLayout \<Rightarrow> NodeId \<Rightarrow> string" where
  "node_root topics node_id =
     tl_base topics @ ''/velux_node_'' @ nat_display (unat (node_id_get node_id))"

definition node_info :: "TopicLayout \<Rightarrow> NodeId \<Rightarrow> string" where
  "node_info topics node_id = node_root topics node_id @ ''/info''"

definition node_status :: "TopicLayout \<Rightarrow> NodeId \<Rightarrow> string" where
  "node_status topics node_id = node_root topics node_id @ ''/status''"

definition node_state :: "TopicLayout \<Rightarrow> NodeId \<Rightarrow> string" where
  "node_state topics node_id = node_root topics node_id @ ''/state''"

definition node_position :: "TopicLayout \<Rightarrow> NodeId \<Rightarrow> string" where
  "node_position topics node_id = node_root topics node_id @ ''/position''"

definition node_target :: "TopicLayout \<Rightarrow> NodeId \<Rightarrow> string" where
  "node_target topics node_id = node_root topics node_id @ ''/target''"

definition node_command :: "TopicLayout \<Rightarrow> NodeId \<Rightarrow> string" where
  "node_command topics node_id = node_root topics node_id @ ''/cmnd/control''"

definition group_root :: "TopicLayout \<Rightarrow> GroupId \<Rightarrow> string" where
  "group_root topics group_id =
     tl_base topics @ ''/velux_group_'' @ nat_display (unat (group_id_get group_id))"

definition group_info :: "TopicLayout \<Rightarrow> GroupId \<Rightarrow> string" where
  "group_info topics group_id = group_root topics group_id @ ''/info''"

definition group_command :: "TopicLayout \<Rightarrow> GroupId \<Rightarrow> string" where
  "group_command topics group_id = group_root topics group_id @ ''/cmnd/control''"

section \<open>Commands\<close>

definition node_action :: "string \<Rightarrow> (MqttError, CoverAction) outcome" where
  "node_action payload =
     (if eq_ignore_ascii_case payload ''OPEN'' then Ok OpenAction
      else if eq_ignore_ascii_case payload ''CLOSE'' then Ok CloseAction
      else if eq_ignore_ascii_case payload ''TOGGLE'' then Ok ToggleAction
      else Err (InvalidCommandPayload payload))"

definition group_action :: "string \<Rightarrow> (MqttError, GroupAction) outcome" where
  "group_action payload =
     (if eq_ignore_ascii_case payload ''OPEN'' then Ok GroupOpen
      else if eq_ignore_ascii_case payload ''CLOSE'' then Ok GroupClose
      else Err (InvalidCommandPayload payload))"

text \<open>The part of \<open>parse_command\<close> that reads the target segment.\<close>

definition parse_target :: "string \<Rightarrow> string \<Rightarrow> string \<Rightarrow> (MqttError, MqttCommand) outcome" where
  "parse_target topic target_segment payload =
     (case strip_prefix target_segment ''velux_node_'' of
        Some node_id \<Rightarrow>
          (case parse_u8 node_id of
             None \<Rightarrow> Err (InvalidNodeId topic)
           | Some n \<Rightarrow>
               and_then (node_action payload)
                 (\<lambda>action. Ok (NodeCmd \<lparr>nc_node = NodeId n, nc_action = action\<rparr>)))
      | None \<Rightarrow>
          (case strip_prefix target_segment ''velux_group_'' of
             Some group_id \<Rightarrow>
               (case parse_u8 group_id of
                  None \<Rightarrow> Err (InvalidGroupId topic)
                | Some n \<Rightarrow>
                    and_then (group_action payload)
                      (\<lambda>action. Ok (GroupCmd \<lparr>gc_group = GroupId n, gc_action = action\<rparr>)))
           | None \<Rightarrow> Err (UnexpectedCommandTopic topic)))"

definition parse_command :: "TopicLayout \<Rightarrow> IncomingMessage \<Rightarrow> (MqttError, MqttCommand) outcome" where
  "parse_command topics message =
     (if im_retained message then Err RetainedCommand
      else
        let payload = trim (im_payload message); topic = im_topic message
        in if topic = gateway_reboot_command topics then
             (if eq_ignore_ascii_case payload ''REBOOT'' then Ok GatewayReboot
              else Err (InvalidCommandPayload payload))
           else
             (case Option.bind (strip_prefix topic (tl_base topics)) (\<lambda>suffix. strip_prefix suffix ''/'') of
                None \<Rightarrow> Err (UnexpectedCommandTopic topic)
              | Some relative \<Rightarrow>
                  (case split_on CHR ''/'' relative of
                     [target_segment, s1, s2] \<Rightarrow>
                       if s1 = ''cmnd'' \<and> s2 = ''control''
                       then parse_target topic target_segment payload
                       else Err (UnexpectedCommandTopic topic)
                   | _ \<Rightarrow> Err (UnexpectedCommandTopic topic))))"

section \<open>Configuration checks\<close>

text \<open>\<open>validate\<close> normalises the configuration in place; the fields keep what was assigned before an error.\<close>

definition MqttConfig_validate :: "MqttConfig \<Rightarrow> MqttConfig \<times> (MqttError, unit) outcome" where
  "MqttConfig_validate config =
     (if mc_ca_cert config \<noteq> None \<and> mc_insecure config then
        (config, Err (InvalidConfiguration
           ''MQTT CA certificate and insecure TLS options are mutually exclusive''))
      else
        let config = config\<lparr>mc_server := trim (mc_server config),
              mc_client_id := trim (mc_client_id config),
              mc_base_topic := trim_matches CHR ''/'' (trim (mc_base_topic config))\<rparr>
        in (config,
            if mc_server config = [] then Err (InvalidConfiguration ''MQTT server cannot be empty'')
            else if mc_client_id config = [] then
              Err (InvalidConfiguration ''MQTT client ID cannot be empty'')
            else
              and_then (TopicLayout_new (mc_base_topic config)) (\<lambda>_.
                if mc_keep_alive config = 0 then
                  Err (InvalidConfiguration ''MQTT keep-alive must be greater than zero'')
                else if mc_request_capacity config = 0 then
                  Err (InvalidConfiguration ''MQTT request capacity must be greater than zero'')
                else Ok ())))"

text \<open>The transport, with the reading of the certificate file as an argument.\<close>

datatype Transport = TransportTls "u8 list" | TransportInsecure | TransportTcp

definition transport ::
  "(string \<Rightarrow> (string, u8 list) outcome) \<Rightarrow> MqttConfig \<Rightarrow> (MqttError, Transport) outcome"
where
  "transport read_file config =
     (case mc_ca_cert config of
        Some path \<Rightarrow>
          (case read_file path of
             Ok ca \<Rightarrow> Ok (TransportTls ca)
           | Err message \<Rightarrow> Err (CertificateRead path message)
           | Panic \<Rightarrow> Panic)
      | None \<Rightarrow> Ok (if mc_insecure config then TransportInsecure else TransportTcp))"

section \<open>Publications\<close>

record NodeMetadata =
  nm_id :: u8
  nm_name :: string
  nm_serial_number :: string
  nm_actuator_type :: string
  nm_actuator_subtype :: u8
  nm_product_group :: i8
  nm_product_type :: i8
  nm_controllable :: bool
  nm_order :: u16
  nm_placement :: u8
  nm_build_number :: u8
  nm_status_timestamp :: "u32 option"

definition NodeMetadata_from :: "VeluxNode \<Rightarrow> NodeMetadata" where
  "NodeMetadata_from node =
     \<lparr>nm_id = node_id_get (vn_id node), nm_name = vn_name node,
      nm_serial_number = serial_number_hex node,
      nm_actuator_type = actuator_label (vn_actuator_type node),
      nm_actuator_subtype = vn_actuator_subtype node, nm_product_group = vn_product_group node,
      nm_product_type = vn_product_type node, nm_controllable = is_controllable node,
      nm_order = vn_order node, nm_placement = vn_placement node,
      nm_build_number = vn_build_number node,
      nm_status_timestamp =
        map_option unix_seconds (Option.bind (vn_freshness node) sf_timestamp)\<rparr>"

record GroupMetadata =
  gm_id :: u8
  gm_name :: string
  gm_group_type :: u8
  gm_object_count :: u8
  gm_node_ids :: "u8 list"
  gm_order :: u16
  gm_placement :: u8
  gm_velocity :: u8
  gm_node_variation :: u8
  gm_revision :: u16

definition GroupMetadata_from :: "GroupInformation \<Rightarrow> GroupMetadata" where
  "GroupMetadata_from group_information =
     \<lparr>gm_id = group_id_get (gi_group_id group_information), gm_name = gi_name group_information,
      gm_group_type = gi_group_type group_information,
      gm_object_count = gi_object_count group_information,
      gm_node_ids = List.map_filter u8_try_from (ActuatorSet_iter (gi_actuators group_information)),
      gm_order = gi_order group_information, gm_placement = gi_placement group_information,
      gm_velocity = gi_velocity group_information,
      gm_node_variation = gi_node_variation group_information,
      gm_revision = gi_revision group_information\<rparr>"

text \<open>The values handed to \<open>serde_json::to_vec\<close>, which is an argument of what serialises.\<close>

datatype json_source =
    JsonIds "u8 list"
  | JsonNode NodeMetadata
  | JsonGroup GroupMetadata
  | JsonSnapshot CoverStatusSnapshot

type_synonym to_vec = "json_source \<Rightarrow> (string, u8 list) outcome"

definition serialize_json :: "to_vec \<Rightarrow> json_source \<Rightarrow> (MqttError, u8 list) outcome" where
  "serialize_json to_vec value =
     (case to_vec value of
        Ok bytes \<Rightarrow> Ok bytes
      | Err message \<Rightarrow> Err (Serialization message)
      | Panic \<Rightarrow> Panic)"

primrec cover_state_label :: "CoverState \<Rightarrow> string" where
  "cover_state_label CoverOpen = ''open''"
| "cover_state_label CoverClosed = ''closed''"
| "cover_state_label CoverOpening = ''opening''"
| "cover_state_label CoverClosing = ''closing''"
| "cover_state_label CoverUnknown = ''unknown''"

definition inventory_publication ::
  "to_vec \<Rightarrow> TopicLayout \<Rightarrow> VeluxNodeCache \<Rightarrow> (MqttError, MqttPublication) outcome"
where
  "inventory_publication to_vec topics cache =
     map_ok (retained (topic_nodes topics))
       (serialize_json to_vec (JsonIds (map node_id_get (btree_keys cache))))"

definition info_publication ::
  "to_vec \<Rightarrow> TopicLayout \<Rightarrow> VeluxNode \<Rightarrow> (MqttError, MqttPublication) outcome"
where
  "info_publication to_vec topics node =
     map_ok (retained (node_info topics (vn_id node)))
       (serialize_json to_vec (JsonNode (NodeMetadata_from node)))"

definition groups_publication ::
  "to_vec \<Rightarrow> TopicLayout \<Rightarrow> GroupInformation list \<Rightarrow> (MqttError, MqttPublication) outcome"
where
  "groups_publication to_vec topics groups =
     map_ok (retained (topic_groups topics))
       (serialize_json to_vec (JsonIds (map (group_id_get \<circ> gi_group_id) groups)))"

definition group_info_publication ::
  "to_vec \<Rightarrow> TopicLayout \<Rightarrow> GroupInformation \<Rightarrow> (MqttError, MqttPublication) outcome"
where
  "group_info_publication to_vec topics group_information =
     map_ok (retained (group_info topics (gi_group_id group_information)))
       (serialize_json to_vec (JsonGroup (GroupMetadata_from group_information)))"

definition percent_text :: "u8 option \<Rightarrow> string" where
  "percent_text value = (case value of None \<Rightarrow> ''unknown'' | Some v \<Rightarrow> nat_display (unat v))"

definition status_publications ::
  "to_vec \<Rightarrow> TopicLayout \<Rightarrow> VeluxNode \<Rightarrow> (MqttError, MqttPublication list) outcome"
where
  "status_publications to_vec topics node =
     (let snap = snapshot node
      in map_ok
           (\<lambda>json.
             [retained (node_status topics (vn_id node)) json,
              retained (node_state topics (vn_id node)) (as_bytes (cover_state_label (cs_state snap))),
              retained (node_position topics (vn_id node)) (as_bytes (percent_text (cs_position snap))),
              retained (node_target topics (vn_id node)) (as_bytes (percent_text (cs_target snap)))])
           (serialize_json to_vec (JsonSnapshot snap)))"

definition availability_publication :: "TopicLayout \<Rightarrow> bool \<Rightarrow> MqttPublication" where
  "availability_publication topics online =
     retained (topic_state topics) (as_bytes (if online then ONLINE_PAYLOAD else OFFLINE_PAYLOAD))"

definition clear_node_publications :: "TopicLayout \<Rightarrow> NodeId \<Rightarrow> MqttPublication list" where
  "clear_node_publications topics node_id =
     map clear
       [node_info topics node_id, node_status topics node_id, node_state topics node_id,
        node_position topics node_id, node_target topics node_id]"

definition clear_group_publications :: "TopicLayout \<Rightarrow> GroupId \<Rightarrow> MqttPublication list" where
  "clear_group_publications topics group_id = [clear (group_info topics group_id)]"

section \<open>The connection\<close>

text \<open>The options \<open>MqttConnection::new\<close> gives to the client, and the layout it keeps.\<close>

datatype QoS = AtLeastOnce

record LastWill =
  lw_topic :: string
  lw_message :: string
  lw_qos :: QoS
  lw_retain :: bool

record MqttOptions =
  mo_client_id :: string
  mo_server :: string
  mo_port :: u16
  mo_transport :: Transport
  mo_clean_start :: bool
  mo_keep_alive :: nat
  mo_last_will :: LastWill
  mo_credentials :: "(string \<times> string) option"
  mo_request_capacity :: nat

definition MqttConnection_new ::
  "(string \<Rightarrow> (string, u8 list) outcome) \<Rightarrow> MqttConfig \<Rightarrow> (MqttError, MqttOptions \<times> TopicLayout) outcome"
where
  "MqttConnection_new read_file config =
     (let (config, r) = MqttConfig_validate config
      in and_then r (\<lambda>_.
         and_then (transport read_file config) (\<lambda>t.
         and_then (TopicLayout_new (mc_base_topic config)) (\<lambda>topics.
           Ok (\<lparr>mo_client_id = mc_client_id config, mo_server = mc_server config,
                mo_port = mc_port config, mo_transport = t, mo_clean_start = True,
                mo_keep_alive = mc_keep_alive config,
                mo_last_will = \<lparr>lw_topic = topic_state topics, lw_message = OFFLINE_PAYLOAD,
                  lw_qos = AtLeastOnce, lw_retain = True\<rparr>,
                mo_credentials =
                  (if mc_user config \<noteq> [] then Some (mc_user config, mc_password config) else None),
                mo_request_capacity = mc_request_capacity config\<rparr>, topics)))))"

text \<open>
  What the event loop of \<open>rumqttc\<close> yields: the acknowledgement of a connection with the text of its
  code unless it is a success, an incoming publication, the sending of a disconnect, anything else.
\<close>

datatype packet_event =
    ConnAck "string option"
  | Publish "u8 list" "u8 list" bool
  | OutgoingDisconnect
  | OtherEvent

text \<open>
  \<open>poll\<close> with the results of the event loop and of queueing a subscription as arguments. It returns
  the subscriptions it made, its result (none while the event loop has nothing to offer) and the
  results of the event loop that are left.
\<close>

definition subscribe_all ::
  "(string \<Rightarrow> string option) \<Rightarrow> string list \<Rightarrow> string list \<times> (MqttError, MqttEvent) outcome"
where
  "subscribe_all subscribe filters =
     (case find (\<lambda>f. subscribe f \<noteq> None) filters of
        None \<Rightarrow> (filters, Ok Connected)
      | Some f \<Rightarrow>
          (takeWhile (\<lambda>f. subscribe f = None) filters, Err (MqttConnectionError (the (subscribe f)))))"

definition incoming_message :: "u8 list \<Rightarrow> u8 list \<Rightarrow> bool \<Rightarrow> (MqttError, MqttEvent) outcome" where
  "incoming_message topic payload retain =
     (case from_utf8 topic of
        None \<Rightarrow> Err (InvalidIncomingUtf8 ''topic'')
      | Some t \<Rightarrow>
          (case from_utf8 payload of
             None \<Rightarrow> Err (InvalidIncomingUtf8 ''payload'')
           | Some p \<Rightarrow> Ok (Message \<lparr>im_topic = t, im_payload = p, im_retained = retain\<rparr>)))"

fun poll ::
  "TopicLayout \<Rightarrow> (string \<Rightarrow> string option) \<Rightarrow> (string, packet_event) outcome list
     \<Rightarrow> string list \<times> (MqttError, MqttEvent) outcome option \<times> (string, packet_event) outcome list"
where
  "poll topics subscribe [] = ([], None, [])"
| "poll topics subscribe (Err message # events) = ([], Some (Err (MqttConnectionError message)), events)"
| "poll topics subscribe (Panic # events) = ([], Some Panic, events)"
| "poll topics subscribe (Ok event # events) =
     (case event of
        ConnAck (Some code) \<Rightarrow>
          ([], Some (Err (MqttConnectionError (''broker rejected connection: '' @ code))), events)
      | ConnAck None \<Rightarrow>
          (let (done, r) =
             subscribe_all subscribe [command_filter topics, gateway_reboot_command topics]
           in (done, Some r, events))
      | Publish topic payload retain \<Rightarrow> ([], Some (incoming_message topic payload retain), events)
      | OutgoingDisconnect \<Rightarrow> poll topics subscribe events
      | OtherEvent \<Rightarrow> poll topics subscribe events)"

text \<open>
  The publications handed to the client with the error of each attempt. Whether an attempt succeeds
  is answered by an argument that sees the attempts before it. An attempt waits while the bounded request
  channel of the client is full; the definitions give the outcome once it has found room, and what happens
  when it never does is part of the run of the bridge (\<open>publishing_blocks\<close>).
\<close>

type_synonym mqtt_trace = "(MqttPublication \<times> string option) list"
type_synonym publish_bytes = "mqtt_trace \<Rightarrow> MqttPublication \<Rightarrow> string option"

definition publish ::
  "publish_bytes \<Rightarrow> mqtt_trace \<Rightarrow> MqttPublication \<Rightarrow> mqtt_trace \<times> (MqttError, unit) outcome"
where
  "publish publish_bytes trace publication =
     (let answer = publish_bytes trace publication
      in (trace @ [(publication, answer)],
          case answer of None \<Rightarrow> Ok () | Some message \<Rightarrow> Err (MqttConnectionError message)))"

fun publish_all ::
  "publish_bytes \<Rightarrow> mqtt_trace \<Rightarrow> MqttPublication list \<Rightarrow> mqtt_trace \<times> (MqttError, unit) outcome"
where
  "publish_all publish_bytes trace [] = (trace, Ok ())"
| "publish_all publish_bytes trace (publication # publications) =
     (case publish publish_bytes trace publication of
        (trace', Ok _) \<Rightarrow> publish_all publish_bytes trace' publications
      | (trace', r) \<Rightarrow> (trace', r))"

text \<open>\<open>disconnect\<close>; the end of the list of results is the timeout of two seconds.\<close>

fun flush_disconnect :: "(string, packet_event) outcome list \<Rightarrow> (MqttError, unit) outcome" where
  "flush_disconnect [] = Err ShutdownTimeout"
| "flush_disconnect (Err message # events) = Err (MqttConnectionError message)"
| "flush_disconnect (Panic # events) = Panic"
| "flush_disconnect (Ok event # events) =
     (if event = OutgoingDisconnect then Ok () else flush_disconnect events)"

definition disconnect ::
  "string option \<Rightarrow> (string, packet_event) outcome list \<Rightarrow> (MqttError, unit) outcome"
where
  "disconnect request events =
     (case request of
        Some message \<Rightarrow> Err (MqttConnectionError message)
      | None \<Rightarrow> flush_disconnect events)"

section \<open>Reading a topic back\<close>

lemma digits_no_slash: "CHR ''/'' \<notin> set (nat_display n)"
  using nat_display_digits [of "CHR ''/''" n] by (auto simp: is_ascii_digit_def)

lemma parse_digit_None [simp]: "foldl parse_digit None cs = None"
  by (induction cs) (simp_all add: parse_digit_def)

lemma foldl_parse_digit_ascii:
  "foldl parse_digit acc cs = Some n \<Longrightarrow> c \<in> set cs \<Longrightarrow> is_ascii_digit c"
proof (induction cs arbitrary: acc)
  case (Cons a cs)
  obtain m where m: "parse_digit acc a = Some m"
    using Cons.prems(1) by (cases "parse_digit acc a") simp_all
  then have "is_ascii_digit a" by (auto simp: parse_digit_def split: option.splits if_splits)
  then show ?case using Cons m by auto
qed simp

lemma parse_u8_no_slash:
  assumes "parse_u8 s = Some b"
  shows "CHR ''/'' \<notin> set s"
proof -
  have "\<not> is_ascii_digit CHR ''/''" by (simp add: is_ascii_digit_def)
  then have *: "foldl parse_digit (Some 0) cs = Some n \<Longrightarrow> CHR ''/'' \<notin> set cs" for cs n
    using foldl_parse_digit_ascii by blast
  show ?thesis
  proof (cases s)
    case (Cons c cs)
    then show ?thesis using assms * [of cs] * [of s]
      by (auto simp: parse_u8_def Let_def simp del: foldl.simps split: if_splits)
  qed simp
qed

text \<open>Joining the segments of a string with the separator gives it back.\<close>

lemma split_on_three_iff:
  "split_on sep s = [a, b, c] \<longleftrightarrow>
     s = a @ sep # b @ sep # c \<and> sep \<notin> set a \<and> sep \<notin> set b \<and> sep \<notin> set c"
proof
  assume "split_on sep s = [a, b, c]"
  moreover have "split_on sep s = [a] \<Longrightarrow> s = a \<and> sep \<notin> set a" for s a
    by (induction s arbitrary: a) (auto split: if_splits list.splits)
  moreover from this have two: "split_on sep s = [a, b] \<Longrightarrow>
      s = a @ sep # b \<and> sep \<notin> set a \<and> sep \<notin> set b" for s a b
    by (induction s arbitrary: a) (fastforce split: if_splits list.splits)+
  moreover from this have "split_on sep s = [a, b, c] \<Longrightarrow>
      s = a @ sep # b @ sep # c \<and> sep \<notin> set a \<and> sep \<notin> set b \<and> sep \<notin> set c" for s a b c
    by (induction s arbitrary: a) (fastforce split: if_splits list.splits)+
  ultimately show "s = a @ sep # b @ sep # c \<and> sep \<notin> set a \<and> sep \<notin> set b \<and> sep \<notin> set c"
    by blast
qed (auto simp: split_on_append split_on_no_sep)

lemma relative_topic_iff:
  "Option.bind (strip_prefix topic base) (\<lambda>suffix. strip_prefix suffix ''/'') = Some relative \<longleftrightarrow>
     topic = base @ ''/'' @ relative"
  by (auto simp: strip_prefix_Some_iff bind_eq_Some_conv)

lemma parse_command_control_iff:
  assumes "command \<noteq> GatewayReboot"
  shows "parse_command topics message = Ok command \<longleftrightarrow>
     \<not> im_retained message
     \<and> (\<exists>segment. im_topic message = tl_base topics @ ''/'' @ segment @ ''/cmnd/control''
          \<and> CHR ''/'' \<notin> set segment
          \<and> parse_target (im_topic message) segment (trim (im_payload message)) = Ok command)"
proof -
  let ?topic = "im_topic message"
  have not_reboot: "tl_base topics @ ''/'' @ segment @ ''/cmnd/control'' \<noteq> gateway_reboot_command topics"
    for segment
  proof
    assume "tl_base topics @ ''/'' @ segment @ ''/cmnd/control'' = gateway_reboot_command topics"
    then have "rev (segment @ ''/cmnd/control'') = rev ''cmnd/reboot''"
      by (simp add: gateway_reboot_command_def)
    then show False by simp
  qed
  show ?thesis
  proof (cases "Option.bind (strip_prefix ?topic (tl_base topics)) (\<lambda>suffix. strip_prefix suffix ''/'')")
    case None
    then have "?topic \<noteq> tl_base topics @ ''/'' @ relative" for relative
      using relative_topic_iff [of ?topic "tl_base topics" relative] by auto
    then show ?thesis using assms None by (auto simp: parse_command_def Let_def)
  next
    case (Some relative)
    then have topic: "?topic = tl_base topics @ ''/'' @ relative" by (simp only: relative_topic_iff)
    have "parse_command topics message = Ok command \<longleftrightarrow> \<not> im_retained message
        \<and> ?topic \<noteq> gateway_reboot_command topics
        \<and> (\<exists>t. split_on CHR ''/'' relative = [t, ''cmnd'', ''control'']
             \<and> parse_target ?topic t (trim (im_payload message)) = Ok command)"
      using assms Some by (auto simp: parse_command_def Let_def split: list.splits)
    then show ?thesis using topic not_reboot by (auto simp: split_on_three_iff)
  qed
qed

lemma parse_target_node_iff:
  "parse_target topic segment payload = Ok (NodeCmd command) \<longleftrightarrow>
     (\<exists>digits. segment = ''velux_node_'' @ digits \<and> parse_u8 digits = Some (node_id_get (nc_node command))
        \<and> node_action payload = Ok (nc_action command))"
proof (cases "strip_prefix segment ''velux_node_''")
  case None
  then have "segment \<noteq> ''velux_node_'' @ digits" for digits by (auto simp: strip_prefix_def)
  then show ?thesis using None by (auto simp: parse_target_def outcome_iffs split: option.splits)
next
  case (Some digits)
  then have "segment = ''velux_node_'' @ digits" by (simp add: strip_prefix_Some_iff)
  then show ?thesis
    by (cases command; cases "nc_node command")
      (auto simp: parse_target_def strip_prefix_def outcome_iffs split: option.splits)
qed

lemma parse_target_group_iff:
  "parse_target topic segment payload = Ok (GroupCmd command) \<longleftrightarrow>
     (\<exists>digits. segment = ''velux_group_'' @ digits \<and> parse_u8 digits = Some (group_id_get (gc_group command))
        \<and> group_action payload = Ok (gc_action command))"
proof (cases "strip_prefix segment ''velux_group_''")
  case None
  then have "segment \<noteq> ''velux_group_'' @ digits" for digits by (auto simp: strip_prefix_def)
  then show ?thesis using None by (auto simp: parse_target_def outcome_iffs split: option.splits)
next
  case (Some digits)
  then have "segment = ''velux_group_'' @ digits" by (simp add: strip_prefix_Some_iff)
  then show ?thesis
    by (cases command; cases "gc_group command")
      (auto simp: parse_target_def strip_prefix_def outcome_iffs split: option.splits)
qed

lemma parse_command_node_iff:
  "parse_command topics message = Ok (NodeCmd command) \<longleftrightarrow>
     \<not> im_retained message
     \<and> (\<exists>digits. im_topic message = tl_base topics @ ''/velux_node_'' @ digits @ ''/cmnd/control''
          \<and> parse_u8 digits = Some (node_id_get (nc_node command)))
     \<and> node_action (trim (im_payload message)) = Ok (nc_action command)"
  by (auto simp: parse_command_control_iff parse_target_node_iff dest: parse_u8_no_slash)

lemma parse_command_group_iff:
  "parse_command topics message = Ok (GroupCmd command) \<longleftrightarrow>
     \<not> im_retained message
     \<and> (\<exists>digits. im_topic message = tl_base topics @ ''/velux_group_'' @ digits @ ''/cmnd/control''
          \<and> parse_u8 digits = Some (group_id_get (gc_group command)))
     \<and> group_action (trim (im_payload message)) = Ok (gc_action command)"
  by (auto simp: parse_command_control_iff parse_target_group_iff dest: parse_u8_no_slash)

lemma parse_command_reboot_iff:
  "parse_command topics message = Ok GatewayReboot \<longleftrightarrow>
     \<not> im_retained message \<and> im_topic message = gateway_reboot_command topics
     \<and> eq_ignore_ascii_case (trim (im_payload message)) ''REBOOT''"
proof -
  have "parse_target topic segment payload \<noteq> Ok GatewayReboot" for topic segment payload
    by (auto simp: parse_target_def outcome_iffs split: option.splits)
  then show ?thesis
    by (auto simp: parse_command_def Let_def split: option.splits list.splits if_splits)
qed

lemmas parse_command_iffs = parse_command_node_iff parse_command_group_iff parse_command_reboot_iff

text \<open>The topic a node or a group is commanded on names that node or group and no other.\<close>

lemma parse_own_node_topic:
  assumes "\<not> im_retained message" "im_topic message = node_command topics n"
  shows "parse_command topics message = Ok (NodeCmd \<lparr>nc_node = m, nc_action = action\<rparr>) \<longleftrightarrow>
     m = n \<and> node_action (trim (im_payload message)) = Ok action"
proof -
  have "parse_u8 digits = Some (node_id_get m) \<longleftrightarrow> m = n"
    if "tl_base topics @ ''/velux_node_'' @ digits @ ''/cmnd/control'' = node_command topics n" for digits
    using that by (cases m; cases n) (auto simp: node_command_def node_root_def)
  moreover have "\<exists>digits. tl_base topics @ ''/velux_node_'' @ digits @ ''/cmnd/control'' = node_command topics n"
    by (simp add: node_command_def node_root_def)
  ultimately show ?thesis using assms unfolding parse_command_node_iff by auto metis+
qed

section \<open>Topics do not overlap\<close>

lemma segment_cancel:
  assumes "sep \<notin> set a" "sep \<notin> set b"
  shows "a @ sep # x = b @ sep # y \<longleftrightarrow> a = b \<and> x = y"
proof
  assume eq: "a @ sep # x = b @ sep # y"
  have "takeWhile (\<lambda>c. c \<noteq> sep) (a @ sep # x) = a" "takeWhile (\<lambda>c. c \<noteq> sep) (b @ sep # y) = b"
    using assms by (auto simp: takeWhile_append)
  then show "a = b \<and> x = y" using eq by simp
qed simp

lemma nat_display_u8_iff [simp]: "nat_display (unat (a :: u8)) = nat_display (unat b) \<longleftrightarrow> a = b"
  using nat_display_inj by blast

lemma id_topic_iff:
  "nat_display (unat (a :: u8)) @ CHR ''/'' # x = nat_display (unat b) @ CHR ''/'' # y \<longleftrightarrow> a = b \<and> x = y"
  by (simp add: segment_cancel digits_no_slash)

text \<open>The retained topics of a node: its metadata and its status.\<close>

definition node_topics :: "TopicLayout \<Rightarrow> NodeId \<Rightarrow> string list" where
  "node_topics topics n =
     [node_info topics n, node_status topics n, node_state topics n, node_position topics n,
      node_target topics n]"

lemmas topic_defs = topic_state_def topic_nodes_def topic_groups_def node_info_def node_status_def
  node_state_def node_position_def node_target_def node_root_def group_info_def group_root_def

lemma distinct_node_topics: "distinct (node_topics topics n)"
  by (simp add: node_topics_def topic_defs)

lemma node_topics_iff: "topic \<in> set (node_topics topics n) \<Longrightarrow> topic \<in> set (node_topics topics m) \<longleftrightarrow> n = m"
  by (cases n; cases m) (auto simp: node_topics_def topic_defs id_topic_iff)

lemma node_topics_not_global:
  "topic_state topics \<notin> set (node_topics topics n)" "topic_nodes topics \<notin> set (node_topics topics n)"
  "topic_groups topics \<notin> set (node_topics topics n)" "group_info topics g \<notin> set (node_topics topics n)"
  by (simp_all add: node_topics_def topic_defs)

lemma group_info_iff [simp]: "group_info topics g = group_info topics h \<longleftrightarrow> g = h"
  by (cases g; cases h) (simp add: topic_defs id_topic_iff)

lemma global_topics_distinct [simp]:
  "topic_state topics \<noteq> topic_nodes topics" "topic_state topics \<noteq> topic_groups topics"
  "topic_nodes topics \<noteq> topic_groups topics" "group_info topics g \<noteq> topic_state topics"
  "group_info topics g \<noteq> topic_nodes topics" "group_info topics g \<noteq> topic_groups topics"
  by (simp_all add: topic_defs)

lemma distinct_all_node_topics:
  "distinct ns \<Longrightarrow> distinct (concat (map (node_topics topics) ns))"
proof (induction ns)
  case (Cons n ns)
  then show ?case using node_topics_iff [of _ topics n] by (auto simp: distinct_node_topics)
qed simp

section \<open>Publishing\<close>

lemma publish_all_spec:
  "\<exists>answers. length answers \<le> length ps
     \<and> fst (publish_all pb trace ps) = trace @ zip (take (length answers) ps) answers
     \<and> (snd (publish_all pb trace ps) = Ok () \<and> answers = replicate (length ps) None
        \<or> (\<exists>k message. k < length ps \<and> answers = replicate k None @ [Some message]
             \<and> snd (publish_all pb trace ps) = Err (MqttConnectionError message)))"
proof (induction ps arbitrary: trace)
  case (Cons p ps)
  let ?trace = "trace @ [(p, pb trace p)]"
  show ?case
  proof (cases "pb trace p")
    case None
    then have eq: "publish_all pb trace (p # ps) = publish_all pb ?trace ps"
      by (simp add: publish_def)
    from Cons.IH [of ?trace] obtain answers where a: "length answers \<le> length ps"
      "fst (publish_all pb ?trace ps) = ?trace @ zip (take (length answers) ps) answers"
      "snd (publish_all pb ?trace ps) = Ok () \<and> answers = replicate (length ps) None
        \<or> (\<exists>k message. k < length ps \<and> answers = replicate k None @ [Some message]
             \<and> snd (publish_all pb ?trace ps) = Err (MqttConnectionError message))" by blast
    from a(3) have "snd (publish_all pb ?trace ps) = Ok ()
          \<and> None # answers = replicate (length (p # ps)) None
        \<or> (\<exists>k message. k < length (p # ps) \<and> None # answers = replicate k None @ [Some message]
             \<and> snd (publish_all pb ?trace ps) = Err (MqttConnectionError message))"
    proof
      assume "\<exists>k message. k < length ps \<and> answers = replicate k None @ [Some message]
             \<and> snd (publish_all pb ?trace ps) = Err (MqttConnectionError message)"
      then obtain k message where k: "k < length ps" "answers = replicate k None @ [Some message]"
        "snd (publish_all pb ?trace ps) = Err (MqttConnectionError message)" by blast
      then have "Suc k < length (p # ps)" "None # answers = replicate (Suc k) None @ [Some message]"
        by simp_all
      with k(3) show ?thesis by blast
    qed simp
    then show ?thesis unfolding eq using a(1,2) None by (intro exI [of _ "None # answers"]) simp
  next
    case (Some message)
    then show ?thesis
      by (intro exI [of _ "[Some message]"]) (auto simp: publish_def intro!: exI [of _ "0::nat"])
  qed
qed simp

text \<open>With a client that takes every request, everything is queued in order.\<close>

definition all_queued :: "publish_bytes \<Rightarrow> bool" where
  "all_queued pb \<longleftrightarrow> (\<forall>trace p. pb trace p = None)"

lemma publish_all_queued:
  "all_queued pb \<Longrightarrow> publish_all pb trace ps = (trace @ map (\<lambda>p. (p, None)) ps, Ok ())"
  by (induction ps arbitrary: trace) (simp_all add: publish_def all_queued_def)

section \<open>Publications and their topics\<close>

lemma retained_simps [simp]:
  "mp_topic (retained topic payload) = topic" "mp_payload (retained topic payload) = payload"
  "mp_retained (retained topic payload)"
  by (simp_all add: retained_def)

lemma topics_of_clear_node: "map mp_topic (clear_node_publications topics n) = node_topics topics n"
  by (simp add: clear_node_publications_def node_topics_def clear_def)

lemma topics_of_info: "info_publication to_vec topics node = Ok p \<Longrightarrow> mp_topic p = node_info topics (vn_id node)"
  by (auto simp: info_publication_def outcome_iffs)

lemma topics_of_status:
  "status_publications to_vec topics node = Ok ps \<Longrightarrow> map mp_topic ps = tl (node_topics topics (vn_id node))"
  by (auto simp: status_publications_def Let_def outcome_iffs node_topics_def)

section \<open>What the broker retains\<close>

text \<open>
  The retained messages by topic, as the MQTT specification defines them: a retained publication
  replaces the message of its topic, and one with an empty payload removes it.
\<close>

type_synonym retained_store = "string \<Rightarrow> u8 list option"

definition retain :: "MqttPublication \<Rightarrow> retained_store \<Rightarrow> retained_store" where
  "retain p store =
     (if mp_retained p then store(mp_topic p := (if mp_payload p = [] then None else Some (mp_payload p)))
      else store)"

definition retain_all :: "MqttPublication list \<Rightarrow> retained_store \<Rightarrow> retained_store" where
  "retain_all ps store = fold retain ps store"

lemma retain_all_simps [simp]:
  "retain_all [] store = store" "retain_all (p # ps) store = retain_all ps (retain p store)"
  "retain_all (ps @ qs) store = retain_all qs (retain_all ps store)"
  by (simp_all add: retain_all_def)

lemma retain_retained [simp]:
  "retain (retained topic payload) store = store(topic := (if payload = [] then None else Some payload))"
  "retain (clear topic) store = store(topic := None)"
  by (simp_all add: retain_def clear_def)

lemma retain_all_other: "topic \<notin> set (map mp_topic ps) \<Longrightarrow> retain_all ps store topic = store topic"
  by (induction ps arbitrary: store) (auto simp: retain_def)

lemma retain_all_clear:
  "retain_all (map clear topics) store topic = (if topic \<in> set topics then None else store topic)"
  by (induction topics arbitrary: store) auto

section \<open>The base topic\<close>

lemma TopicLayout_new_Ok:
  assumes "TopicLayout_new topic = Ok topics"
  shows "tl_base topics \<noteq> []" "[] \<notin> set (split_on CHR ''/'' (tl_base topics))"
    "CHR ''+'' \<notin> set (tl_base topics)" "CHR ''#'' \<notin> set (tl_base topics)"
    "CHR 0x00 \<notin> set (tl_base topics)"
proof -
  let ?base = "trim_matches CHR ''/'' (trim topic)"
  have "topics = \<lparr>tl_base = ?base\<rparr>"
    and checks: "\<not> (?base = [] \<or> [] \<in> set (split_on CHR ''/'' ?base)
      \<or> list_ex (\<lambda>c. c = CHR ''+'' \<or> c = CHR ''#'' \<or> c = CHR 0x00) ?base)"
    using assms unfolding TopicLayout_new_def Let_def by (metis outcome.distinct(1) outcome.inject(1))+
  then have base: "tl_base topics = ?base" by simp
  show "tl_base topics \<noteq> []" "[] \<notin> set (split_on CHR ''/'' (tl_base topics))"
    "CHR ''+'' \<notin> set (tl_base topics)" "CHR ''#'' \<notin> set (tl_base topics)"
    "CHR 0x00 \<notin> set (tl_base topics)"
    using checks unfolding base list_ex_iff by blast+
qed

text \<open>An accepted command arrived on a topic that one of the two subscriptions covers.\<close>

definition filter_covers :: "string \<Rightarrow> string \<Rightarrow> bool" where
  "filter_covers pattern topic \<longleftrightarrow>
     list_all2 (\<lambda>p t. p = ''+'' \<or> p = t) (split_on CHR ''/'' pattern) (split_on CHR ''/'' topic)"

lemma split_on_append_gen: "split_on sep (s @ sep # t) = split_on sep s @ split_on sep t"
proof (induction s)
  case (Cons c s)
  then show ?case by (cases "split_on sep s") (auto split: list.splits)
qed simp

lemma command_topics_subscribed:
  assumes "parse_command topics message = Ok command"
  shows "filter_covers (command_filter topics) (im_topic message)
    \<or> im_topic message = gateway_reboot_command topics"
proof (cases "command = GatewayReboot")
  case True
  then show ?thesis using assms by (simp add: parse_command_reboot_iff)
next
  case False
  then obtain segment where
    "im_topic message = tl_base topics @ ''/'' @ segment @ ''/cmnd/control''" "CHR ''/'' \<notin> set segment"
    using assms by (auto simp: parse_command_control_iff)
  then have "split_on CHR ''/'' (im_topic message) =
      split_on CHR ''/'' (tl_base topics) @ [segment, ''cmnd'', ''control'']"
    by (simp add: split_on_append_gen split_on_no_sep)
  moreover have "split_on CHR ''/'' (command_filter topics) =
      split_on CHR ''/'' (tl_base topics) @ [''+'', ''cmnd'', ''control'']"
    by (simp add: command_filter_def split_on_append_gen)
  ultimately show ?thesis by (simp add: filter_covers_def list_all2_append list.rel_refl)
qed

section \<open>Properties\<close>

text \<open>
  C17. A message is read as a command exactly when it is not retained, arrives on the control topic of
  a node or a group or on the reboot topic, and its payload without surrounding space is one of the
  words that target understands; the command names the identifier written in the topic, and every
  accepted message is on a topic the client subscribed to.
\<close>

theorem mqtt_command_iff:
  "(parse_command topics message = Ok (NodeCmd command) \<longleftrightarrow>
      \<not> im_retained message
      \<and> (\<exists>digits. im_topic message = tl_base topics @ ''/velux_node_'' @ digits @ ''/cmnd/control''
           \<and> parse_u8 digits = Some (node_id_get (nc_node command)))
      \<and> node_action (trim (im_payload message)) = Ok (nc_action command))
   \<and> (parse_command topics message = Ok (GroupCmd gcommand) \<longleftrightarrow>
      \<not> im_retained message
      \<and> (\<exists>digits. im_topic message = tl_base topics @ ''/velux_group_'' @ digits @ ''/cmnd/control''
           \<and> parse_u8 digits = Some (group_id_get (gc_group gcommand)))
      \<and> group_action (trim (im_payload message)) = Ok (gc_action gcommand))
   \<and> (parse_command topics message = Ok GatewayReboot \<longleftrightarrow>
      \<not> im_retained message \<and> im_topic message = gateway_reboot_command topics
      \<and> eq_ignore_ascii_case (trim (im_payload message)) ''REBOOT'')
   \<and> ((\<exists>c. parse_command topics message = Ok c) \<longrightarrow>
      filter_covers (command_filter topics) (im_topic message)
      \<or> im_topic message = gateway_reboot_command topics)"
  using parse_command_iffs command_topics_subscribed by blast

theorem mqtt_command_iff_witness:
  "parse_command \<lparr>tl_base = ''velux''\<rparr>
      \<lparr>im_topic = ''velux/velux_node_7/cmnd/control'', im_payload = '' open'', im_retained = False\<rparr> =
      Ok (NodeCmd \<lparr>nc_node = NodeId 7, nc_action = OpenAction\<rparr>)
   \<and> filter_covers (command_filter \<lparr>tl_base = ''velux''\<rparr>) ''velux/velux_node_7/cmnd/control''"
proof -
  let ?m = "\<lparr>im_topic = ''velux/velux_node_7/cmnd/control'', im_payload = '' open'', im_retained = False\<rparr>"
  let ?t = "\<lparr>tl_base = ''velux''\<rparr>"
  have "trim (im_payload ?m) = ''open''" by (simp add: trim_def whitespace_def trim_leading.simps)
  then have "node_action (trim (im_payload ?m)) = Ok OpenAction"
    by (simp add: node_action_def eq_ignore_ascii_case_def to_ascii_lowercase_def char_of_def bit_0)
  moreover have "parse_u8 ''7'' = Some 7"
    by (simp add: parse_u8_def parse_digit_def is_ascii_digit_def)
  moreover have "im_topic ?m = tl_base ?t @ ''/velux_node_'' @ ''7'' @ ''/cmnd/control''" by simp
  ultimately have ok: "parse_command ?t ?m = Ok (NodeCmd \<lparr>nc_node = NodeId 7, nc_action = OpenAction\<rparr>)"
    using mqtt_command_iff [of ?t ?m "\<lparr>nc_node = NodeId 7, nc_action = OpenAction\<rparr>"] by fastforce
  moreover have "im_topic ?m \<noteq> gateway_reboot_command ?t" by (simp add: gateway_reboot_command_def)
  ultimately have "filter_covers (command_filter ?t) (im_topic ?m)"
    using mqtt_command_iff [of ?t ?m] by blast
  then show ?thesis using ok by simp
qed

text \<open>
  No two of the retained topics of a layout are the same, whatever nodes and groups there are, so
  no publication overwrites the retained message of another.
\<close>

theorem retained_topics_distinct:
  assumes "distinct ns" "distinct gs"
  shows "distinct ([topic_state topics, topic_nodes topics, topic_groups topics]
     @ concat (map (node_topics topics) ns) @ map (group_info topics) gs)"
  using assms distinct_all_node_topics [OF assms(1)] node_topics_not_global
    global_topics_distinct(4-6) [symmetric]
  by (auto simp: distinct_map inj_on_def)

theorem retained_topics_distinct_witness:
  "distinct ([topic_state \<lparr>tl_base = ''velux''\<rparr>, topic_nodes \<lparr>tl_base = ''velux''\<rparr>,
       topic_groups \<lparr>tl_base = ''velux''\<rparr>]
     @ concat (map (node_topics \<lparr>tl_base = ''velux''\<rparr>) [NodeId 1, NodeId 11])
     @ map (group_info \<lparr>tl_base = ''velux''\<rparr>) [GroupId 1])"
  by (rule retained_topics_distinct) simp_all

end
