(* ===== verification/Gateway_Setup.thy ===== *)
theory Gateway_Setup
  imports Client Mqtt
begin

text \<open>
  The gateway as the bridge sees it and the set-up of a connection (\<open>src/bridge.rs\<close>): the trait
  \<open>Gateway\<close> with its implementation by the client, the back-off between attempts, and the task that
  connects, reads the nodes and groups, asks for their status and switches the monitoring on.
\<close>

section \<open>Errors and sequencing\<close>

text \<open>
  The errors \<open>anyhow\<close> carries: the error of a component, a text, a text put in front of another error,
  and a response that was not the expected one.
\<close>

datatype (plugins only: size) bridge_error =
    KlfFailure klf_error
  | MqttFailure MqttError
  | NodeFailure NodeError
  | Bail string
  | UnexpectedReply string Response
  | ReceiverLagged nat
  | ReceiverClosed
  | Elapsed
  | Context string bridge_error

primrec map_err :: "('e \<Rightarrow> 'f) \<Rightarrow> ('e, 'a) outcome \<Rightarrow> ('f, 'a) outcome" where
  "map_err f (Ok x) = Ok x"
| "map_err f (Err e) = Err (f e)"
| "map_err f Panic = Panic"

text \<open>A computation that passes a state on, ended by an error or a panic.\<close>

type_synonym ('s, 'e, 'a) step = "'s \<Rightarrow> 's \<times> ('e, 'a) outcome"

definition step_then :: "('s, 'e, 'a) step \<Rightarrow> ('a \<Rightarrow> ('s, 'e, 'b) step) \<Rightarrow> ('s, 'e, 'b) step" where
  "step_then m f = (\<lambda>s.
     (case m s of
        (s', Ok x) \<Rightarrow> f x s'
      | (s', Err e) \<Rightarrow> (s', Err e)
      | (s', Panic) \<Rightarrow> (s', Panic)))"

definition step_return :: "('e, 'a) outcome \<Rightarrow> ('s, 'e, 'a) step" where
  "step_return r = (\<lambda>s. (s, r))"

primrec step_for_each :: "('x \<Rightarrow> ('s, 'e, unit) step) \<Rightarrow> 'x list \<Rightarrow> ('s, 'e, unit) step" where
  "step_for_each f [] = step_return (Ok ())"
| "step_for_each f (x # xs) = step_then (f x) (\<lambda>_. step_for_each f xs)"

section \<open>The interface of a gateway\<close>

text \<open>
  The calls of the trait, and a gateway as the answers it gives: each depends on the calls made before
  it, so the answers to repeated calls are independent. \<open>gw_events\<close> is what the receiver of events
  delivers in a wait that begins after those calls, up to the timeout of the wait.
\<close>

datatype gateway_call =
    CallLogin string
  | CallVersion
  | CallProtocolVersion
  | CallGatewayState
  | CallDiscoverNodes
  | CallNodeInformation NodeId
  | CallDiscoverGroups
  | CallSubscribe
  | CallSend Request
  | CallShutdown bool

type_synonym calls = "gateway_call list"

record gateway =
  gw_login :: "calls \<Rightarrow> string \<Rightarrow> unit result"
  gw_version :: "calls \<Rightarrow> Version result"
  gw_protocol_version :: "calls \<Rightarrow> ProtocolVersion result"
  gw_gateway_state :: "calls \<Rightarrow> GatewayState result"
  gw_discover_nodes :: "calls \<Rightarrow> NodeInformation list result"
  gw_node_information :: "calls \<Rightarrow> NodeId \<Rightarrow> NodeInformation result"
  gw_discover_groups :: "calls \<Rightarrow> GroupInformation list result"
  gw_send :: "calls \<Rightarrow> Request \<Rightarrow> Response result"
  gw_shutdown :: "calls \<Rightarrow> bool \<Rightarrow> unit result"
  gw_events :: "calls \<Rightarrow> received list"

text \<open>The implementation by \<open>Klf200Client\<close>, over what the actor answers and the channel delivers.\<close>

definition Klf200Client_gateway ::
  "(calls \<Rightarrow> Request \<Rightarrow> Response result delivery) \<Rightarrow> (calls \<Rightarrow> received list)
     \<Rightarrow> (calls \<Rightarrow> unit result delivery) \<Rightarrow> gateway"
where
  "Klf200Client_gateway actor events stopped =
     \<lparr>gw_login = (\<lambda>calls. login (actor calls)),
      gw_version = (\<lambda>calls. version (actor calls)),
      gw_protocol_version = (\<lambda>calls. protocol_version (actor calls)),
      gw_gateway_state = (\<lambda>calls. gateway_state (actor calls)),
      gw_discover_nodes = (\<lambda>calls. discover_nodes (actor calls) (events calls)),
      gw_node_information = (\<lambda>calls. node_information (actor calls) (events calls)),
      gw_discover_groups = (\<lambda>calls. discover_groups (actor calls) (events calls)),
      gw_send = (\<lambda>calls. send (actor calls)),
      gw_shutdown = (\<lambda>calls reboot.
        if reboot then shutdown_and_reboot (actor calls) (stopped calls)
        else shutdown (actor calls) (stopped calls)),
      gw_events = events\<rparr>"

text \<open>Making a call and receiving its answer.\<close>

definition gateway_call :: "gateway_call \<Rightarrow> (calls \<Rightarrow> 'a result) \<Rightarrow> (calls, bridge_error, 'a) step" where
  "gateway_call call answer = (\<lambda>calls. (calls @ [call], map_err KlfFailure (answer calls)))"

definition step_context :: "string \<Rightarrow> ('s, bridge_error, 'a) step \<Rightarrow> ('s, bridge_error, 'a) step" where
  "step_context text m = (\<lambda>s. case m s of (s', r) \<Rightarrow> (s', map_err (Context text) r))"

section \<open>Back-off\<close>

text \<open>Durations count milliseconds; \<open>DURATION_MAX\<close> is the largest one.\<close>

definition DURATION_MAX :: nat where "DURATION_MAX = (2 ^ 64 - 1) * 1000 + 999"

record ReconnectBackoff =
  rb_minimum :: nat
  rb_maximum :: nat
  rb_current :: nat

definition ReconnectBackoff_new :: "nat \<Rightarrow> nat \<Rightarrow> ReconnectBackoff" where
  "ReconnectBackoff_new minimum maximum =
     \<lparr>rb_minimum = minimum, rb_maximum = maximum, rb_current = minimum\<rparr>"

text \<open>\<open>random\<close> stands for \<open>fastrand::u64\<close>, which draws from the range up to its argument.\<close>

definition next_delay :: "(nat \<Rightarrow> nat) \<Rightarrow> ReconnectBackoff \<Rightarrow> ReconnectBackoff \<times> nat" where
  "next_delay random backoff =
     (let base = rb_current backoff;
          jitter_limit = (if base div 4 < 2 ^ 64 then base div 4 else 2 ^ 64 - 1)
      in (backoff\<lparr>rb_current := min (min (base * 2) DURATION_MAX) (rb_maximum backoff)\<rparr>,
          min (base + random jitter_limit) DURATION_MAX))"

definition backoff_reset :: "ReconnectBackoff \<Rightarrow> ReconnectBackoff" where
  "backoff_reset backoff = backoff\<lparr>rb_current := rb_minimum backoff\<rparr>"

section \<open>The status of one node\<close>

text \<open>The cache and the session identifiers of a set-up.\<close>

record setup_state =
  su_calls :: calls
  su_cache :: VeluxNodeCache
  su_session_ids :: SessionIdAllocator

definition su_call :: "(calls, bridge_error, 'a) step \<Rightarrow> (setup_state, bridge_error, 'a) step" where
  "su_call m = (\<lambda>s. case m (su_calls s) of (calls, r) \<Rightarrow> (s\<lparr>su_calls := calls\<rparr>, r))"

definition su_release :: "SessionId \<Rightarrow> setup_state \<Rightarrow> setup_state" where
  "su_release session s = s\<lparr>su_session_ids := fst (release (su_session_ids s) session)\<rparr>"

definition completes :: "SessionId \<Rightarrow> NodeId \<Rightarrow> Response \<Rightarrow> bool" where
  "completes session node_id response \<longleftrightarrow>
     (case response of
        StatusNotification status \<Rightarrow> st_session_id status = session \<and> st_node_id status = node_id
      | _ \<Rightarrow> False)"

definition release_finished :: "Response \<Rightarrow> setup_state \<Rightarrow> setup_state" where
  "release_finished response s =
     (case response of SessionFinished session \<Rightarrow> su_release session s | _ \<Rightarrow> s)"

text \<open>The wait for the status notification; the end of the list of events is the timeout.\<close>

fun status_wait ::
  "SessionId \<Rightarrow> NodeId \<Rightarrow> received list \<Rightarrow> (setup_state, bridge_error, unit) step"
where
  "status_wait session node_id [] s =
     (s, Err (Context (''status notification for node '' @ nat_display (unat (node_id_get node_id))
               @ '' timed out'') Elapsed))"
| "status_wait session node_id (Received (Notification response) # events) s =
     (let s = release_finished response s;
          s = s\<lparr>su_cache := fst (apply_response (su_cache s) response)\<rparr>
      in if completes session node_id response then (s, Ok ())
         else status_wait session node_id events s)"
| "status_wait session node_id (Received (SessionTimedOut expired) # events) s =
     (let s = su_release expired s
      in if expired = session
         then (s, Err (Bail (''status session '' @ nat_display (unat (session_id_get session))
                 @ '' timed out'')))
         else status_wait session node_id events s)"
| "status_wait session node_id (Received (Disconnected message) # events) s =
     (s, Err (Bail (''KLF disconnected: '' @ message)))"
| "status_wait session node_id (Received event # events) s = status_wait session node_id events s"
| "status_wait session node_id (Lagged n # events) s = (s, Err (ReceiverLagged n))"
| "status_wait session node_id (Closed # events) s = (s, Err ReceiverClosed)"

definition session_rejected :: "string \<Rightarrow> SessionId \<Rightarrow> u8 \<Rightarrow> bridge_error" where
  "session_rejected kind_text session status =
     Bail (''KLF rejected '' @ kind_text @ '' session '' @ nat_display (unat (session_id_get session))
       @ '' with status '' @ nat_display (unat status))"

definition query_initial_status :: "gateway \<Rightarrow> NodeId \<Rightarrow> (setup_state, bridge_error, unit) step" where
  "query_initial_status gw node_id s =
     (case allocate (su_session_ids s) of
        (ids, Err e) \<Rightarrow> (s\<lparr>su_session_ids := ids\<rparr>, Err (KlfFailure e))
      | (ids, Panic) \<Rightarrow> (s\<lparr>su_session_ids := ids\<rparr>, Panic)
      | (ids, Ok session) \<Rightarrow>
          let s = s\<lparr>su_session_ids := ids\<rparr>
          in (case CommandTarget_new [node_id] of
                Err e \<Rightarrow> (s, Err (KlfFailure e))
              | Panic \<Rightarrow> (s, Panic)
              | Ok target \<Rightarrow>
                  let request = StatusRequest session target MainInformation
                  in (case su_call (gateway_call (CallSend request) (\<lambda>calls. gw_send gw calls request)) s of
                        (s, Ok (StatusAccepted accepted status)) \<Rightarrow>
                          if status = 1
                          then status_wait session node_id (gw_events gw (su_calls s)) s
                          else (su_release session s, Err (session_rejected ''status'' session status))
                      | (s, Ok response) \<Rightarrow>
                          (su_release session s, Err (UnexpectedReply ''initial status'' response))
                      | (s, Err e) \<Rightarrow> (su_release session s, Err e)
                      | (s, Panic) \<Rightarrow> (s, Panic))))"

section \<open>Initialisation\<close>

record InitializedGateway =
  ig_cache :: VeluxNodeCache
  ig_groups :: "(GroupId, GroupInformation) btree_map"
  ig_session_ids :: SessionIdAllocator

definition group_map :: "GroupInformation list \<Rightarrow> (GroupId, GroupInformation) btree_map" where
  "group_map groups = foldl (\<lambda>m g. btree_insert (gi_group_id g) g m) [] groups"

definition group_members :: "(GroupId, GroupInformation) btree_map \<Rightarrow> NodeId list" where
  "group_members groups =
     btree_set (map NodeId (List.map_filter u8_try_from
       (concat (map (\<lambda>(k, g). ActuatorSet_iter (gi_actuators g)) groups))))"

text \<open>A member of a group that discovery did not find is read on its own; an error is only logged.\<close>

definition recover_member :: "gateway \<Rightarrow> NodeId \<Rightarrow> setup_state \<Rightarrow> setup_state" where
  "recover_member gw node_id s =
     (if btree_get (su_cache s) node_id \<noteq> None then s
      else
        (case su_call (gateway_call (CallNodeInformation node_id)
                (\<lambda>calls. gw_node_information gw calls node_id)) s of
           (s, Ok information) \<Rightarrow>
             s\<lparr>su_cache := fst (apply_response (su_cache s) (NodeInformation information))\<rparr>
         | (s, _) \<Rightarrow> s))"

text \<open>The status of a node is unknown until it has been read; an error is only logged.\<close>

definition initial_status :: "gateway \<Rightarrow> NodeId \<Rightarrow> setup_state \<Rightarrow> setup_state" where
  "initial_status gw node_id s =
     fst (query_initial_status gw node_id
       (s\<lparr>su_cache := fst (update_node (su_cache s) node_id mark_status_unknown)\<rparr>))"

definition controllable_nodes :: "VeluxNodeCache \<Rightarrow> NodeId list" where
  "controllable_nodes cache = map fst (filter (\<lambda>(k, node). is_controllable node) cache)"

text \<open>The two loops of the initialisation, with the subscription to the events between them.\<close>

definition read_nodes ::
  "gateway \<Rightarrow> (GroupId, GroupInformation) btree_map \<Rightarrow> setup_state \<Rightarrow> setup_state"
where
  "read_nodes gw groups s =
     (let s = foldl (\<lambda>s node_id. recover_member gw node_id s) s (group_members groups);
          s = s\<lparr>su_calls := su_calls s @ [CallSubscribe]\<rparr>
      in foldl (\<lambda>s node_id. initial_status gw node_id s) s (controllable_nodes (su_cache s)))"

definition initialize_gateway ::
  "gateway \<Rightarrow> string \<Rightarrow> (calls, bridge_error, InitializedGateway) step"
where
  "initialize_gateway gw password =
     step_then (step_context ''KLF login failed''
       (gateway_call (CallLogin password) (\<lambda>calls. gw_login gw calls password))) (\<lambda>_.
     step_then (step_context ''failed to read KLF version'' (gateway_call CallVersion (gw_version gw))) (\<lambda>_.
     step_then (step_context ''failed to read KLF protocol version''
       (gateway_call CallProtocolVersion (gw_protocol_version gw))) (\<lambda>_.
     step_then (step_context ''failed to disable stale house monitoring''
       (gateway_call (CallSend HouseStatusMonitorDisable)
          (\<lambda>calls. gw_send gw calls HouseStatusMonitorDisable))) (\<lambda>_.
     step_then (step_context ''KLF node discovery failed''
       (gateway_call CallDiscoverNodes (gw_discover_nodes gw))) (\<lambda>information.
     let cache = fst (reconcile [] information)
     in step_then (step_context ''KLF group discovery failed''
          (gateway_call CallDiscoverGroups (gw_discover_groups gw))) (\<lambda>found calls.
        let groups = group_map found;
            s = read_nodes gw groups
                  \<lparr>su_calls = calls, su_cache = cache, su_session_ids = SessionIdAllocator_new\<rparr>
        in step_then (step_context ''failed to enable house monitoring''
             (gateway_call (CallSend HouseStatusMonitorEnable)
                (\<lambda>calls. gw_send gw calls HouseStatusMonitorEnable)))
             (\<lambda>_. step_return (Ok \<lparr>ig_cache = su_cache s, ig_groups = groups,
                ig_session_ids = su_session_ids s\<rparr>)) (su_calls s)))))))"

text \<open>
  The set-up task. Cancelling it before the connection is there ends it; cancelling it later stops the
  initialisation after some of its calls. A connection that is not used is shut down.
\<close>

datatype setup_cancel = NotCancelled | CancelledBeforeConnect | CancelledAfter nat

record PreparedGateway =
  prep_gateway :: gateway
  prep_calls :: calls
  prep_cache :: VeluxNodeCache
  prep_groups :: "(GroupId, GroupInformation) btree_map"
  prep_session_ids :: SessionIdAllocator

definition prepare_gateway ::
  "gateway result \<Rightarrow> setup_cancel \<Rightarrow> string \<Rightarrow> calls \<times> (bridge_error, PreparedGateway) outcome"
where
  "prepare_gateway connection cancel password =
     (if cancel = CancelledBeforeConnect then ([], Err (Bail ''KLF setup cancelled before connecting''))
      else
        (case connection of
           Err e \<Rightarrow> ([], Err (Context ''failed to connect to KLF'' (KlfFailure e)))
         | Panic \<Rightarrow> ([], Panic)
         | Ok gw \<Rightarrow>
             (case (case cancel of
                      CancelledAfter n \<Rightarrow>
                        (take n (fst (initialize_gateway gw password [])), Err (Bail ''KLF setup cancelled''))
                    | _ \<Rightarrow> initialize_gateway gw password []) of
                (calls, Ok initialized) \<Rightarrow>
                  (calls, Ok \<lparr>prep_gateway = gw, prep_calls = calls, prep_cache = ig_cache initialized,
                     prep_groups = ig_groups initialized, prep_session_ids = ig_session_ids initialized\<rparr>)
              | (calls, Err e) \<Rightarrow> (calls @ [CallShutdown False], Err e)
              | (calls, Panic) \<Rightarrow> (calls, Panic))))"

section \<open>The back-off stays between its bounds\<close>

definition backoff_inv :: "ReconnectBackoff \<Rightarrow> bool" where
  "backoff_inv b \<longleftrightarrow> rb_minimum b \<le> rb_current b \<and> rb_current b \<le> rb_maximum b
     \<and> rb_maximum b \<le> DURATION_MAX"

lemma backoff_inv_new: "minimum \<le> maximum \<Longrightarrow> maximum \<le> DURATION_MAX \<Longrightarrow>
    backoff_inv (ReconnectBackoff_new minimum maximum)"
  by (simp add: backoff_inv_def ReconnectBackoff_new_def)

lemma backoff_inv_reset: "backoff_inv b \<Longrightarrow> backoff_inv (backoff_reset b)"
  by (simp add: backoff_inv_def backoff_reset_def)

lemma backoff_inv_next: "backoff_inv b \<Longrightarrow> backoff_inv (fst (next_delay random b))"
  by (auto simp: backoff_inv_def next_delay_def Let_def)

lemma rb_simps [simp]:
  "rb_minimum (fst (next_delay random b)) = rb_minimum b"
  "rb_maximum (fst (next_delay random b)) = rb_maximum b"
  "rb_minimum (backoff_reset b) = rb_minimum b" "rb_maximum (backoff_reset b) = rb_maximum b"
  "rb_current (backoff_reset b) = rb_minimum b"
  by (simp_all add: next_delay_def backoff_reset_def Let_def)

lemma next_delay_current:
  "backoff_inv b \<Longrightarrow> rb_current (fst (next_delay random b)) = min (2 * rb_current b) (rb_maximum b)"
  by (simp add: next_delay_def Let_def backoff_inv_def mult.commute min.assoc min.absorb2)

text \<open>After \<open>k\<close> failures in a row the delay is the doubled minimum, cut at the maximum.\<close>

lemma backoff_after:
  assumes "backoff_inv b" "rb_current b = rb_minimum b" "0 < rb_minimum b"
  shows "rb_current (((\<lambda>b. fst (next_delay random b)) ^^ k) b) = min (2 ^ k * rb_minimum b) (rb_maximum b)
     \<and> backoff_inv (((\<lambda>b. fst (next_delay random b)) ^^ k) b)
     \<and> rb_maximum (((\<lambda>b. fst (next_delay random b)) ^^ k) b) = rb_maximum b"
proof (induction k)
  case 0
  then show ?case using assms by (simp add: backoff_inv_def)
next
  case (Suc k)
  then show ?case by (simp add: next_delay_current backoff_inv_next min_def)
qed

lemma next_delay_bounds:
  assumes "backoff_inv b" "random (rb_current b div 4) \<le> rb_current b div 4"
    "rb_current b div 4 < 2 ^ 64"
  shows "rb_current b \<le> snd (next_delay random b)
    \<and> snd (next_delay random b) \<le> rb_current b + rb_current b div 4"
  using assms by (auto simp: next_delay_def Let_def backoff_inv_def)

section \<open>The contract of a gateway\<close>

text \<open>
  What the set-up relies on: answers are never a panic, what is read is well formed, the information
  of a node is that node's, and the notifications delivered are well formed.
\<close>

locale klf_gateway =
  fixes gw :: gateway
  assumes nodes_wf: "gw_discover_nodes gw calls = Ok infos \<Longrightarrow> list_all node_information_wf infos"
    and node_wf: "gw_node_information gw calls n = Ok info \<Longrightarrow>
      node_information_wf info \<and> ni_node_id info = n"
    and groups_wf: "gw_discover_groups gw calls = Ok found \<Longrightarrow> list_all group_wf found"
    and events_wf: "Received (Notification r) \<in> set (gw_events gw calls) \<Longrightarrow> response_wf r"
    and no_panics: "gw_login gw calls password \<noteq> Panic" "gw_version gw calls \<noteq> Panic"
      "gw_protocol_version gw calls \<noteq> Panic" "gw_discover_nodes gw calls \<noteq> Panic"
      "gw_discover_groups gw calls \<noteq> Panic" "gw_send gw calls request \<noteq> Panic"

text \<open>
  The actor answers with decoded frames or errors. The receiver of its events sees notifications and unexpected
  responses, which are decoded frames, protocol errors, sessions that timed out and the end of the connection;
  it can also lag behind or find the channel closed.
\<close>

definition decoded_answers ::
  "(calls \<Rightarrow> Request \<Rightarrow> (klf_error + Frame) delivery) \<Rightarrow> calls \<Rightarrow> Request \<Rightarrow> Response result delivery"
where
  "decoded_answers answers calls request =
     (case answers calls request of
        ChannelClosed \<Rightarrow> ChannelClosed
      | ReplyDropped \<Rightarrow> ReplyDropped
      | Replied (Inl e) \<Rightarrow> Replied (Err e)
      | Replied (Inr f) \<Rightarrow> Replied (Response_decode f))"

definition frame_event :: "Frame \<Rightarrow> received" where
  "frame_event f =
     (case Response_decode f of
        Ok response \<Rightarrow> Received (Notification response)
      | Err e \<Rightarrow> Received (ProtocolError (KlfError_display e))
      | Panic \<Rightarrow> Closed)"

datatype arrival =
    FrameArrived Frame
  | UnexpectedArrived Frame
  | SessionExpired SessionId
  | ProtocolBroken string
  | ConnectionEnded string
  | ReceiverLagged nat
  | ReceiverClosed

primrec arrival_event :: "arrival \<Rightarrow> received" where
  "arrival_event (FrameArrived f) = frame_event f"
| "arrival_event (UnexpectedArrived f) =
     (case Response_decode f of
        Ok response \<Rightarrow> Received (UnexpectedResponse response)
      | Err e \<Rightarrow> Received (ProtocolError (KlfError_display e))
      | Panic \<Rightarrow> Closed)"
| "arrival_event (SessionExpired session) = Received (SessionTimedOut session)"
| "arrival_event (ProtocolBroken message) = Received (ProtocolError message)"
| "arrival_event (ConnectionEnded message) = Received (Disconnected message)"
| "arrival_event (ReceiverLagged n) = Lagged n"
| "arrival_event ReceiverClosed = Closed"

definition connected_gateway ::
  "(calls \<Rightarrow> Request \<Rightarrow> (klf_error + Frame) delivery) \<Rightarrow> (calls \<Rightarrow> arrival list)
     \<Rightarrow> (calls \<Rightarrow> unit result delivery) \<Rightarrow> gateway"
where
  "connected_gateway answers arrivals stopped =
     Klf200Client_gateway (decoded_answers answers) (\<lambda>calls. map arrival_event (arrivals calls)) stopped"

lemma send_decoded:
  "send_unlocked (decoded_answers answers calls) request \<noteq> Panic"
  "send_unlocked (decoded_answers answers calls) request = Ok r \<Longrightarrow> response_wf r"
  using Response_decode_not_Panic Response_decode_wf
  by (auto simp: send_unlocked_def decoded_answers_def split: delivery.splits sum.splits)

lemma arrival_event_wf: "Received (Notification r) = arrival_event e \<Longrightarrow> response_wf r"
  using Response_decode_wf by (cases e) (auto simp: frame_event_def split: outcome.splits)

text \<open>What the collecting loops return was delivered to them.\<close>

lemma discover_nodes_loop_wf:
  assumes "\<And>r. Received (Notification r) \<in> set events \<Longrightarrow> response_wf r"
    "discover_nodes_loop events nodes = Ok found" "list_all node_information_wf nodes"
  shows "list_all node_information_wf found"
  using assms
proof (induction events arbitrary: nodes)
  case (Cons e events)
  have wf: "response_wf r" if "Received (Notification r) \<in> set events" for r
    using Cons.prems(1) that by simp
  note IH = Cons.IH [OF wf]
  show ?case
  proof (cases e)
    case (Received event)
    show ?thesis
    proof (cases event)
      case (Notification r)
      have "response_wf r" using Cons.prems(1) Received Notification by simp
      then show ?thesis using Cons.prems(2-) IH Received Notification
        by (cases r) (simp_all add: response_wf_def split: if_splits)
    qed (use Cons.prems(2-) IH Received in simp_all)
  qed (use Cons.prems in simp_all)
qed simp

lemma discover_groups_loop_wf:
  assumes "\<And>r. Received (Notification r) \<in> set events \<Longrightarrow> response_wf r"
    "discover_groups_loop events groups = Ok found" "list_all group_wf groups"
  shows "list_all group_wf found"
  using assms
proof (induction events arbitrary: groups)
  case (Cons e events)
  have wf: "response_wf r" if "Received (Notification r) \<in> set events" for r
    using Cons.prems(1) that by simp
  note IH = Cons.IH [OF wf]
  show ?case
  proof (cases e)
    case (Received event)
    show ?thesis
    proof (cases event)
      case (Notification r)
      have "response_wf r" using Cons.prems(1) Received Notification by simp
      then show ?thesis using Cons.prems(2-) IH Received Notification
        by (cases r) (simp_all add: response_wf_def split: if_splits)
    qed (use Cons.prems(2-) IH Received in simp_all)
  qed (use Cons.prems in simp_all)
qed simp

lemma node_information_loop_wf:
  assumes "\<And>r. Received (Notification r) \<in> set events \<Longrightarrow> response_wf r"
    "node_information_loop n events = Ok found"
  shows "node_information_wf found"
  using assms
proof (induction events)
  case (Cons e events)
  have wf: "response_wf r" if "Received (Notification r) \<in> set events" for r
    using Cons.prems(1) that by simp
  note IH = Cons.IH [OF wf]
  show ?case
  proof (cases e)
    case (Received event)
    show ?thesis
    proof (cases event)
      case (Notification r)
      have "response_wf r" using Cons.prems(1) Received Notification by simp
      then show ?thesis using Cons.prems(2-) IH Received Notification
        by (cases r) (simp_all add: response_wf_def split: if_splits)
    qed (use Cons.prems(2-) IH Received in simp_all)
  qed (use Cons.prems in simp_all)
qed simp

lemma discover_nodes_loop_not_Panic: "discover_nodes_loop events nodes \<noteq> Panic"
proof (induction events arbitrary: nodes)
  case (Cons e events)
  show ?case
  proof (cases e)
    case (Received event)
    show ?thesis
    proof (cases event)
      case (Notification r)
      then show ?thesis using Cons Received by (cases r) simp_all
    qed (use Cons Received in simp_all)
  qed simp_all
qed simp

lemma discover_groups_loop_not_Panic: "discover_groups_loop events groups \<noteq> Panic"
proof (induction events arbitrary: groups)
  case (Cons e events)
  show ?case
  proof (cases e)
    case (Received event)
    show ?thesis
    proof (cases event)
      case (Notification r)
      then show ?thesis using Cons Received by (cases r) simp_all
    qed (use Cons Received in simp_all)
  qed simp_all
qed simp

text \<open>A successful operation was accepted by the gateway and went through its loop.\<close>

lemma accepted_operations:
  "discover_nodes actor events = Ok infos \<Longrightarrow> discover_nodes_loop events [] = Ok infos"
  "discover_groups actor events = Ok found \<Longrightarrow> found = [] \<or> discover_groups_loop events [] = Ok found"
  "node_information actor events n = Ok info \<Longrightarrow> node_information_loop n events = Ok info"
proof -
  show "discover_nodes actor events = Ok infos \<Longrightarrow> discover_nodes_loop events [] = Ok infos"
    unfolding discover_nodes_def and_then_eq_Ok_iff
    by (elim exE conjE) (rename_tac r, case_tac r, simp_all split: if_splits)
  show "discover_groups actor events = Ok found \<Longrightarrow> found = [] \<or> discover_groups_loop events [] = Ok found"
    unfolding discover_groups_def and_then_eq_Ok_iff
    by (elim exE conjE) (rename_tac r, case_tac r, simp_all split: if_splits)
  show "node_information actor events n = Ok info \<Longrightarrow> node_information_loop n events = Ok info"
    unfolding node_information_def and_then_eq_Ok_iff
    by (elim exE conjE) (rename_tac r, case_tac r, simp_all split: if_splits)
qed

lemma operations_not_Panic:
  assumes "\<And>request. send_unlocked actor request \<noteq> Panic"
  shows "login actor password \<noteq> Panic" "version actor \<noteq> Panic" "protocol_version actor \<noteq> Panic"
    "discover_nodes actor events \<noteq> Panic" "discover_groups actor events \<noteq> Panic" "send actor request \<noteq> Panic"
proof -
  have password: "password_enter password \<noteq> Panic"
    by (auto simp: password_enter_def encode_fixed_string_def Let_def and_then_eq_Panic_iff)
  show "login actor password \<noteq> Panic"
    unfolding login_def send_def
    by (intro and_then_not_Panic password assms) (rename_tac r, case_tac r, simp_all)
  show "version actor \<noteq> Panic" unfolding version_def send_def
    by (intro and_then_not_Panic assms) (rename_tac r, case_tac r, simp_all)
  show "protocol_version actor \<noteq> Panic" unfolding protocol_version_def send_def
    by (intro and_then_not_Panic assms) (rename_tac r, case_tac r, simp_all)
  show "discover_nodes actor events \<noteq> Panic" unfolding discover_nodes_def
    by (intro and_then_not_Panic assms)
      (rename_tac r, case_tac r, simp_all add: discover_nodes_loop_not_Panic)
  show "discover_groups actor events \<noteq> Panic" unfolding discover_groups_def
    by (intro and_then_not_Panic assms)
      (rename_tac r, case_tac r, simp_all add: discover_groups_loop_not_Panic)
  show "send actor request \<noteq> Panic" by (simp add: send_def assms)
qed

lemmas connected_defs = connected_gateway_def Klf200Client_gateway_def

interpretation connected: klf_gateway "connected_gateway answers arrivals stopped"
  for answers arrivals stopped
proof (unfold_locales, goal_cases)
  case (1 calls infos)
  have "discover_nodes_loop (map arrival_event (arrivals calls)) [] = Ok infos"
    using 1 by (auto simp: connected_defs dest: accepted_operations(1))
  then show ?case by (rule discover_nodes_loop_wf [rotated]) (auto simp: arrival_event_wf)
next
  case (2 calls n info)
  have *: "node_information_loop n (map arrival_event (arrivals calls)) = Ok info"
    using 2 by (auto simp: connected_defs dest: accepted_operations(3))
  then have "node_information_wf info" by (rule node_information_loop_wf [rotated]) (auto simp: arrival_event_wf)
  then show ?case using * node_information_loop_matches by blast
next
  case (3 calls found)
  have "found = [] \<or> discover_groups_loop (map arrival_event (arrivals calls)) [] = Ok found"
    using 3 by (auto simp: connected_defs dest: accepted_operations(2))
  then show ?case
    using discover_groups_loop_wf [of "map arrival_event (arrivals calls)" "[]" found] arrival_event_wf by auto
next
  case (4 r calls)
  then show ?case using arrival_event_wf by (auto simp: connected_defs)
qed (simp_all add: connected_defs operations_not_Panic send_decoded)

section \<open>The set-up keeps its invariant\<close>

definition setup_inv :: "setup_state \<Rightarrow> bool" where
  "setup_inv s \<longleftrightarrow> cache_inv (su_cache s) \<and> allocator_inv (su_session_ids s)"

text \<open>The nodes a cache knows; notifications add to them and never remove one.\<close>

abbreviation known_nodes :: "VeluxNodeCache \<Rightarrow> NodeId set" where
  "known_nodes cache \<equiv> set (btree_keys cache)"

lemma known_nodes_update: "known_nodes (fst (update_node cache k f)) = known_nodes cache"
  by (auto simp: update_node_def split_beta set_btree_insert_keys insert_absorb simp del: set_map
      split: option.splits dest: map_of_SomeD)
    (metis dom_map_of_conv_image_fst domI set_map insert_iff set_btree_insert_keys)+

lemma known_nodes_apply: "known_nodes cache \<subseteq> known_nodes (fst (apply_response cache response))"
  by (cases response)
    (simp_all only: apply_response_def Response.case Let_def fst_conv known_nodes_update
      set_btree_insert_keys subset_insertI order_refl)

lemma setup_inv_apply:
  assumes "setup_inv s" "response_wf response"
  shows "setup_inv (s\<lparr>su_cache := fst (apply_response (su_cache s) response)\<rparr>)"
  using assms apply_response_faithful by (simp add: setup_inv_def faithful_def)

lemma setup_inv_release: "setup_inv s \<Longrightarrow> setup_inv (su_release session s)"
  by (simp add: setup_inv_def su_release_def allocator_inv_ops)

lemma su_release_simps [simp]:
  "su_calls (su_release session s) = su_calls s" "su_cache (su_release session s) = su_cache s"
  by (simp_all add: su_release_def)

lemma release_finished_simps [simp]:
  "su_calls (release_finished response s) = su_calls s"
  "su_cache (release_finished response s) = su_cache s"
  by (simp_all add: release_finished_def split: Response.split)

lemma setup_inv_release_finished: "setup_inv s \<Longrightarrow> setup_inv (release_finished response s)"
  by (cases response) (simp_all add: release_finished_def setup_inv_release)

text \<open>A computation of the set-up that makes no calls, keeps the invariant and forgets no node.\<close>

definition setup_quiet :: "setup_state \<Rightarrow> setup_state \<Rightarrow> bool" where
  "setup_quiet s t \<longleftrightarrow> (setup_inv s \<longrightarrow> setup_inv t) \<and> su_calls t = su_calls s
     \<and> known_nodes (su_cache s) \<subseteq> known_nodes (su_cache t)"

lemma setup_quiet_trans: "setup_quiet s t \<Longrightarrow> setup_quiet t u \<Longrightarrow> setup_quiet s u"
  by (auto simp: setup_quiet_def)

lemma setup_quiet_steps:
  "setup_quiet s s" "setup_quiet s (su_release session s)" "setup_quiet s (release_finished response s)"
  "response_wf response \<Longrightarrow> setup_quiet s (s\<lparr>su_cache := fst (apply_response (su_cache s) response)\<rparr>)"
  by (auto simp: setup_quiet_def setup_inv_release setup_inv_release_finished setup_inv_apply
      simp del: set_map dest: subsetD [OF known_nodes_apply])

lemma status_wait_quiet:
  assumes "\<And>r. Received (Notification r) \<in> set events \<Longrightarrow> response_wf r"
  shows "setup_quiet s (fst (status_wait session n events s))"
  using assms
proof (induction events arbitrary: s)
  case (Cons e events)
  then have IH: "setup_quiet s (fst (status_wait session n events s))" for s by simp
  show ?case
  proof (cases e)
    case (Received event)
    show ?thesis
    proof (cases event)
      case (Notification r)
      let ?t = "release_finished r s"
      let ?u = "?t\<lparr>su_cache := fst (apply_response (su_cache ?t) r)\<rparr>"
      have "response_wf r" using Cons.prems Received Notification by simp
      then have u: "setup_quiet s ?u"
        by (intro setup_quiet_trans [OF setup_quiet_steps(3) setup_quiet_steps(4)])
      show ?thesis unfolding Received Notification status_wait.simps Let_def
        using u setup_quiet_trans [OF u IH [of ?u]]
        by (cases "completes session n r") (simp_all only: if_True if_False fst_conv)
    next
      case (SessionTimedOut expired)
      note t = setup_quiet_steps(2) [of s expired]
      show ?thesis unfolding Received SessionTimedOut status_wait.simps Let_def
        using t setup_quiet_trans [OF t IH] by (cases "expired = session") simp_all
    qed (use IH Received in \<open>simp_all add: setup_quiet_steps(1)\<close>)
  qed (simp_all add: setup_quiet_steps(1))
qed (simp add: setup_quiet_steps)

text \<open>A status request for one node.\<close>

definition status_call :: "NodeId \<Rightarrow> gateway_call \<Rightarrow> bool" where
  "status_call n call \<longleftrightarrow>
     (\<exists>session. call = CallSend (StatusRequest session (CommandTarget [n]) MainInformation))"

lemma CommandTarget_single: "CommandTarget_new [n] = Ok (CommandTarget [n])"
  by (simp add: CommandTarget_new_Ok_iff target_valid_def MAX_TARGETS_def)

text \<open>
  A step of the set-up: it keeps the invariant, forgets no node, and makes calls of a given kind, at
  most one.
\<close>

definition setup_step :: "(gateway_call \<Rightarrow> bool) \<Rightarrow> setup_state \<Rightarrow> setup_state \<Rightarrow> bool" where
  "setup_step P s t \<longleftrightarrow> (setup_inv s \<longrightarrow> setup_inv t)
     \<and> known_nodes (su_cache s) \<subseteq> known_nodes (su_cache t)
     \<and> (su_calls t = su_calls s \<or> (\<exists>call. P call \<and> su_calls t = su_calls s @ [call]))"

lemma setup_step_quiet: "setup_quiet s t \<Longrightarrow> setup_step P s t"
  by (auto simp: setup_step_def setup_quiet_def)

lemma setup_step_then_quiet: "setup_step P s t \<Longrightarrow> setup_quiet t u \<Longrightarrow> setup_step P s u"
  by (auto simp: setup_step_def setup_quiet_def)

lemma setup_quiet_then_step: "setup_quiet s t \<Longrightarrow> setup_step P t u \<Longrightarrow> setup_step P s u"
  by (auto simp: setup_step_def setup_quiet_def)

lemma setup_quiet_allocate: "setup_quiet s (s\<lparr>su_session_ids := fst (allocate (su_session_ids s))\<rparr>)"
  by (simp add: setup_quiet_def setup_inv_def allocator_inv_allocate)

lemma setup_step_call: "P call \<Longrightarrow> setup_step P s (s\<lparr>su_calls := su_calls s @ [call]\<rparr>)"
  by (simp add: setup_step_def setup_inv_def)

lemma setup_step_fold:
  assumes "\<And>x s. x \<in> set xs \<Longrightarrow> setup_step (P x) s (f s x)"
  shows "(setup_inv s \<longrightarrow> setup_inv (foldl f s xs))
    \<and> known_nodes (su_cache s) \<subseteq> known_nodes (su_cache (foldl f s xs))
    \<and> (\<exists>made. su_calls (foldl f s xs) = su_calls s @ made \<and> length made \<le> length xs
         \<and> (\<forall>call \<in> set made. \<exists>x \<in> set xs. P x call))"
  using assms
proof (induction xs arbitrary: s)
  case (Cons x xs)
  have step: "setup_step (P x) s (f s x)" by (rule Cons.prems) simp
  have IH: "(setup_inv (f s x) \<longrightarrow> setup_inv (foldl f (f s x) xs))
    \<and> known_nodes (su_cache (f s x)) \<subseteq> known_nodes (su_cache (foldl f (f s x) xs))
    \<and> (\<exists>made. su_calls (foldl f (f s x) xs) = su_calls (f s x) @ made \<and> length made \<le> length xs
         \<and> (\<forall>call \<in> set made. \<exists>x \<in> set xs. P x call))"
    by (rule Cons.IH) (simp add: Cons.prems)
  then obtain made where made: "su_calls (foldl f (f s x) xs) = su_calls (f s x) @ made"
    "length made \<le> length xs" "\<forall>call \<in> set made. \<exists>x \<in> set xs. P x call" by blast
  from step consider "su_calls (f s x) = su_calls s"
    | call where "P x call" "su_calls (f s x) = su_calls s @ [call]" by (auto simp: setup_step_def)
  then have "\<exists>made. su_calls (foldl f (f s x) xs) = su_calls s @ made \<and> length made \<le> length (x # xs)
         \<and> (\<forall>call \<in> set made. \<exists>y \<in> set (x # xs). P y call)"
  proof cases
    case 1
    then show ?thesis using made by (intro exI [of _ made]) auto
  next
    case (2 call)
    then show ?thesis using made by (intro exI [of _ "call # made"]) auto
  qed
  moreover have "setup_inv s \<longrightarrow> setup_inv (f s x)"
    "known_nodes (su_cache s) \<subseteq> known_nodes (su_cache (f s x))"
    using step unfolding setup_step_def by blast+
  ultimately show ?case using IH unfolding foldl.simps by blast
qed simp

context klf_gateway
begin

lemma query_step: "setup_step (status_call n) s (fst (query_initial_status gw n s))"
proof -
  obtain ids r where al: "allocate (su_session_ids s) = (ids, r)" by (cases "allocate (su_session_ids s)")
  let ?t = "s\<lparr>su_session_ids := ids\<rparr>"
  have t: "setup_quiet s ?t" using setup_quiet_allocate [of s] al by simp
  show ?thesis
  proof (cases r)
    case (Ok session)
    let ?request = "StatusRequest session (CommandTarget [n]) MainInformation"
    let ?u = "?t\<lparr>su_calls := su_calls ?t @ [CallSend ?request]\<rparr>"
    have "status_call n (CallSend ?request)" by (simp add: status_call_def)
    then have u: "setup_step (status_call n) s ?u"
      by (intro setup_quiet_then_step [OF t] setup_step_call)
    have release: "setup_step (status_call n) s (su_release session ?u)"
      by (rule setup_step_then_quiet [OF u setup_quiet_steps(2)])
    have wait: "setup_step (status_call n) s (fst (status_wait session n (gw_events gw (su_calls ?u)) ?u))"
      by (rule setup_step_then_quiet [OF u status_wait_quiet]) (rule events_wf)
    note eq = query_initial_status_def al Ok CommandTarget_single su_call_def gateway_call_def Let_def
    show ?thesis
    proof (cases "gw_send gw (su_calls s) ?request")
      case send: (Ok response)
      show ?thesis using release wait by (cases response) (simp_all add: eq send)
    next
      case (Err e)
      then show ?thesis using release by (simp add: eq)
    next
      case Panic
      then show ?thesis using no_panics(6) by blast
    qed
  qed (use t al in \<open>simp_all add: query_initial_status_def setup_step_quiet\<close>)
qed

lemma initial_status_step: "setup_step (status_call n) s (initial_status gw n s)"
proof -
  have "setup_quiet s (s\<lparr>su_cache := fst (update_node (su_cache s) n mark_status_unknown)\<rparr>)"
    using faithful_update_node [OF _ update_ok_simple(2)]
    by (auto simp: setup_quiet_def setup_inv_def faithful_def known_nodes_update simp del: set_map)
  then show ?thesis unfolding initial_status_def by (rule setup_quiet_then_step [OF _ query_step])
qed

lemma recover_member_step:
  "setup_step (\<lambda>call. call = CallNodeInformation n) s (recover_member gw n s)"
proof (cases "btree_get (su_cache s) n")
  case (Some node)
  then show ?thesis by (simp add: recover_member_def setup_step_quiet setup_quiet_steps)
next
  case None
  let ?P = "\<lambda>call. call = CallNodeInformation n"
  let ?t = "s\<lparr>su_calls := su_calls s @ [CallNodeInformation n]\<rparr>"
  have t: "setup_step ?P s ?t" by (rule setup_step_call) simp
  note eq = recover_member_def None su_call_def gateway_call_def
  show ?thesis
  proof (cases "gw_node_information gw (su_calls s) n")
    case (Ok info)
    then have "response_wf (NodeInformation info)" using node_wf by (simp add: response_wf_def)
    then show ?thesis using setup_step_then_quiet [OF t setup_quiet_steps(4)] Ok by (simp add: eq)
  qed (use t in \<open>simp_all add: eq\<close>)
qed

text \<open>What the loops do between discovery and the switching on of the monitor.\<close>

lemma read_nodes_spec:
  "(setup_inv s \<longrightarrow> setup_inv (read_nodes gw groups s))
   \<and> known_nodes (su_cache s) \<subseteq> known_nodes (su_cache (read_nodes gw groups s))
   \<and> (\<exists>recovered queried. su_calls (read_nodes gw groups s) = su_calls s @ recovered @ [CallSubscribe] @ queried
        \<and> (\<forall>call \<in> set recovered. \<exists>n \<in> set (group_members groups). call = CallNodeInformation n)
        \<and> (\<forall>call \<in> set queried. \<exists>n. status_call n call))"
proof -
  let ?t = "foldl (\<lambda>s node_id. recover_member gw node_id s) s (group_members groups)"
  let ?u = "?t\<lparr>su_calls := su_calls ?t @ [CallSubscribe]\<rparr>"
  have t: "(setup_inv s \<longrightarrow> setup_inv ?t) \<and> known_nodes (su_cache s) \<subseteq> known_nodes (su_cache ?t)
      \<and> (\<exists>made. su_calls ?t = su_calls s @ made \<and> length made \<le> length (group_members groups)
           \<and> (\<forall>call \<in> set made. \<exists>n \<in> set (group_members groups). call = CallNodeInformation n))"
    by (rule setup_step_fold) (rule recover_member_step)
  let ?v = "foldl (\<lambda>s node_id. initial_status gw node_id s) ?u (controllable_nodes (su_cache ?u))"
  have v: "(setup_inv ?u \<longrightarrow> setup_inv ?v) \<and> known_nodes (su_cache ?u) \<subseteq> known_nodes (su_cache ?v)
      \<and> (\<exists>made. su_calls ?v = su_calls ?u @ made \<and> length made \<le> length (controllable_nodes (su_cache ?u))
           \<and> (\<forall>call \<in> set made. \<exists>n \<in> set (controllable_nodes (su_cache ?u)). status_call n call))"
    by (rule setup_step_fold) (rule initial_status_step)
  from t obtain recovered where r: "su_calls ?t = su_calls s @ recovered"
    "\<forall>call \<in> set recovered. \<exists>n \<in> set (group_members groups). call = CallNodeInformation n" by blast
  from v obtain queried where q: "su_calls ?v = su_calls ?u @ queried"
    "\<forall>call \<in> set queried. \<exists>n. status_call n call" by blast
  have "setup_inv ?t \<longleftrightarrow> setup_inv ?u" "su_cache ?u = su_cache ?t" by (simp_all add: setup_inv_def)
  moreover have "read_nodes gw groups s = ?v" by (simp add: read_nodes_def Let_def)
  moreover have "su_calls ?v = su_calls s @ recovered @ [CallSubscribe] @ queried" using r(1) q(1) by simp
  ultimately show ?thesis using t v r(2) q(2) by (simp del: set_map) blast
qed

end

lemma step_then_call:
  "step_then (step_context text (gateway_call call answer)) f calls =
     (case answer calls of
        Ok x \<Rightarrow> f x (calls @ [call])
      | Err e \<Rightarrow> (calls @ [call], Err (Context text (KlfFailure e)))
      | Panic \<Rightarrow> (calls @ [call], Panic))"
  by (cases "answer calls") (simp_all add: step_then_def step_context_def gateway_call_def)

definition setup_prefix :: "string \<Rightarrow> calls" where
  "setup_prefix password =
     [CallLogin password, CallVersion, CallProtocolVersion, CallSend HouseStatusMonitorDisable,
      CallDiscoverNodes, CallDiscoverGroups]"

text \<open>The state after discovery.\<close>

definition discovered :: "string \<Rightarrow> NodeInformation list \<Rightarrow> setup_state" where
  "discovered password infos =
     \<lparr>su_calls = setup_prefix password, su_cache = fst (reconcile [] infos),
      su_session_ids = SessionIdAllocator_new\<rparr>"

lemma su_calls_discovered: "su_calls (discovered password infos) = setup_prefix password"
  by (simp add: discovered_def)

context klf_gateway
begin

lemma initialize_cases:
  obtains (early) k e where "initialize_gateway gw password [] = (take k (setup_prefix password), Err e)"
    | (late) infos found calls where "gw_discover_nodes gw (take 4 (setup_prefix password)) = Ok infos"
      "gw_discover_groups gw (take 5 (setup_prefix password)) = Ok found"
      "calls = su_calls (read_nodes gw (group_map found) (discovered password infos))"
      "initialize_gateway gw password [] =
        (calls @ [CallSend HouseStatusMonitorEnable],
         case gw_send gw calls HouseStatusMonitorEnable of
           Ok _ \<Rightarrow> Ok \<lparr>ig_cache = su_cache (read_nodes gw (group_map found) (discovered password infos)),
              ig_groups = group_map found,
              ig_session_ids = su_session_ids (read_nodes gw (group_map found) (discovered password infos))\<rparr>
         | Err e \<Rightarrow> Err (Context ''failed to enable house monitoring'' (KlfFailure e))
         | Panic \<Rightarrow> Panic)"
proof -
  note eq = initialize_gateway_def step_then_call setup_prefix_def
  consider (1) e where "gw_login gw [] password = Err e"
    | (2) e x where "gw_login gw [] password = Ok x" "gw_version gw (take 1 (setup_prefix password)) = Err e"
    | (3) e x y where "gw_login gw [] password = Ok x" "gw_version gw (take 1 (setup_prefix password)) = Ok y"
      "gw_protocol_version gw (take 2 (setup_prefix password)) = Err e"
    | (ok) x y z where "gw_login gw [] password = Ok x" "gw_version gw (take 1 (setup_prefix password)) = Ok y"
      "gw_protocol_version gw (take 2 (setup_prefix password)) = Ok z"
    using no_panics(1-3) by (metis outcome.exhaust)
  then show thesis
  proof cases
    case 1
    then show ?thesis by (intro early [of 1]) (simp add: eq)
  next
    case 2
    then show ?thesis by (intro early [of 2]) (simp add: eq)
  next
    case 3
    then show ?thesis by (intro early [of 3]) (simp add: eq)
  next
    case ok
    consider (4) e where "gw_send gw (take 3 (setup_prefix password)) HouseStatusMonitorDisable = Err e"
      | (5) e x where "gw_send gw (take 3 (setup_prefix password)) HouseStatusMonitorDisable = Ok x"
        "gw_discover_nodes gw (take 4 (setup_prefix password)) = Err e"
      | (6) e x infos where "gw_send gw (take 3 (setup_prefix password)) HouseStatusMonitorDisable = Ok x"
        "gw_discover_nodes gw (take 4 (setup_prefix password)) = Ok infos"
        "gw_discover_groups gw (take 5 (setup_prefix password)) = Err e"
      | (7) x infos found where "gw_send gw (take 3 (setup_prefix password)) HouseStatusMonitorDisable = Ok x"
        "gw_discover_nodes gw (take 4 (setup_prefix password)) = Ok infos"
        "gw_discover_groups gw (take 5 (setup_prefix password)) = Ok found"
      using no_panics(4-6) by (metis outcome.exhaust)
    then show ?thesis
    proof cases
      case 4
      then show ?thesis using ok by (intro early [of 4]) (simp add: eq)
    next
      case 5
      then show ?thesis using ok by (intro early [of 5]) (simp add: eq Let_def)
    next
      case 6
      then show ?thesis using ok by (intro early [of 6]) (simp add: eq Let_def)
    next
      case (7 x infos found)
      show ?thesis
      proof (rule late [OF 7(2,3) refl], goal_cases)
        case 1
        then show ?case using ok 7
          by (simp add: eq Let_def discovered_def step_return_def split: outcome.split)
      qed
    qed
  qed
qed

text \<open>The initialisation never shuts the gateway down and never panics.\<close>

lemma initialize_calls:
  "CallShutdown reboot \<notin> set (fst (initialize_gateway gw password []))"
  "snd (initialize_gateway gw password []) \<noteq> Panic"
proof -
  have "CallShutdown reboot \<notin> set (fst (initialize_gateway gw password []))
      \<and> snd (initialize_gateway gw password []) \<noteq> Panic"
  proof (cases rule: initialize_cases [of password])
    case (early k e)
    have "CallShutdown reboot \<notin> set (setup_prefix password)" by (simp add: setup_prefix_def)
    then show ?thesis using early by (auto dest: in_set_takeD)
  next
    case (late infos found calls)
    obtain recovered queried where c: "calls = setup_prefix password @ recovered @ [CallSubscribe] @ queried"
      "\<forall>call \<in> set recovered. \<exists>n \<in> set (group_members (group_map found)). call = CallNodeInformation n"
      "\<forall>call \<in> set queried. \<exists>n. status_call n call"
      using read_nodes_spec [of "discovered password infos" "group_map found"] late(3)
      unfolding su_calls_discovered by blast
    then have "CallShutdown reboot \<notin> set calls"
      by (auto simp: setup_prefix_def status_call_def)
    moreover have "gw_send gw calls HouseStatusMonitorEnable \<noteq> Panic" by (rule no_panics)
    ultimately show ?thesis using late(4) by (auto split: outcome.splits)
  qed
  then show "CallShutdown reboot \<notin> set (fst (initialize_gateway gw password []))"
    "snd (initialize_gateway gw password []) \<noteq> Panic" by blast+
qed

text \<open>A finished initialisation.\<close>

lemma initialize_Ok:
  assumes "initialize_gateway gw password [] = (calls, Ok i)"
  obtains infos found recovered queried where
    "gw_discover_nodes gw (take 4 (setup_prefix password)) = Ok infos"
    "gw_discover_groups gw (take 5 (setup_prefix password)) = Ok found"
    "calls = setup_prefix password @ recovered @ [CallSubscribe] @ queried @ [CallSend HouseStatusMonitorEnable]"
    "\<forall>call \<in> set recovered. \<exists>n. call = CallNodeInformation n" "\<forall>call \<in> set queried. \<exists>n. status_call n call"
    "cache_inv (ig_cache i)" "allocator_inv (ig_session_ids i)" "ig_groups i = group_map found"
    "ni_node_id ` set infos \<subseteq> known_nodes (ig_cache i)"
proof (cases rule: initialize_cases [of password])
  case (early k e)
  then show ?thesis using assms by simp
next
  case (late infos found cs)
  let ?s = "discovered password infos"
  let ?t = "read_nodes gw (group_map found) ?s"
  have nodes: "list_all node_information_wf infos" by (rule nodes_wf [OF late(1)])
  have empty: "cache_inv []" by (simp add: cache_inv_def)
  have "setup_inv ?s"
    using reconcile_inv [OF empty nodes] by (simp add: discovered_def setup_inv_def allocator_inv_ops)
  moreover have "ni_node_id ` set infos \<subseteq> known_nodes (su_cache ?s)"
  proof
    fix k assume "k \<in> ni_node_id ` set infos"
    then have "find (\<lambda>i. ni_node_id i = k) (rev infos) \<noteq> None" by (auto simp: find_None_iff)
    then have "btree_get (su_cache ?s) k \<noteq> None"
      using reconcile_get [of "[]" infos k] by (auto simp: discovered_def)
    then show "k \<in> known_nodes (su_cache ?s)" by (simp add: map_of_eq_None_iff)
  qed
  moreover obtain recovered queried where c: "cs = setup_prefix password @ recovered @ [CallSubscribe] @ queried"
      "\<forall>call \<in> set recovered. \<exists>n. call = CallNodeInformation n" "\<forall>call \<in> set queried. \<exists>n. status_call n call"
    using read_nodes_spec [of ?s "group_map found"] late(3) unfolding su_calls_discovered by blast
  moreover have "i = \<lparr>ig_cache = su_cache ?t, ig_groups = group_map found, ig_session_ids = su_session_ids ?t\<rparr>"
      "calls = cs @ [CallSend HouseStatusMonitorEnable]"
    using assms late(4) by (simp_all split: outcome.splits)
  ultimately show ?thesis
    using read_nodes_spec [of ?s "group_map found"]
    by (intro that [OF late(1,2), of recovered queried])
      (simp_all add: setup_inv_def del: set_map, blast)
qed

end

section \<open>Properties\<close>

text \<open>
  C13. The set-up of a connection to a gateway that answers with decoded frames never leaves a
  half-initialised connection open: if it fails or is cancelled after connecting, its last call shuts
  the gateway down; if it succeeds, the stale monitoring was switched off before discovery, every node
  found is in the cache, the monitoring is switched on by the very last call, and nothing was shut down.
\<close>

theorem setup_is_completed_or_undone:
  assumes "gw = connected_gateway answers arrivals stopped" "cancel \<noteq> CancelledBeforeConnect"
    "prepare_gateway (Ok gw) cancel password = (calls, r)"
  shows "case r of
      Ok p \<Rightarrow>
        (\<exists>infos recovered queried.
           calls = [CallLogin password, CallVersion, CallProtocolVersion,
               CallSend HouseStatusMonitorDisable, CallDiscoverNodes, CallDiscoverGroups]
             @ recovered @ [CallSubscribe] @ queried @ [CallSend HouseStatusMonitorEnable]
           \<and> (\<forall>call \<in> set recovered. \<exists>n. call = CallNodeInformation n)
           \<and> (\<forall>call \<in> set queried. \<exists>n. status_call n call)
           \<and> gw_discover_nodes gw (take 4 calls) = Ok infos
           \<and> ni_node_id ` set infos \<subseteq> set (btree_keys (prep_cache p)))
        \<and> prep_calls p = calls \<and> cache_inv (prep_cache p) \<and> allocator_inv (prep_session_ids p)
    | Err e \<Rightarrow> (\<exists>before. calls = before @ [CallShutdown False] \<and> (\<forall>b. CallShutdown b \<notin> set before))
    | Panic \<Rightarrow> False"
proof (cases cancel)
  case NotCancelled
  obtain cs i where init: "initialize_gateway gw password [] = (cs, i)"
    by (cases "initialize_gateway gw password []")
  have calls: "CallShutdown b \<notin> set cs" "i \<noteq> Panic" for b
    using connected.initialize_calls init unfolding assms(1) by (metis fst_conv, metis snd_conv)
  show ?thesis
  proof (cases i)
    case (Ok ig)
    from connected.initialize_Ok [of answers arrivals stopped password cs ig] init Ok assms(1)
    obtain infos found recovered queried where
      "gw_discover_nodes gw (take 4 (setup_prefix password)) = Ok infos"
      "cs = setup_prefix password @ recovered @ [CallSubscribe] @ queried @ [CallSend HouseStatusMonitorEnable]"
      "\<forall>call \<in> set recovered. \<exists>n. call = CallNodeInformation n" "\<forall>call \<in> set queried. \<exists>n. status_call n call"
      "cache_inv (ig_cache ig)" "allocator_inv (ig_session_ids ig)"
      "ni_node_id ` set infos \<subseteq> known_nodes (ig_cache ig)" by metis
    moreover have "r = Ok \<lparr>prep_gateway = gw, prep_calls = cs, prep_cache = ig_cache ig,
        prep_groups = ig_groups ig, prep_session_ids = ig_session_ids ig\<rparr>" "calls = cs"
      using assms(3) init Ok NotCancelled by (auto simp: prepare_gateway_def)
    ultimately show ?thesis by (simp add: setup_prefix_def del: set_map) blast
  qed (use assms(3) init NotCancelled calls in \<open>auto simp: prepare_gateway_def\<close>)
next
  case (CancelledAfter n)
  have "CallShutdown b \<notin> set (take n (fst (initialize_gateway gw password [])))" for b
    using connected.initialize_calls(1) assms(1) by (metis in_set_takeD)
  then show ?thesis using assms(3) CancelledAfter by (auto simp: prepare_gateway_def)
qed (use assms(2) in simp)

text \<open>A gateway whose channel is closed: the login fails and the connection is shut down.\<close>

theorem setup_is_completed_or_undone_witness:
  "\<exists>before. fst (prepare_gateway
       (Ok (connected_gateway (\<lambda>_ _. ChannelClosed) (\<lambda>_. []) (\<lambda>_. ChannelClosed))) NotCancelled ''secret'') =
     before @ [CallShutdown False]"
proof -
  let ?gw = "connected_gateway (\<lambda>_ _. ChannelClosed) (\<lambda>_. []) (\<lambda>_. ChannelClosed)"
  obtain calls r where *: "prepare_gateway (Ok ?gw) NotCancelled ''secret'' = (calls, r)"
    by (cases "prepare_gateway (Ok ?gw) NotCancelled ''secret''")
  have "gw_login ?gw [] ''secret'' = Err ConnectionClosed"
    by (simp add: connected_defs decoded_answers_def login_def send_def send_unlocked_def
        password_enter_def encode_fixed_string_def as_bytes_def)
  then have "r = Err (Context ''KLF login failed'' (KlfFailure ConnectionClosed))"
    using * by (auto simp: prepare_gateway_def initialize_gateway_def step_then_call)
  then show ?thesis
    using setup_is_completed_or_undone [OF refl _ *] * by auto
qed

text \<open>
  C29. The delay before a reconnection is at least the current back-off and at most a quarter of that
  back-off more; the back-off starts at its minimum, doubles with each failure and never exceeds its
  maximum.
\<close>

theorem reconnect_delay_bounds:
  assumes "0 < minimum" "minimum \<le> maximum" "maximum < 2 ^ 64" "\<And>limit :: nat. random limit \<le> limit"
  defines "after \<equiv> \<lambda>k. ((\<lambda>b. fst (next_delay random b)) ^^ k) (ReconnectBackoff_new minimum maximum)"
  shows "rb_current (after k) = min (2 ^ k * minimum) maximum
     \<and> min (2 ^ k * minimum) maximum \<le> snd (next_delay random (after k))
     \<and> snd (next_delay random (after k))
          \<le> min (2 ^ k * minimum) maximum + min (2 ^ k * minimum) maximum div 4"
proof -
  let ?b = "ReconnectBackoff_new minimum maximum"
  have "(2 :: nat) ^ 64 \<le> DURATION_MAX" by (simp add: DURATION_MAX_def)
  then have b: "backoff_inv ?b" using assms(2,3) by (intro backoff_inv_new) simp_all
  have after: "rb_current (after k) = min (2 ^ k * minimum) maximum" "backoff_inv (after k)"
    "rb_maximum (after k) = maximum"
    using backoff_after [OF b, where random = random and k = k] assms(1) by (simp_all add: after_def ReconnectBackoff_new_def)
  then have cur: "rb_current (after k) \<le> maximum" by (simp add: backoff_inv_def)
  then have "rb_current (after k) div 4 < 2 ^ 64" using assms(3) by (meson div_le_dividend le_less_trans)
  from next_delay_bounds [where random = random, OF after(2) assms(4) this] after(1) show ?thesis
    by auto
qed

theorem reconnect_delay_bounds_witness:
  "1000 \<le> snd (next_delay (\<lambda>limit. limit) (ReconnectBackoff_new 1000 60000))
   \<and> snd (next_delay (\<lambda>limit. limit) (ReconnectBackoff_new 1000 60000)) \<le> 1250"
  using reconnect_delay_bounds [where minimum = 1000 and maximum = 60000 and random = "\<lambda>limit. limit" and k = 0] by simp

end
