(* ===== verification/Hass_Discovery.thy ===== *)
theory Hass_Discovery
  imports Mqtt "HOL-Library.Char_ord" "HOL-Library.List_Lexorder"
begin

text \<open>
  Home Assistant discovery (\<open>src/hassdiscovery.rs\<close>): the identifiers of the covers, the description of
  the gateway device with its components, and the publications that announce, migrate and remove them.
  The bytes \<open>serde_json\<close> writes for a description are an argument.
\<close>

section \<open>Data\<close>

definition DEFAULT_DISCOVERY_PREFIX :: string where "DEFAULT_DISCOVERY_PREFIX = ''homeassistant''"

record HomeAssistantDiscovery =
  ha_prefix :: string
  ha_client_id :: string
  ha_known_components :: "string list"

definition HomeAssistantDiscovery_new :: "string \<Rightarrow> HomeAssistantDiscovery" where
  "HomeAssistantDiscovery_new client_id =
     \<lparr>ha_prefix = DEFAULT_DISCOVERY_PREFIX, ha_client_id = client_id, ha_known_components = []\<rparr>"

definition with_prefix :: "string \<Rightarrow> string \<Rightarrow> HomeAssistantDiscovery" where
  "with_prefix client_id discovery_prefix =
     \<lparr>ha_prefix = trim_matches CHR ''/'' discovery_prefix, ha_client_id = client_id,
      ha_known_components = []\<rparr>"

record CoverDiscovery =
  cd_p :: string
  cd_name :: string
  cd_unique_id :: string
  cd_object_id :: string
  cd_command_topic :: string
  cd_state_topic :: "string option"
  cd_position_topic :: "string option"
  cd_payload_open :: string
  cd_payload_close :: string
  cd_state_open :: "string option"
  cd_state_opening :: "string option"
  cd_state_closed :: "string option"
  cd_state_closing :: "string option"
  cd_position_open :: "u8 option"
  cd_position_closed :: "u8 option"
  cd_optimistic :: bool
  cd_qos :: u8
  cd_retain :: bool
  cd_device_class :: string

definition CoverDiscovery_new ::
  "string \<Rightarrow> string \<Rightarrow> string \<Rightarrow> string \<Rightarrow> bool \<Rightarrow> CoverDiscovery"
where
  "CoverDiscovery_new name unique_id command_topic device_class optimistic =
     \<lparr>cd_p = ''cover'', cd_name = name, cd_unique_id = unique_id, cd_object_id = unique_id,
      cd_command_topic = command_topic, cd_state_topic = None, cd_position_topic = None,
      cd_payload_open = ''OPEN'', cd_payload_close = ''CLOSE'', cd_state_open = None,
      cd_state_opening = None, cd_state_closed = None, cd_state_closing = None,
      cd_position_open = None, cd_position_closed = None, cd_optimistic = optimistic, cd_qos = 1,
      cd_retain = False, cd_device_class = device_class\<rparr>"

record Device =
  dv_identifiers :: "string list"
  dv_name :: string
  dv_manufacturer :: string
  dv_model :: string

record Origin =
  or_name :: string
  or_sw_version :: string
  or_support_url :: string

record DeviceDiscovery =
  dd_device :: Device
  dd_origin :: Origin
  dd_availability_topic :: string
  dd_payload_available :: string
  dd_payload_not_available :: string
  dd_cmps :: "(string, CoverDiscovery) btree_map"

section \<open>Identifiers\<close>

text \<open>The loop of \<open>topic_identifier\<close> over the characters, then the removal of trailing separators.\<close>

definition topic_identifier_step :: "string \<times> bool \<Rightarrow> char \<Rightarrow> string \<times> bool" where
  "topic_identifier_step acc character =
     (case acc of (identifier, last_was_separator) \<Rightarrow>
        if is_ascii_alphanumeric character then (identifier @ [to_ascii_lowercase character], False)
        else if \<not> last_was_separator \<and> identifier \<noteq> [] then (identifier @ ''_'', True)
        else (identifier, last_was_separator))"

definition topic_identifier :: "string \<Rightarrow> string" where
  "topic_identifier value =
     (let identifier = fst (foldl topic_identifier_step ([], False) value);
          identifier = rev (dropWhile (\<lambda>c. c = CHR ''_'') (rev identifier))
      in if identifier = [] then ''velux2mqtt'' else identifier)"

definition unique_id :: "HomeAssistantDiscovery \<Rightarrow> VeluxNode \<Rightarrow> string" where
  "unique_id discovery node =
     (if list_ex (\<lambda>byte. byte \<noteq> 0) (vn_serial_number node)
      then ''velux_'' @ serial_number_hex node
      else topic_identifier (ha_client_id discovery) @ ''_node_''
             @ nat_display (unat (node_id_get (vn_id node))))"

definition cover_topic :: "HomeAssistantDiscovery \<Rightarrow> string \<Rightarrow> string" where
  "cover_topic discovery uid = ha_prefix discovery @ ''/cover/'' @ uid @ ''/config''"

definition discovery_topic :: "HomeAssistantDiscovery \<Rightarrow> VeluxNode \<Rightarrow> string" where
  "discovery_topic discovery node = cover_topic discovery (unique_id discovery node)"

definition group_unique_id :: "HomeAssistantDiscovery \<Rightarrow> GroupInformation \<Rightarrow> string" where
  "group_unique_id discovery g =
     topic_identifier (ha_client_id discovery) @ ''_group_''
       @ nat_display (unat (group_id_get (gi_group_id g)))"

definition group_topic :: "HomeAssistantDiscovery \<Rightarrow> GroupInformation \<Rightarrow> string" where
  "group_topic discovery g = cover_topic discovery (group_unique_id discovery g)"

definition device_identifier :: "HomeAssistantDiscovery \<Rightarrow> string" where
  "device_identifier discovery = topic_identifier (ha_client_id discovery) @ ''_gateway''"

definition device_topic :: "HomeAssistantDiscovery \<Rightarrow> string" where
  "device_topic discovery = ha_prefix discovery @ ''/device/'' @ device_identifier discovery @ ''/config''"

definition device_class :: "ActuatorType \<Rightarrow> string" where
  "device_class actuator_type =
     (if actuator_type \<in> {Awning, HorizontalAwning} then ''awning''
      else if actuator_type = CurtainTrack then ''curtain''
      else if actuator_type = GarageOpener then ''garage''
      else if actuator_type = GateOpener then ''gate''
      else if actuator_type = WindowOpener then ''window''
      else if actuator_type \<in> {RollerShutter, RollingDoorOpener, Blind, SwingingShutter} then ''shutter''
      else ''blind'')"

section \<open>Publications\<close>

text \<open>The description of a node, of a group, and of all of them in a map by identifier.\<close>

definition node_component :: "TopicLayout \<Rightarrow> HomeAssistantDiscovery \<Rightarrow> VeluxNode \<Rightarrow> CoverDiscovery" where
  "node_component topics discovery node =
     (CoverDiscovery_new (vn_name node) (unique_id discovery node) (node_command topics (vn_id node))
        (device_class (vn_actuator_type node)) False)
     \<lparr>cd_state_topic := Some (node_state topics (vn_id node)),
      cd_position_topic := Some (node_position topics (vn_id node)),
      cd_state_open := Some ''open'', cd_state_opening := Some ''opening'',
      cd_state_closed := Some ''closed'', cd_state_closing := Some ''closing'',
      cd_position_open := Some 100, cd_position_closed := Some 0\<rparr>"

definition group_component ::
  "TopicLayout \<Rightarrow> HomeAssistantDiscovery \<Rightarrow> GroupInformation \<Rightarrow> CoverDiscovery"
where
  "group_component topics discovery g =
     (let name = (if trim (gi_name g) = []
                  then ''VELUX group '' @ nat_display (unat (group_id_get (gi_group_id g)))
                  else gi_name g)
      in CoverDiscovery_new name (group_unique_id discovery g)
           (group_command topics (gi_group_id g)) ''blind'' True)"

definition components ::
  "TopicLayout \<Rightarrow> HomeAssistantDiscovery \<Rightarrow> VeluxNode list \<Rightarrow> GroupInformation list
     \<Rightarrow> (string, CoverDiscovery) btree_map"
where
  "components topics discovery nodes groups =
     foldl (\<lambda>m g. btree_insert (group_unique_id discovery g) (group_component topics discovery g) m)
       (foldl (\<lambda>m node. btree_insert (unique_id discovery node) (node_component topics discovery node) m)
          [] (filter is_controllable nodes)) groups"

definition ORIGIN :: Origin where
  "ORIGIN = \<lparr>or_name = ''velux2mqtt'', or_sw_version = ''0.1.0'',
      or_support_url = ''https://github.com/dirkvdb/velux2mqtt''\<rparr>"

definition device_discovery ::
  "TopicLayout \<Rightarrow> HomeAssistantDiscovery \<Rightarrow> (string, CoverDiscovery) btree_map \<Rightarrow> DeviceDiscovery"
where
  "device_discovery topics discovery cmps =
     \<lparr>dd_device = \<lparr>dv_identifiers = [device_identifier discovery],
         dv_name = ''VELUX KLF 200 '' @ ha_client_id discovery, dv_manufacturer = ''VELUX'',
         dv_model = ''KLF 200''\<rparr>,
      dd_origin = ORIGIN, dd_availability_topic = topic_state topics,
      dd_payload_available = ''online'', dd_payload_not_available = ''offline'', dd_cmps = cmps\<rparr>"

text \<open>
  The JSON text of a description, and of a description in which the components of a list of removed
  identifiers are replaced by the object that names only their platform.
\<close>

record serde_device =
  device_to_vec :: "DeviceDiscovery \<Rightarrow> (string, u8 list) outcome"
  removal_to_string :: "DeviceDiscovery \<Rightarrow> string list \<Rightarrow> (string, u8 list) outcome"

primrec serialization_result :: "(string, 'a) outcome \<Rightarrow> (MqttError, 'a) outcome" where
  "serialization_result (Ok v) = Ok v"
| "serialization_result (Err message) = Err (Serialization message)"
| "serialization_result Panic = Panic"

definition MIGRATE :: string where "MIGRATE = ''{\"migrate_discovery\":true}''"

definition publications ::
  "serde_device \<Rightarrow> HomeAssistantDiscovery \<Rightarrow> TopicLayout \<Rightarrow> VeluxNode list \<Rightarrow> GroupInformation list
     \<Rightarrow> HomeAssistantDiscovery \<times> (MqttError, MqttPublication list) outcome"
where
  "publications serde discovery topics nodes groups =
     (let cmps = components topics discovery nodes groups;
          legacy_topics = map (cover_topic discovery) (btree_keys cmps);
          description = device_discovery topics discovery cmps;
          current_components = btree_keys cmps;
          removed = filter (\<lambda>k. k \<notin> set current_components) (ha_known_components discovery);
          r = and_then
                (if cmps = [] then Ok [] else serialization_result (device_to_vec serde description))
                (\<lambda>payload.
              and_then
                (if removed \<noteq> [] \<and> cmps \<noteq> [] then
                   map_ok (\<lambda>removal. [retained (device_topic discovery) removal])
                     (serialization_result (removal_to_string serde description removed))
                 else Ok [])
                (\<lambda>removal.
              Ok (map (\<lambda>topic. retained topic (as_bytes MIGRATE)) legacy_topics
                  @ removal @ [retained (device_topic discovery) payload]
                  @ map clear legacy_topics)))
      in (case r of Ok _ \<Rightarrow> discovery\<lparr>ha_known_components := current_components\<rparr> | _ \<Rightarrow> discovery, r))"

definition clear_publication :: "HomeAssistantDiscovery \<Rightarrow> VeluxNode \<Rightarrow> MqttPublication option" where
  "clear_publication discovery node =
     (if is_controllable node then Some (clear (discovery_topic discovery node)) else None)"

definition clear_group_publication :: "HomeAssistantDiscovery \<Rightarrow> GroupInformation \<Rightarrow> MqttPublication" where
  "clear_group_publication discovery g = clear (group_topic discovery g)"

section \<open>Identifiers of client and topic\<close>

definition identifier_char :: "char \<Rightarrow> bool" where
  "identifier_char c \<longleftrightarrow> c = CHR ''_'' \<or> is_ascii_digit c \<or> (let n = of_char c :: nat in 97 \<le> n \<and> n \<le> 122)"

lemma identifier_char_lowercase: "is_ascii_alphanumeric c \<Longrightarrow> identifier_char (to_ascii_lowercase c)"
  by (auto simp: is_ascii_alphanumeric_def identifier_char_def to_ascii_lowercase_def
      is_ascii_digit_def Let_def)

lemma identifier_char_separator: "identifier_char CHR ''_''"
  by (simp add: identifier_char_def)

lemma topic_identifier_step_chars:
  "list_all identifier_char (fst acc) \<Longrightarrow> list_all identifier_char (fst (topic_identifier_step acc c))"
  using identifier_char_lowercase [of c] identifier_char_separator
  by (cases acc) (auto simp: topic_identifier_step_def)

lemma topic_identifier_loop_chars:
  "list_all identifier_char (fst acc) \<Longrightarrow>
     list_all identifier_char (fst (foldl topic_identifier_step acc cs))"
  by (induction cs arbitrary: acc) (simp_all add: topic_identifier_step_chars)

lemma topic_identifier_chars:
  "topic_identifier value \<noteq> []" "list_all identifier_char (topic_identifier value)"
proof -
  let ?i = "fst (foldl topic_identifier_step ([], False) value)"
  have "list_all identifier_char ?i" by (rule topic_identifier_loop_chars) simp
  then have "list_all identifier_char (rev (dropWhile (\<lambda>c. c = CHR ''_'') (rev ?i)))"
    by (auto simp: list_all_iff dest: set_dropWhileD)
  moreover have "list_all identifier_char ''velux2mqtt''"
    by (simp add: identifier_char_def is_ascii_digit_def)
  ultimately show "list_all identifier_char (topic_identifier value)"
    unfolding topic_identifier_def Let_def by presburger
qed (simp add: topic_identifier_def Let_def)

lemma rsegment_cancel:
  assumes "sep \<notin> set x" "sep \<notin> set y"
  shows "a @ sep # x = b @ sep # y \<longleftrightarrow> a = b \<and> x = y"
proof -
  have "a @ sep # x = b @ sep # y \<longleftrightarrow> rev x @ sep # rev a = rev y @ sep # rev b"
    by (metis append.assoc append_Cons append_Nil rev.simps(2) rev_append rev_rev_ident)
  also have "\<dots> \<longleftrightarrow> a = b \<and> x = y" using assms by (auto simp: segment_cancel)
  finally show ?thesis .
qed

section \<open>Serial numbers\<close>

definition hex_byte :: "u8 \<Rightarrow> string" where
  "hex_byte b = [HEX ! unat (drop_bit 4 b), HEX ! unat (b AND 0x0F)]"

lemma nibble_less: "unat (drop_bit 4 (b :: u8)) < 16" "unat (b AND 0x0F) < 16"
proof -
  have "unat (drop_bit 4 b) = unat b div 16"
    by (simp only: unat_drop_bit_eq) (simp add: drop_bit_eq_div)
  then show "unat (drop_bit 4 b) < 16" using unat_u8_less [of b] by linarith
  have "b AND 0x0F \<le> 0x0F" by (rule word_and_le1)
  then show "unat (b AND 0x0F) < 16" by (simp add: word_le_nat_alt)
qed

lemma HEX_nth_iff: "i < 16 \<Longrightarrow> j < 16 \<Longrightarrow> HEX ! i = HEX ! j \<longleftrightarrow> i = j"
  by (rule nth_eq_iff_index_eq) (simp_all add: HEX_def)

lemma hex_byte_inj: "hex_byte a = hex_byte b \<longleftrightarrow> a = b"
proof
  assume "hex_byte a = hex_byte b"
  then have "drop_bit 4 a = drop_bit 4 b" "a AND 0x0F = b AND 0x0F"
    by (simp_all add: hex_byte_def HEX_nth_iff nibble_less word_unat_eq_iff)
  moreover have "x AND 0x0F = take_bit 4 x" for x :: u8 by (simp add: take_bit_eq_mask mask_numeral)
  ultimately show "a = b" by (metis bits_ident)
qed simp

lemma serial_number_hex_eq: "serial_number_hex node = concat (map hex_byte (vn_serial_number node))"
  by (simp add: serial_number_hex_def hex_byte_def [abs_def])

lemma hex_bytes_inj: "concat (map hex_byte xs) = concat (map hex_byte ys) \<longleftrightarrow> xs = ys"
proof (induction xs arbitrary: ys)
  case Nil
  show ?case by (cases ys) (simp_all add: hex_byte_def)
next
  case (Cons x xs)
  show ?case
  proof (cases ys)
    case Nil
    then show ?thesis by (simp add: hex_byte_def)
  next
    case (Cons y zs)
    have "length (hex_byte x) = length (hex_byte y)" by (simp add: hex_byte_def)
    then show ?thesis using Cons Cons.IH by (simp add: hex_byte_inj)
  qed
qed

lemma HEX_no_separator: "i < 16 \<Longrightarrow> HEX ! i \<noteq> CHR ''_''"
  using nth_mem [of i HEX] by (auto simp: HEX_def)

lemma hex_no_separator: "CHR ''_'' \<notin> set (serial_number_hex node)"
  using HEX_no_separator nibble_less
  by (auto simp: serial_number_hex_eq hex_byte_def) metis+

lemma digits_no_separator: "CHR ''_'' \<notin> set (nat_display n)"
  using nat_display_digits [of "CHR ''_''" n] by (auto simp: is_ascii_digit_def)

section \<open>Unique identifiers\<close>

text \<open>Whether a node is known by its serial number.\<close>

definition has_serial :: "VeluxNode \<Rightarrow> bool" where
  "has_serial node \<longleftrightarrow> list_ex (\<lambda>byte. byte \<noteq> 0) (vn_serial_number node)"

lemma unique_id_forms:
  "has_serial node \<Longrightarrow> unique_id d node = ''velux'' @ CHR ''_'' # serial_number_hex node"
  "\<not> has_serial node \<Longrightarrow> unique_id d node =
     (topic_identifier (ha_client_id d) @ ''_node'') @ CHR ''_'' # nat_display (unat (node_id_get (vn_id node)))"
  "group_unique_id d g =
     (topic_identifier (ha_client_id d) @ ''_group'') @ CHR ''_'' # nat_display (unat (group_id_get (gi_group_id g)))"
  by (simp_all add: unique_id_def has_serial_def group_unique_id_def)

lemmas last_segment = rsegment_cancel [OF hex_no_separator hex_no_separator]
  rsegment_cancel [OF hex_no_separator digits_no_separator]
  rsegment_cancel [OF digits_no_separator hex_no_separator]
  rsegment_cancel [OF digits_no_separator digits_no_separator]

lemma suffix_not_velux: "xs @ ''_node'' \<noteq> ''velux''" "xs @ ''_group'' \<noteq> ''velux''"
  "''velux'' \<noteq> xs @ ''_node''" "''velux'' \<noteq> xs @ ''_group''"
  by (auto dest: arg_cong [where f = rev])

lemma serial_number_hex_iff:
  "serial_number_hex a = serial_number_hex b \<longleftrightarrow> vn_serial_number a = vn_serial_number b"
  by (simp only: serial_number_hex_eq hex_bytes_inj)

lemma unique_id_iff:
  "unique_id d a = unique_id d b \<longleftrightarrow>
     (if has_serial a \<and> has_serial b then vn_serial_number a = vn_serial_number b
      else \<not> has_serial a \<and> \<not> has_serial b \<and> vn_id a = vn_id b)"
  by (cases "has_serial a"; cases "has_serial b"; cases "vn_id a"; cases "vn_id b")
    (simp_all only: unique_id_forms last_segment suffix_not_velux serial_number_hex_iff
      nat_display_u8_iff simp_thms if_True if_False NodeId.sel NodeId.inject)

lemma group_unique_id_iff: "group_unique_id d g = group_unique_id d h \<longleftrightarrow> gi_group_id g = gi_group_id h"
  by (cases "gi_group_id g"; cases "gi_group_id h")
    (simp only: unique_id_forms last_segment nat_display_u8_iff simp_thms GroupId.sel GroupId.inject)

lemma unique_id_not_group: "unique_id d node \<noteq> group_unique_id d g"
proof (cases "has_serial node")
  case True
  then show ?thesis by (simp only: unique_id_forms last_segment suffix_not_velux) simp
next
  case False
  then show ?thesis by (simp only: unique_id_forms last_segment not_False_eq_True) simp
qed

section \<open>The announced components\<close>

text \<open>The map of components collects the descriptions of the controllable nodes and of the groups.\<close>

definition described ::
  "TopicLayout \<Rightarrow> HomeAssistantDiscovery \<Rightarrow> VeluxNode list \<Rightarrow> GroupInformation list \<Rightarrow> CoverDiscovery list"
where
  "described topics d nodes groups =
     map (node_component topics d) (filter is_controllable nodes) @ map (group_component topics d) groups"

lemma component_ids [simp]:
  "cd_unique_id (node_component topics d node) = unique_id d node"
  "cd_unique_id (group_component topics d g) = group_unique_id d g"
  by (simp_all add: node_component_def group_component_def CoverDiscovery_new_def Let_def)

lemma component_topics [simp]:
  "cd_command_topic (node_component topics d node) = node_command topics (vn_id node)"
  "cd_command_topic (group_component topics d g) = group_command topics (gi_group_id g)"
  "cd_payload_open (node_component topics d node) = ''OPEN''"
  "cd_payload_close (node_component topics d node) = ''CLOSE''"
  "cd_payload_open (group_component topics d g) = ''OPEN''"
  "cd_payload_close (group_component topics d g) = ''CLOSE''"
  by (simp_all add: node_component_def group_component_def CoverDiscovery_new_def Let_def)

lemma components_eq:
  "components topics d nodes groups = bt.put_all cd_unique_id (described topics d nodes groups) []"
  by (simp add: components_def described_def bt.put_all_def foldl_map)

lemma components_wf: "btree_wf (components topics d nodes groups)"
  unfolding components_eq by (rule bt.inv_put_all) simp

lemma components_keys:
  "set (btree_keys (components topics d nodes groups)) =
     unique_id d ` {node \<in> set nodes. is_controllable node} \<union> group_unique_id d ` set groups"
  unfolding components_eq
  by (subst bt.keys_put_all) (auto simp: described_def image_Un image_image)

text \<open>Nodes are told apart by their identifiers and by the serial numbers they have.\<close>

definition apart :: "VeluxNode list \<Rightarrow> GroupInformation list \<Rightarrow> bool" where
  "apart nodes groups \<longleftrightarrow>
     distinct (map vn_id nodes) \<and> distinct (map gi_group_id groups)
     \<and> distinct (map vn_serial_number (filter (\<lambda>node. is_controllable node \<and> has_serial node) nodes))"

lemma distinct_unique_ids:
  assumes "distinct (map vn_id nodes)"
    "distinct (map vn_serial_number (filter (\<lambda>node. is_controllable node \<and> has_serial node) nodes))"
  shows "distinct (map (unique_id d) (filter is_controllable nodes))"
  using assms
proof (induction nodes)
  case (Cons node nodes)
  have "unique_id d node \<notin> unique_id d ` {m \<in> set nodes. is_controllable m}" if "is_controllable node"
    using Cons.prems that by (auto simp: unique_id_iff split: if_splits)
  moreover have "distinct (map (unique_id d) (filter is_controllable nodes))"
    using Cons by (cases "is_controllable node \<and> has_serial node") auto
  ultimately show ?case by auto
qed simp

lemma distinct_described:
  assumes "apart nodes groups"
  shows "distinct (map cd_unique_id (described topics d nodes groups))"
proof -
  have "distinct (map (group_unique_id d) groups)"
    using assms by (auto simp: apart_def distinct_map inj_on_def group_unique_id_iff)
  then show ?thesis
    using assms distinct_unique_ids [of nodes d] unique_id_not_group [of d]
    by (auto simp: described_def apart_def comp_def)
qed

lemma find_key_distinct:
  "distinct (map key vs) \<Longrightarrow> find (\<lambda>v. key v = k) vs = Some v \<longleftrightarrow> v \<in> set vs \<and> key v = k"
  by (induction vs) auto

lemma components_get_iff:
  assumes "apart nodes groups"
  shows "btree_get (components topics d nodes groups) uid = Some c \<longleftrightarrow>
     c \<in> set (described topics d nodes groups) \<and> cd_unique_id c = uid"
proof -
  have "distinct (map cd_unique_id (rev (described topics d nodes groups)))"
    using distinct_described [OF assms] by (simp add: rev_map [symmetric])
  moreover have "btree_get (components topics d nodes groups) uid =
      find (\<lambda>c. cd_unique_id c = uid) (rev (described topics d nodes groups))"
    unfolding components_eq by (simp add: bt.lookup_put_all split: option.split)
  ultimately show ?thesis using find_key_distinct by force
qed

text \<open>What Home Assistant sends for a component reaches the node or group the component describes.\<close>

lemma OPEN_CLOSE_actions:
  "node_action (trim ''OPEN'') = Ok OpenAction" "node_action (trim ''CLOSE'') = Ok CloseAction"
  "group_action (trim ''OPEN'') = Ok GroupOpen" "group_action (trim ''CLOSE'') = Ok GroupClose"
proof -
  have "trim ''OPEN'' = ''OPEN''" "trim ''CLOSE'' = ''CLOSE''"
    by (simp_all add: trim_def whitespace_def trim_leading.simps)
  then show "node_action (trim ''OPEN'') = Ok OpenAction" "node_action (trim ''CLOSE'') = Ok CloseAction"
    "group_action (trim ''OPEN'') = Ok GroupOpen" "group_action (trim ''CLOSE'') = Ok GroupClose"
    by (simp_all add: node_action_def group_action_def eq_ignore_ascii_case_def to_ascii_lowercase_def
        char_of_def bit_0)
qed

lemma parse_own_topics:
  assumes "node_action (trim payload) = Ok action"
  shows "parse_command topics \<lparr>im_topic = node_command topics n, im_payload = payload, im_retained = False\<rparr> =
     Ok (NodeCmd \<lparr>nc_node = n, nc_action = action\<rparr>)"
  using assms by (simp add: parse_own_node_topic)

lemma parse_own_group_topic:
  assumes "group_action (trim payload) = Ok action"
  shows "parse_command topics \<lparr>im_topic = group_command topics g, im_payload = payload, im_retained = False\<rparr> =
     Ok (GroupCmd \<lparr>gc_group = g, gc_action = action\<rparr>)"
  using assms by (auto simp: parse_command_group_iff group_command_def group_root_def)

section \<open>The retained discovery messages\<close>

lemma publications_Ok:
  assumes "publications serde d topics nodes groups = (d', Ok ps)"
  defines "cmps \<equiv> components topics d nodes groups"
  obtains payload removal where
    "ps = map (\<lambda>uid. retained (cover_topic d uid) (as_bytes MIGRATE)) (btree_keys cmps) @ removal
       @ [retained (device_topic d) payload] @ map clear (map (cover_topic d) (btree_keys cmps))"
    "if cmps = [] then payload = []
     else serialization_result (device_to_vec serde (device_discovery topics d cmps)) = Ok payload"
    "\<And>p. p \<in> set removal \<Longrightarrow> mp_topic p = device_topic d \<and> mp_retained p"
    "d' = d\<lparr>ha_known_components := btree_keys cmps\<rparr>"
  using assms
  by (fastforce simp: publications_def Let_def and_then_eq_Ok_iff map_ok_eq_Ok_iff comp_def
      split: outcome.splits if_splits)

lemma cover_topic_not_device: "cover_topic d uid \<noteq> device_topic d"
  by (simp add: cover_topic_def device_topic_def)

section \<open>Properties\<close>

text \<open>
  C27. The announced components are exactly the controllable nodes and the groups, each under its own
  identifier, and the words Home Assistant is told to send on the command topic of a component are
  read back as the commands for that node or group.
\<close>

theorem discovery_describes_every_cover:
  assumes "apart nodes groups"
  shows "(\<forall>uid c. btree_get (components topics d nodes groups) uid = Some c \<longleftrightarrow>
        (\<exists>node \<in> set nodes. is_controllable node \<and> uid = unique_id d node \<and> c = node_component topics d node)
        \<or> (\<exists>g \<in> set groups. uid = group_unique_id d g \<and> c = group_component topics d g))
     \<and> (\<forall>node payload action. (payload, action) \<in>
          {(cd_payload_open (node_component topics d node), OpenAction),
           (cd_payload_close (node_component topics d node), CloseAction)} \<longrightarrow>
          parse_command topics \<lparr>im_topic = cd_command_topic (node_component topics d node),
            im_payload = payload, im_retained = False\<rparr> =
          Ok (NodeCmd \<lparr>nc_node = vn_id node, nc_action = action\<rparr>))
     \<and> (\<forall>g payload action. (payload, action) \<in>
          {(cd_payload_open (group_component topics d g), GroupOpen),
           (cd_payload_close (group_component topics d g), GroupClose)} \<longrightarrow>
          parse_command topics \<lparr>im_topic = cd_command_topic (group_component topics d g),
            im_payload = payload, im_retained = False\<rparr> =
          Ok (GroupCmd \<lparr>gc_group = gi_group_id g, gc_action = action\<rparr>))"
proof (intro conjI)
  show "\<forall>uid c. btree_get (components topics d nodes groups) uid = Some c \<longleftrightarrow>
        (\<exists>node \<in> set nodes. is_controllable node \<and> uid = unique_id d node \<and> c = node_component topics d node)
        \<or> (\<exists>g \<in> set groups. uid = group_unique_id d g \<and> c = group_component topics d g)"
    by (auto simp: components_get_iff [OF assms] described_def)
qed (auto simp: parse_own_topics parse_own_group_topic OPEN_CLOSE_actions)

theorem discovery_describes_every_cover_witness:
  "btree_get (components \<lparr>tl_base = ''velux''\<rparr> (HomeAssistantDiscovery_new ''v'') [example_node] [])
      (unique_id (HomeAssistantDiscovery_new ''v'') example_node) =
     Some (node_component \<lparr>tl_base = ''velux''\<rparr> (HomeAssistantDiscovery_new ''v'') example_node)"
proof -
  have "apart [example_node] []" by (simp add: apart_def)
  moreover have "is_controllable example_node" by (simp add: is_controllable_def example_node_def)
  ultimately show ?thesis using discovery_describes_every_cover [of "[example_node]" "[]"] by simp
qed

text \<open>
  When the publications of a discovery have been taken in order by the broker, the device topic
  holds the description of all current components (or nothing, if there are none), the topics of the
  older discovery are empty, every other retained topic is as before, and the components remembered
  for the next discovery are the current ones.
\<close>

theorem discovery_messages_retained:
  assumes "publications serde d topics nodes groups = (d', Ok ps)"
  defines "cmps \<equiv> components topics d nodes groups"
  shows "retain_all ps store (device_topic d) =
        (if cmps = [] then None
         else (case device_to_vec serde (device_discovery topics d cmps) of
                 Ok payload \<Rightarrow> if payload = [] then None else Some payload | _ \<Rightarrow> None))
     \<and> (\<forall>uid \<in> set (btree_keys cmps). retain_all ps store (cover_topic d uid) = None)
     \<and> (\<forall>topic. topic \<noteq> device_topic d \<and> topic \<notin> cover_topic d ` set (btree_keys cmps) \<longrightarrow>
          retain_all ps store topic = store topic)
     \<and> set (ha_known_components d') =
        unique_id d ` {node \<in> set nodes. is_controllable node} \<union> group_unique_id d ` set groups"
proof -
  obtain payload removal where
    ps: "ps = map (\<lambda>uid. retained (cover_topic d uid) (as_bytes MIGRATE)) (btree_keys cmps) @ removal
       @ [retained (device_topic d) payload] @ map clear (map (cover_topic d) (btree_keys cmps))" and
    payload: "if cmps = [] then payload = []
     else serialization_result (device_to_vec serde (device_discovery topics d cmps)) = Ok payload" and
    removal: "\<And>p. p \<in> set removal \<Longrightarrow> mp_topic p = device_topic d \<and> mp_retained p" and
    d': "d' = d\<lparr>ha_known_components := btree_keys cmps\<rparr>"
    using assms(1) unfolding cmps_def by (rule publications_Ok) blast
  let ?migrate = "map (\<lambda>uid. retained (cover_topic d uid) (as_bytes MIGRATE)) (btree_keys cmps)"
  have before: "retain_all removal (retain_all ?migrate store) topic = store topic"
    if "topic \<noteq> device_topic d" "topic \<notin> cover_topic d ` set (btree_keys cmps)" for topic
  proof -
    have "topic \<notin> set (map mp_topic (?migrate @ removal))" using removal that by auto
    from retain_all_other [OF this] show ?thesis by simp
  qed
  have "retain_all ps store topic =
      (if topic \<in> cover_topic d ` set (btree_keys cmps) then None
       else if topic = device_topic d then (if payload = [] then None else Some payload)
       else store topic)" for topic
    using before unfolding ps by (auto simp: retain_all_clear simp del: map_map)
  moreover have "(case device_to_vec serde (device_discovery topics d cmps) of
      Ok payload \<Rightarrow> if payload = [] then None else Some payload | _ \<Rightarrow> None) =
      (if payload = [] then None else Some payload)" if "cmps \<noteq> []"
    using payload that by (cases "device_to_vec serde (device_discovery topics d cmps)") auto
  ultimately show ?thesis
    using payload d' components_keys [of topics d nodes groups] cover_topic_not_device [of d, symmetric]
    by (auto simp: cmps_def)
qed

text \<open>A discovery that finds one node, with a fixed text for its description.\<close>

definition example_serde :: serde_device where
  "example_serde = \<lparr>device_to_vec = (\<lambda>_. Ok [123, 125]), removal_to_string = (\<lambda>_ _. Ok [123, 125])\<rparr>"

theorem discovery_messages_retained_witness:
  "\<exists>d' ps. publications example_serde (HomeAssistantDiscovery_new ''v'') \<lparr>tl_base = ''velux''\<rparr>
        [example_node] [] = (d', Ok ps)
     \<and> retain_all ps (\<lambda>_. None) (device_topic (HomeAssistantDiscovery_new ''v'')) = Some [123, 125]"
proof -
  let ?d = "HomeAssistantDiscovery_new ''v''" and ?t = "\<lparr>tl_base = ''velux''\<rparr>"
  have cmps: "components ?t ?d [example_node] [] \<noteq> []"
    by (simp add: components_def is_controllable_def example_node_def)
  have known: "ha_known_components ?d = []" by (simp add: HomeAssistantDiscovery_new_def)
  then obtain d' ps where *: "publications example_serde ?d ?t [example_node] [] = (d', Ok ps)"
    using cmps by (auto simp: publications_def example_serde_def Let_def)
  show ?thesis using discovery_messages_retained [OF *, of "\<lambda>_. None"] cmps *
    by (simp add: example_serde_def)
qed

end
