(* ===== verification/Bridge.thy ===== *)
theory Bridge
  imports Gateway_Setup Hass_Discovery
begin

text \<open>
  The bridge between the gateway and MQTT (\<open>src/bridge.rs\<close>): its configuration and state, the
  publications it makes, the commands it executes, the notifications it follows, and the loop that
  selects between them. A handler takes the state of the bridge to the next one; the publications
  handed to the MQTT client and the calls of the gateway are kept in the state in their order.
\<close>

section \<open>Configuration\<close>

definition DEFAULT_STATUS_REFRESH :: nat where "DEFAULT_STATUS_REFRESH = 300000"

record VeluxMqttBridgeConfig =
  bc_klf :: Klf200Config
  bc_klf_password :: string
  bc_mqtt :: MqttConfig
  bc_hass_discovery :: bool
  bc_reboot_on_shutdown :: bool
  bc_reboot_reconnect_delay :: nat
  bc_heartbeat_interval :: nat
  bc_status_refresh_interval :: nat
  bc_status_response_timeout :: nat
  bc_reconnect_min_delay :: nat
  bc_reconnect_max_delay :: nat

definition VeluxMqttBridgeConfig_new :: "Klf200Config \<Rightarrow> string \<Rightarrow> MqttConfig \<Rightarrow> VeluxMqttBridgeConfig" where
  "VeluxMqttBridgeConfig_new klf klf_password mqtt =
     \<lparr>bc_klf = klf, bc_klf_password = klf_password, bc_mqtt = mqtt, bc_hass_discovery = False,
      bc_reboot_on_shutdown = False, bc_reboot_reconnect_delay = 30000, bc_heartbeat_interval = 30000,
      bc_status_refresh_interval = DEFAULT_STATUS_REFRESH,
      bc_status_response_timeout = request_timeout (kc_connection klf),
      bc_reconnect_min_delay = 1000, bc_reconnect_max_delay = 60000\<rparr>"

definition VeluxMqttBridgeConfig_validate ::
  "VeluxMqttBridgeConfig \<Rightarrow> VeluxMqttBridgeConfig \<times> (bridge_error, unit) outcome"
where
  "VeluxMqttBridgeConfig_validate config =
     (let config = config\<lparr>bc_klf := (bc_klf config)\<lparr>kc_host := trim (kc_host (bc_klf config))\<rparr>\<rparr>
      in if kc_host (bc_klf config) = [] then (config, Err (Bail ''KLF host cannot be empty''))
         else if bc_klf_password config = [] then (config, Err (Bail ''KLF password cannot be empty''))
         else
           let (mqtt, r) = MqttConfig_validate (bc_mqtt config); config = config\<lparr>bc_mqtt := mqtt\<rparr>
           in (config,
               and_then (map_err MqttFailure r) (\<lambda>_.
                 if bc_reboot_reconnect_delay config = 0 \<or> bc_heartbeat_interval config = 0
                    \<or> bc_status_refresh_interval config = 0 \<or> bc_status_response_timeout config = 0
                    \<or> bc_reconnect_min_delay config = 0
                    \<or> bc_reconnect_max_delay config < bc_reconnect_min_delay config
                 then Err (Bail (''bridge intervals must be non-zero and reconnect maximum must not be ''
                             @ ''below its minimum''))
                 else Ok ())))"

section \<open>State\<close>

text \<open>
  The answers of the environment during a handler: the MQTT client, the serialisers, the clock and the
  random numbers of the back-off. \<open>w_room\<close> is the number of free places in the request channel of the MQTT
  client when the handler starts; the event loop of the client, which empties the channel, is not polled
  before the handler ends. Logging is not part of the model.
\<close>

record world =
  w_publish :: publish_bytes
  w_room :: nat
  w_to_vec :: to_vec
  w_serde :: serde_device
  w_now :: nat
  w_random :: "nat \<Rightarrow> nat"

text \<open>
  \<open>br_events\<close> and \<open>br_setup\<close> say whether there is a receiver of events and a running set-up task;
  \<open>br_mqtt\<close> holds the publications so far and \<open>br_calls\<close> the calls of the current gateway.
\<close>

record bridge =
  br_config :: VeluxMqttBridgeConfig
  br_topics :: TopicLayout
  br_discovery :: "HomeAssistantDiscovery option"
  br_gateway :: "gateway option"
  br_events :: bool
  br_setup :: bool
  br_cache :: VeluxNodeCache
  br_groups :: "(GroupId, GroupInformation) btree_map"
  br_session_ids :: SessionIdAllocator
  br_mqtt_connected :: bool
  br_next_reconnect :: nat
  br_reconnect :: ReconnectBackoff
  br_mqtt :: mqtt_trace
  br_calls :: calls

type_synonym 'a bridge_step = "(bridge, bridge_error, 'a) step"

definition VeluxMqttBridge_new ::
  "(string \<Rightarrow> (string, u8 list) outcome) \<Rightarrow> nat \<Rightarrow> VeluxMqttBridgeConfig
     \<Rightarrow> (bridge_error, bridge \<times> MqttOptions \<times> TopicLayout) outcome"
where
  "VeluxMqttBridge_new read_file now config =
     (let (config, r) = VeluxMqttBridgeConfig_validate config
      in and_then r (\<lambda>_.
         and_then (map_err MqttFailure (TopicLayout_new (mc_base_topic (bc_mqtt config)))) (\<lambda>topics.
         and_then (map_err MqttFailure (MqttConnection_new read_file (bc_mqtt config))) (\<lambda>mqtt.
         Ok (\<lparr>br_config = config, br_topics = topics,
              br_discovery =
                (if bc_hass_discovery config
                 then Some (HomeAssistantDiscovery_new (mc_client_id (bc_mqtt config))) else None),
              br_gateway = None, br_events = False, br_setup = False, br_cache = [], br_groups = [],
              br_session_ids = SessionIdAllocator_new, br_mqtt_connected = False,
              br_next_reconnect = now,
              br_reconnect =
                ReconnectBackoff_new (bc_reconnect_min_delay config) (bc_reconnect_max_delay config),
              br_mqtt = [], br_calls = []\<rparr>, mqtt)))))"

section \<open>Publishing\<close>

text \<open>
  What the methods below publish is appended to \<open>br_mqtt\<close>. They describe a handler whose publications find room
  in the request channel: one that finds the channel full never gets to its end, and \<open>publishing_blocks\<close> is true
  of its states before and after. The run of the bridge (\<open>Bridge_Run\<close>) stops there.
\<close>

definition queued :: "bridge \<Rightarrow> bridge \<Rightarrow> nat" where
  "queued b b' = length (filter (\<lambda>q. snd q = None) (drop (length (br_mqtt b)) (br_mqtt b')))"

definition publishing_blocks :: "world \<Rightarrow> bridge \<Rightarrow> bridge \<Rightarrow> bool" where
  "publishing_blocks w b b' \<longleftrightarrow> w_room w < queued b b'"

definition br_publish :: "world \<Rightarrow> MqttPublication \<Rightarrow> unit bridge_step" where
  "br_publish w p = (\<lambda>b.
     (case publish (w_publish w) (br_mqtt b) p of (trace, r) \<Rightarrow>
        (b\<lparr>br_mqtt := trace\<rparr>, map_err MqttFailure r)))"

definition br_publish_all :: "world \<Rightarrow> MqttPublication list \<Rightarrow> unit bridge_step" where
  "br_publish_all w ps = (\<lambda>b.
     (case publish_all (w_publish w) (br_mqtt b) ps of (trace, r) \<Rightarrow>
        (b\<lparr>br_mqtt := trace\<rparr>, map_err MqttFailure r)))"

text \<open>Publishing what a serialiser produced, and the question mark operator on its errors.\<close>

definition publish_result :: "world \<Rightarrow> (MqttError, MqttPublication) outcome \<Rightarrow> unit bridge_step" where
  "publish_result w r = step_then (step_return (map_err MqttFailure r)) (br_publish w)"

definition publish_results :: "world \<Rightarrow> (MqttError, MqttPublication list) outcome \<Rightarrow> unit bridge_step" where
  "publish_results w r = step_then (step_return (map_err MqttFailure r)) (br_publish_all w)"

definition publish_group_inventory :: "world \<Rightarrow> unit bridge_step" where
  "publish_group_inventory w = (\<lambda>b.
     publish_result w (groups_publication (w_to_vec w) (br_topics b) (map snd (br_groups b))) b)"

definition publish_node_inventory :: "world \<Rightarrow> unit bridge_step" where
  "publish_node_inventory w = (\<lambda>b.
     publish_result w (inventory_publication (w_to_vec w) (br_topics b) (br_cache b)) b)"

definition publish_group_info :: "world \<Rightarrow> GroupInformation \<Rightarrow> unit bridge_step" where
  "publish_group_info w g = (\<lambda>b. publish_result w (group_info_publication (w_to_vec w) (br_topics b) g) b)"

text \<open>The discovery is kept only when its publications have been queued.\<close>

definition publish_hass_discovery :: "world \<Rightarrow> unit bridge_step" where
  "publish_hass_discovery w = (\<lambda>b.
     (case br_discovery b of
        None \<Rightarrow> (b, Ok ())
      | Some discovery \<Rightarrow>
          if \<not> br_mqtt_connected b then (b, Ok ())
          else
            (case publications (w_serde w) discovery (br_topics b) (map snd (br_cache b))
                    (map snd (br_groups b)) of
               (discovery', r) \<Rightarrow>
                 step_then (publish_results w r)
                   (\<lambda>_ b. (b\<lparr>br_discovery := Some discovery'\<rparr>, Ok ())) b)))"

definition node_not_present :: "NodeId \<Rightarrow> bridge_error" where
  "node_not_present node_id =
     Bail (''node '' @ nat_display (unat (node_id_get node_id)) @ '' is not present'')"

definition publish_node_info :: "world \<Rightarrow> NodeId \<Rightarrow> unit bridge_step" where
  "publish_node_info w node_id = (\<lambda>b.
     if \<not> br_mqtt_connected b then (b, Ok ())
     else
       (case btree_get (br_cache b) node_id of
          None \<Rightarrow> (b, Err (node_not_present node_id))
        | Some node \<Rightarrow> publish_result w (info_publication (w_to_vec w) (br_topics b) node) b))"

definition publish_node_status :: "world \<Rightarrow> NodeId \<Rightarrow> unit bridge_step" where
  "publish_node_status w node_id = (\<lambda>b.
     if \<not> br_mqtt_connected b then (b, Ok ())
     else
       (case btree_get (br_cache b) node_id of
          None \<Rightarrow> (b, Err (node_not_present node_id))
        | Some node \<Rightarrow> publish_results w (status_publications (w_to_vec w) (br_topics b) node) b))"

definition publish_snapshot_node :: "world \<Rightarrow> VeluxNode \<Rightarrow> unit bridge_step" where
  "publish_snapshot_node w node =
     step_then (\<lambda>b. publish_result w (info_publication (w_to_vec w) (br_topics b) node) b) (\<lambda>_ b.
       if is_controllable node
       then publish_results w (status_publications (w_to_vec w) (br_topics b) node) b
       else (b, Ok ()))"

definition publish_complete_snapshot :: "world \<Rightarrow> unit bridge_step" where
  "publish_complete_snapshot w =
     step_then (\<lambda>b. br_publish w (availability_publication (br_topics b) False) b) (\<lambda>_.
     step_then (publish_node_inventory w) (\<lambda>_.
     step_then (publish_group_inventory w) (\<lambda>_.
     step_then (\<lambda>b. step_for_each (publish_snapshot_node w) (map snd (br_cache b)) b) (\<lambda>_.
     step_then (\<lambda>b. step_for_each (publish_group_info w) (map snd (br_groups b)) b) (\<lambda>_.
     step_then (publish_hass_discovery w) (\<lambda>_ b.
       br_publish w (availability_publication (br_topics b) True) b))))))"

definition clear_removed_node :: "world \<Rightarrow> VeluxNode \<Rightarrow> unit bridge_step" where
  "clear_removed_node w node =
     step_then (\<lambda>b. br_publish_all w (clear_node_publications (br_topics b) (vn_id node)) b) (\<lambda>_ b.
       (case Option.bind (br_discovery b) (\<lambda>d. clear_publication d node) of
          Some p \<Rightarrow> br_publish w p b
        | None \<Rightarrow> (b, Ok ())))"

definition clear_removed_nodes :: "world \<Rightarrow> VeluxNode list \<Rightarrow> unit bridge_step" where
  "clear_removed_nodes w removed = step_for_each (clear_removed_node w) removed"

definition clear_removed_group :: "world \<Rightarrow> GroupInformation \<Rightarrow> unit bridge_step" where
  "clear_removed_group w g =
     step_then (\<lambda>b. br_publish_all w (clear_group_publications (br_topics b) (gi_group_id g)) b) (\<lambda>_ b.
       (case br_discovery b of
          Some d \<Rightarrow> br_publish w (clear_group_publication d g) b
        | None \<Rightarrow> (b, Ok ())))"

definition clear_removed_groups :: "world \<Rightarrow> GroupInformation list \<Rightarrow> unit bridge_step" where
  "clear_removed_groups w removed = step_for_each (clear_removed_group w) removed"

text \<open>An error of this publication is only logged.\<close>

definition publish_availability :: "world \<Rightarrow> bool \<Rightarrow> bridge \<Rightarrow> bridge" where
  "publish_availability w online b =
     (if br_mqtt_connected b then fst (br_publish w (availability_publication (br_topics b) online) b) else b)"

text \<open>An error of a handler that is only logged.\<close>

definition logged :: "'a bridge_step \<Rightarrow> bridge \<Rightarrow> bridge" where
  "logged m b = fst (m b)"

section \<open>Calls of the gateway\<close>

definition br_gateway_result :: "bridge \<Rightarrow> (bridge_error, gateway) outcome" where
  "br_gateway_result b =
     (case br_gateway b of Some gw \<Rightarrow> Ok gw | None \<Rightarrow> Err (Bail ''KLF gateway is offline''))"

definition br_call :: "gateway_call \<Rightarrow> (calls \<Rightarrow> 'a result) \<Rightarrow> 'a bridge_step" where
  "br_call call answer = (\<lambda>b.
     (b\<lparr>br_calls := br_calls b @ [call]\<rparr>, map_err KlfFailure (answer (br_calls b))))"

definition br_send :: "gateway \<Rightarrow> Request \<Rightarrow> Response bridge_step" where
  "br_send gw request = br_call (CallSend request) (\<lambda>calls. gw_send gw calls request)"

definition br_allocate :: "SessionId bridge_step" where
  "br_allocate = (\<lambda>b.
     (case allocate (br_session_ids b) of (ids, r) \<Rightarrow> (b\<lparr>br_session_ids := ids\<rparr>, map_err KlfFailure r)))"

definition br_release :: "SessionId \<Rightarrow> bridge \<Rightarrow> bridge" where
  "br_release session b = b\<lparr>br_session_ids := fst (release (br_session_ids b) session)\<rparr>"

text \<open>
  The last instant: an \<open>Instant\<close> of the standard library counts seconds in 64 bits, signed, and its addition
  panics beyond. Instants are milliseconds here. The handlers that compute the time of the next reconnection
  (\<open>gateway_failed\<close>, \<open>execute_gateway_reboot\<close> and \<open>handle_setup_result\<close>, each at most once) keep the sum as it
  is; \<open>instant_overflows\<close> tells that its computation panicked, and the run of the bridge (\<open>Bridge_Run\<close>) ends
  with that panic.
\<close>

definition INSTANT_MAX :: nat where
  "INSTANT_MAX = 1000 * 2 ^ 63 - 1"

definition instant_overflows :: "bridge \<Rightarrow> bool" where
  "instant_overflows b \<longleftrightarrow> INSTANT_MAX < br_next_reconnect b"

definition gateway_failed :: "world \<Rightarrow> bridge \<Rightarrow> bridge" where
  "gateway_failed w b =
     (if br_gateway b = None then b
      else
        let (backoff, delay) = next_delay (w_random w) (br_reconnect b);
            b = b\<lparr>br_gateway := None, br_events := False,
                  br_cache := fst (set_all_available (br_cache b) False),
                  br_session_ids := SessionIdAllocator_new, br_reconnect := backoff,
                  br_next_reconnect := w_now w + delay\<rparr>
        in publish_availability w False b)"

text \<open>The confirmations the callers match on.\<close>

definition status_accepted :: "Response \<Rightarrow> u8 option" where
  "status_accepted response = (case response of StatusAccepted _ status \<Rightarrow> Some status | _ \<Rightarrow> None)"

definition command_accepted :: "Response \<Rightarrow> u8 option" where
  "command_accepted response = (case response of CommandAccepted _ status \<Rightarrow> Some status | _ \<Rightarrow> None)"

definition product_group_result :: "Response \<Rightarrow> ProductGroupResult option" where
  "product_group_result response = (case response of ProductGroupResult result \<Rightarrow> Some result | _ \<Rightarrow> None)"

text \<open>
  Sends a request that holds a session, and gives the session back unless the answer is accepted. The
  three callers differ in the answers they accept.
\<close>

definition request_status :: "NodeId \<Rightarrow> unit bridge_step" where
  "request_status node_id =
     step_then br_allocate (\<lambda>session.
     step_then (step_return (map_err KlfFailure (CommandTarget_new [node_id]))) (\<lambda>target.
     step_then (\<lambda>b. (b, br_gateway_result b)) (\<lambda>gw b.
       (case br_send gw (StatusRequest session target MainInformation) b of
          (b, Ok response) \<Rightarrow>
            (case status_accepted response of
               Some status \<Rightarrow>
                 if status = 1 then (b, Ok ())
                 else (br_release session b, Err (session_rejected ''status'' session status))
             | None \<Rightarrow> (br_release session b, Err (UnexpectedReply ''status'' response)))
        | (b, Err e) \<Rightarrow> (br_release session b, Err e)
        | (b, Panic) \<Rightarrow> (b, Panic)))))"

section \<open>Commands\<close>

definition execute_cover_command :: "world \<Rightarrow> NodeId \<Rightarrow> CoverAction \<Rightarrow> unit bridge_step" where
  "execute_cover_command w node_id action b =
     (case btree_get (br_cache b) node_id of
        None \<Rightarrow> (b, Err (node_not_present node_id))
      | Some node \<Rightarrow>
          (case resolve_action node action of
             Err (PositionUnknown _) \<Rightarrow>
               step_then (request_status node_id) (\<lambda>_ b.
                 (b, Err (Bail (''node '' @ nat_display (unat (node_id_get node_id))
                        @ '' position is unknown; requested a fresh status'')))) b
           | Err e \<Rightarrow> (b, Err (NodeFailure e))
           | Panic \<Rightarrow> (b, Panic)
           | Ok endpoint \<Rightarrow>
               step_then br_allocate (\<lambda>session b.
                 (case command_request node session action of
                    Err e \<Rightarrow> (br_release session b, Err (NodeFailure e))
                  | Panic \<Rightarrow> (b, Panic)
                  | Ok request \<Rightarrow>
                      (case br_gateway_result b of
                         Err e \<Rightarrow> (br_release session b, Err e)
                       | Panic \<Rightarrow> (b, Panic)
                       | Ok gw \<Rightarrow>
                           (case br_send gw request b of
                              (b, Ok response) \<Rightarrow>
                                (case command_accepted response of
                                   Some status \<Rightarrow>
                                     if status = 1 then
                                       publish_node_status w node_id
                                         (b\<lparr>br_cache := fst (update_node (br_cache b) node_id
                                            (\<lambda>node. apply_command_confirmation node response
                                               session endpoint))\<rparr>)
                                     else (br_release session b,
                                           Err (session_rejected ''command'' session status))
                                 | None \<Rightarrow>
                                     (br_release session b, Err (UnexpectedReply ''command'' response)))
                            | (b, Err e) \<Rightarrow> (br_release session b, Err e)
                            | (b, Panic) \<Rightarrow> (b, Panic))))) b))"

definition group_request :: "SessionId \<Rightarrow> GroupInformation \<Rightarrow> GroupId \<Rightarrow> GroupAction \<Rightarrow> Request" where
  "group_request session g group_id action =
     SceneContact (ActivateProductGroup
       \<lparr>pg_session_id = session, pg_command_originator = 1, pg_priority_level = 3,
        pg_product_group_id = group_id_get group_id, pg_parameter_id = 0,
        pg_position = Relative (case action of GroupOpen \<Rightarrow> FULLY_OPEN | GroupClose \<Rightarrow> FULLY_CLOSED),
        pg_velocity = gi_velocity g, pg_priority_level_lock = False,
        pg_priority_level_settings = replicate 8 3, pg_lock_time = 0\<rparr>)"

definition execute_group_command :: "GroupId \<Rightarrow> GroupAction \<Rightarrow> unit bridge_step" where
  "execute_group_command group_id action b =
     (case btree_get (br_groups b) group_id of
        None \<Rightarrow>
          (b, Err (Bail (''group '' @ nat_display (unat (group_id_get group_id)) @ '' is not present'')))
      | Some g \<Rightarrow>
          step_then br_allocate (\<lambda>session b.
            (case br_gateway_result b of
               Err e \<Rightarrow> (br_release session b, Err e)
             | Panic \<Rightarrow> (b, Panic)
             | Ok gw \<Rightarrow>
                 (case br_send gw (group_request session g group_id action) b of
                    (b, Ok response) \<Rightarrow>
                      (case product_group_result response of
                         Some result \<Rightarrow>
                           if pgr_session_id result = session \<and> pgr_status result = 0 then (b, Ok ())
                           else (br_release session b,
                                 Err (session_rejected ''product-group'' session (pgr_status result)))
                       | None \<Rightarrow>
                           (br_release session b, Err (UnexpectedReply ''product-group'' response)))
                  | (b, Err e) \<Rightarrow> (br_release session b, Err e)
                  | (b, Panic) \<Rightarrow> (b, Panic)))) b)"

definition execute_gateway_reboot :: "world \<Rightarrow> unit bridge_step" where
  "execute_gateway_reboot w =
     step_then (\<lambda>b. (b, br_gateway_result b)) (\<lambda>gw b.
       (case br_call (CallShutdown True) (\<lambda>calls. gw_shutdown gw calls True) b of
          (b, reboot_result) \<Rightarrow>
            (let b = b\<lparr>br_gateway := None, br_events := False,
                   br_cache := fst (set_all_available (br_cache b) False),
                   br_session_ids := SessionIdAllocator_new,
                   br_reconnect := backoff_reset (br_reconnect b),
                   br_next_reconnect := w_now w + bc_reboot_reconnect_delay (br_config b)\<rparr>;
                 b = publish_availability w False b
             in (b, map_err (Context ''KLF monitor-disable/reboot sequence failed'') reboot_result))))"

definition handle_mqtt_message :: "world \<Rightarrow> IncomingMessage \<Rightarrow> bridge \<Rightarrow> bridge" where
  "handle_mqtt_message w message b =
     (case parse_command (br_topics b) message of
        Ok command \<Rightarrow>
          if br_gateway b = None then b
          else
            (case command of
               NodeCmd c \<Rightarrow> logged (execute_cover_command w (nc_node c) (nc_action c)) b
             | GroupCmd c \<Rightarrow> logged (execute_group_command (gc_group c) (gc_action c)) b
             | GatewayReboot \<Rightarrow> logged (execute_gateway_reboot w) b)
      | _ \<Rightarrow> b)"

definition handle_mqtt_result :: "world \<Rightarrow> (MqttError, MqttEvent) outcome \<Rightarrow> bridge \<Rightarrow> bridge" where
  "handle_mqtt_result w result b =
     (case result of
        Ok Connected \<Rightarrow>
          (let b = b\<lparr>br_mqtt_connected := True\<rparr>
           in if br_gateway b \<noteq> None then logged (publish_complete_snapshot w) b
              else publish_availability w False b)
      | Ok (Message message) \<Rightarrow> handle_mqtt_message w message b
      | Err _ \<Rightarrow> b\<lparr>br_mqtt_connected := False\<rparr>
      | Panic \<Rightarrow> b)"

section \<open>Notifications\<close>

datatype group_update = GroupSet GroupInformation | GroupGone GroupId | GroupUnchanged

definition group_update_of :: "(GroupId, GroupInformation) btree_map \<Rightarrow> Response \<Rightarrow> group_update" where
  "group_update_of groups response =
     (case response of
        GroupInformation notification \<Rightarrow> GroupSet (gin_information notification)
      | GroupChange change \<Rightarrow>
          if gc_change_type change = 1 then
            (case gc_information change of Some information \<Rightarrow> GroupSet information | None \<Rightarrow> GroupUnchanged)
          else if gc_change_type change = 0 then
            (if btree_get groups (gc_group_id change) = None then GroupUnchanged
             else GroupGone (gc_group_id change))
          else GroupUnchanged
      | GroupDeleted group_id \<Rightarrow>
          if btree_get groups group_id = None then GroupUnchanged else GroupGone group_id
      | _ \<Rightarrow> GroupUnchanged)"

definition apply_group_response :: "world \<Rightarrow> Response \<Rightarrow> unit bridge_step" where
  "apply_group_response w response b =
     (case group_update_of (br_groups b) response of
        GroupSet g \<Rightarrow>
          (let b = b\<lparr>br_groups := btree_insert (gi_group_id g) g (br_groups b)\<rparr>
           in if br_mqtt_connected b then
                step_then (publish_group_inventory w) (\<lambda>_.
                step_then (publish_group_info w g) (\<lambda>_. publish_hass_discovery w)) b
              else (b, Ok ()))
      | GroupGone group_id \<Rightarrow>
          (case btree_get (br_groups b) group_id of
             None \<Rightarrow> (b, Ok ())
           | Some g \<Rightarrow>
               (let b = b\<lparr>br_groups := btree_remove group_id (br_groups b)\<rparr>
                in if br_mqtt_connected b then
                     step_then (publish_group_inventory w) (\<lambda>_.
                     step_then (clear_removed_groups w [g]) (\<lambda>_. publish_hass_discovery w)) b
                   else (b, Ok ())))
      | GroupUnchanged \<Rightarrow> (b, Ok ()))"

definition node_added :: "VeluxNodeCache \<Rightarrow> Response \<Rightarrow> bool" where
  "node_added cache response \<longleftrightarrow>
     (case response of
        NodeInformation information \<Rightarrow> btree_get cache (ni_node_id information) = None
      | _ \<Rightarrow> False)"

definition metadata_changed :: "Response \<Rightarrow> bool" where
  "metadata_changed response \<longleftrightarrow>
     (case response of NodeInformation _ \<Rightarrow> True | NodeInformationChanged _ \<Rightarrow> True | _ \<Rightarrow> False)"

definition br_release_finished :: "Response \<Rightarrow> bridge \<Rightarrow> bridge" where
  "br_release_finished response b =
     (case response of SessionFinished session \<Rightarrow> br_release session b | _ \<Rightarrow> b)"

definition handle_response :: "world \<Rightarrow> Response \<Rightarrow> bridge \<Rightarrow> bridge" where
  "handle_response w response b =
     (let b = br_release_finished response b;
          b = logged (apply_group_response w response) b;
          added = node_added (br_cache b) response;
          changed = metadata_changed response;
          (cache, updated) = apply_response (br_cache b) response;
          b = b\<lparr>br_cache := cache\<rparr>
      in case updated of
           None \<Rightarrow> b
         | Some node_id \<Rightarrow>
             let b = (if added \<and> br_mqtt_connected b then logged (publish_node_inventory w) b else b);
                 b = (if changed then logged (publish_node_info w node_id) b else b);
                 b = (if changed then logged (publish_hass_discovery w) b else b)
             in (case btree_get (br_cache b) node_id of
                   Some node \<Rightarrow>
                     if is_controllable node then logged (publish_node_status w node_id) b else b
                 | None \<Rightarrow> b))"

fun handle_gateway_event :: "world \<Rightarrow> received \<Rightarrow> bridge \<Rightarrow> bridge" where
  "handle_gateway_event w (Received (Notification response)) b = handle_response w response b"
| "handle_gateway_event w (Received (UnexpectedResponse response)) b = b"
| "handle_gateway_event w (Received (SessionTimedOut session)) b = br_release session b"
| "handle_gateway_event w (Received (ProtocolError message)) b = b"
| "handle_gateway_event w (Received (Disconnected message)) b = gateway_failed w b"
| "handle_gateway_event w (Lagged n) b = gateway_failed w b"
| "handle_gateway_event w Closed b = gateway_failed w b"

section \<open>Timers and set-up\<close>

definition heartbeat :: "world \<Rightarrow> bridge \<Rightarrow> bridge" where
  "heartbeat w b =
     (case br_gateway b of
        None \<Rightarrow> b
      | Some gw \<Rightarrow>
          (case br_call CallGatewayState (gw_gateway_state gw) b of
             (b, Err e) \<Rightarrow> gateway_failed w b
           | (b, _) \<Rightarrow> b))"

definition stationary_nodes :: "VeluxNodeCache \<Rightarrow> NodeId list" where
  "stationary_nodes cache =
     map fst (filter (\<lambda>(k, node). is_controllable node \<and> state node \<notin> {CoverOpening, CoverClosing}) cache)"

definition refresh_stationary_nodes :: "bridge \<Rightarrow> bridge" where
  "refresh_stationary_nodes b =
     foldl (\<lambda>b node_id. logged (request_status node_id) b) b (stationary_nodes (br_cache b))"

definition start_gateway_setup :: "bridge \<Rightarrow> bridge" where
  "start_gateway_setup b = b\<lparr>br_setup := True\<rparr>"

text \<open>A set-up task that panicked is a failed one.\<close>

definition handle_setup_result :: "world \<Rightarrow> (bridge_error, PreparedGateway) outcome \<Rightarrow> bridge \<Rightarrow> bridge" where
  "handle_setup_result w result b =
     (let b = b\<lparr>br_setup := False\<rparr>
      in case result of
           Ok prepared \<Rightarrow>
             let removed = map snd (filter (\<lambda>(k, node). btree_get (prep_cache prepared) k = None) (br_cache b));
                 removed_groups =
                   map snd (filter (\<lambda>(k, g). btree_get (prep_groups prepared) k = None) (br_groups b));
                 b = b\<lparr>br_gateway := Some (prep_gateway prepared), br_events := True,
                       br_cache := prep_cache prepared, br_groups := prep_groups prepared,
                       br_session_ids := prep_session_ids prepared,
                       br_reconnect := backoff_reset (br_reconnect b), br_calls := prep_calls prepared\<rparr>
             in if br_mqtt_connected b then
                  logged (publish_complete_snapshot w)
                    (logged (clear_removed_groups w removed_groups)
                      (logged (clear_removed_nodes w removed) b))
                else b
         | _ \<Rightarrow>
             let (backoff, delay) = next_delay (w_random w) (br_reconnect b)
             in publish_availability w False
                  (b\<lparr>br_reconnect := backoff, br_next_reconnect := w_now w + delay\<rparr>))"

section \<open>The loop\<close>

text \<open>
  What the loop of \<open>run_until\<close> can be woken by. A branch whose guard is false is not polled: the set-up
  and the events only when there is a task and a receiver, the reconnection only without a gateway and
  without a running set-up, the timers only with a gateway.
\<close>

datatype bridge_input =
    MqttPolled "(MqttError, MqttEvent) outcome"
  | SetupFinished "(bridge_error, PreparedGateway) outcome"
  | GatewayEvent received
  | ReconnectDue
  | HeartbeatTick
  | RefreshTick

definition input_enabled :: "world \<Rightarrow> bridge_input \<Rightarrow> bridge \<Rightarrow> bool" where
  "input_enabled w input b \<longleftrightarrow>
     (case input of
        MqttPolled _ \<Rightarrow> True
      | SetupFinished _ \<Rightarrow> br_setup b
      | GatewayEvent _ \<Rightarrow> br_events b
      | ReconnectDue \<Rightarrow> br_gateway b = None \<and> \<not> br_setup b \<and> br_next_reconnect b \<le> w_now w
      | HeartbeatTick \<Rightarrow> br_gateway b \<noteq> None
      | RefreshTick \<Rightarrow> br_gateway b \<noteq> None)"

primrec bridge_select :: "world \<Rightarrow> bridge_input \<Rightarrow> bridge \<Rightarrow> bridge" where
  "bridge_select w (MqttPolled result) b = handle_mqtt_result w result b"
| "bridge_select w (SetupFinished result) b = handle_setup_result w result b"
| "bridge_select w (GatewayEvent event) b = handle_gateway_event w event b"
| "bridge_select w ReconnectDue b = start_gateway_setup b"
| "bridge_select w HeartbeatTick b = heartbeat w b"
| "bridge_select w RefreshTick b = refresh_stationary_nodes b"

text \<open>
  The shutdown after the loop: what a running set-up ends with when it is cancelled (a panic of its task
  included) and the result of the MQTT disconnect are arguments. The calls of a gateway that turns out to
  have been prepared are returned.
\<close>

definition GatewaySetup_cancel :: "(bridge_error, PreparedGateway) outcome \<Rightarrow> PreparedGateway option" where
  "GatewaySetup_cancel task = (case task of Ok prepared \<Rightarrow> Some prepared | _ \<Rightarrow> None)"

definition bridge_shutdown ::
  "world \<Rightarrow> (bridge_error, PreparedGateway) outcome \<Rightarrow> (MqttError, unit) outcome \<Rightarrow> bridge
     \<Rightarrow> bridge \<times> calls \<times> (bridge_error, unit) outcome"
where
  "bridge_shutdown w task disconnected b =
     (let reboot = bc_reboot_on_shutdown (br_config b);
          prepared_calls =
            (if br_setup b then
               (case GatewaySetup_cancel task of Some p \<Rightarrow> prep_calls p @ [CallShutdown reboot] | None \<Rightarrow> [])
             else []);
          b = publish_availability w False (b\<lparr>br_setup := False\<rparr>);
          b = (case br_gateway b of
                 None \<Rightarrow> b
               | Some gw \<Rightarrow>
                   fst (br_call (CallShutdown reboot) (\<lambda>calls. gw_shutdown gw calls reboot)
                     (b\<lparr>br_gateway := None\<rparr>)))
      in (b, prepared_calls,
          if br_mqtt_connected b then map_err MqttFailure disconnected else Ok ()))"

section \<open>Publishing changes nothing else\<close>

text \<open>
  A computation that only publishes: it appends attempts on topics of a set and may replace the
  components the discovery has announced; everything else of the state stays.
\<close>

definition discovery_identity :: "bridge \<Rightarrow> (string \<times> string) option" where
  "discovery_identity b = map_option (\<lambda>d. (ha_prefix d, ha_client_id d)) (br_discovery b)"

lemma discovery_identity_simps [simp]:
  "discovery_identity (br_mqtt_update f b) = discovery_identity b"
  "discovery_identity (br_gateway_update f2 b) = discovery_identity b"
  "discovery_identity (br_events_update f3 b) = discovery_identity b"
  "discovery_identity (br_setup_update f4 b) = discovery_identity b"
  "discovery_identity (br_cache_update f5 b) = discovery_identity b"
  "discovery_identity (br_groups_update f6 b) = discovery_identity b"
  "discovery_identity (br_session_ids_update f7 b) = discovery_identity b"
  "discovery_identity (br_mqtt_connected_update f8 b) = discovery_identity b"
  "discovery_identity (br_next_reconnect_update f9 b) = discovery_identity b"
  "discovery_identity (br_reconnect_update f10 b) = discovery_identity b"
  "discovery_identity (br_calls_update f11 b) = discovery_identity b"
  by (simp_all add: discovery_identity_def)

definition only_publishes :: "string set \<Rightarrow> bridge \<Rightarrow> bridge \<Rightarrow> bool" where
  "only_publishes T b b' \<longleftrightarrow>
     (\<exists>qs d. b' = b\<lparr>br_mqtt := br_mqtt b @ qs, br_discovery := d\<rparr> \<and> (\<forall>q \<in> set qs. mp_topic (fst q) \<in> T))
     \<and> discovery_identity b' = discovery_identity b"

named_theorems publishing \<open>topics the publishing computations use\<close>

lemma only_publishes_refl [publishing]: "only_publishes T b b"
  by (simp add: only_publishes_def) (metis append_Nil2 bridge.surjective bridge.update_convs(3,13) list.distinct(1) empty_iff empty_set)

lemma only_publishes_trans:
  "only_publishes T b c \<Longrightarrow> only_publishes T c d \<Longrightarrow> only_publishes T b d"
  unfolding only_publishes_def by fastforce

lemma only_publishes_mono: "only_publishes S b c \<Longrightarrow> S \<subseteq> T \<Longrightarrow> only_publishes T b c"
  unfolding only_publishes_def by blast

lemma only_publishes_simps:
  assumes "only_publishes T b c"
  shows "br_config c = br_config b" "br_topics c = br_topics b" "br_gateway c = br_gateway b"
    "br_events c = br_events b" "br_setup c = br_setup b" "br_cache c = br_cache b"
    "br_groups c = br_groups b" "br_session_ids c = br_session_ids b"
    "br_mqtt_connected c = br_mqtt_connected b" "br_next_reconnect c = br_next_reconnect b"
    "br_reconnect c = br_reconnect b" "br_calls c = br_calls b" "discovery_identity c = discovery_identity b"
  using assms by (auto simp: only_publishes_def)

lemma only_publishes_publish: "mp_topic p \<in> T \<Longrightarrow> only_publishes T b (fst (br_publish w p b))"
  by (auto simp: only_publishes_def br_publish_def publish_def Let_def intro!: exI [of _ "br_discovery b"])

lemma only_publishes_publish_all:
  assumes "set (map mp_topic ps) \<subseteq> T"
  shows "only_publishes T b (fst (br_publish_all w ps b))"
proof -
  obtain answers where a: "fst (publish_all (w_publish w) (br_mqtt b) ps) =
      br_mqtt b @ zip (take (length answers) ps) answers"
    using publish_all_spec by blast
  have "mp_topic (fst q) \<in> T" if "q \<in> set (zip (take (length answers) ps) answers)" for q
  proof -
    have "(fst q, snd q) \<in> set (zip (take (length answers) ps) answers)" using that by simp
    then have "fst q \<in> set ps" by (blast dest: set_zip_leftD in_set_takeD)
    then show ?thesis using assms by auto
  qed
  then show ?thesis using a
    by (auto simp: only_publishes_def br_publish_all_def split_beta intro!: exI [of _ "br_discovery b"])
qed

lemma only_publishes_then:
  assumes "only_publishes T b (fst (m b))"
    "\<And>x c. m b = (c, Ok x) \<Longrightarrow> only_publishes T b c \<Longrightarrow> only_publishes T c (fst (f x c))"
  shows "only_publishes T b (fst (step_then m f b))"
proof (cases "m b")
  case (Pair c r)
  then show ?thesis using assms only_publishes_trans [of T b c]
    by (cases r) (auto simp: step_then_def)
qed

lemma only_publishes_for_each:
  assumes "\<And>x c. x \<in> set xs \<Longrightarrow> only_publishes T b c \<Longrightarrow> only_publishes T c (fst (f x c))"
  shows "only_publishes T b (fst (step_for_each f xs b))"
proof -
  have "only_publishes T c (fst (step_for_each f xs c))" if "only_publishes T b c" for c
    using assms that
  proof (induction xs arbitrary: c)
    case Nil
    then show ?case by (simp add: step_return_def only_publishes_refl)
  next
    case (Cons x xs)
    have "only_publishes T c (fst (step_then (f x) (\<lambda>_. step_for_each f xs) c))"
    proof (rule only_publishes_then)
      show "only_publishes T c (fst (f x c))" using Cons.prems by simp
      fix y d assume "only_publishes T c d"
      then have "only_publishes T b d" using Cons.prems(2) only_publishes_trans by blast
      then show "only_publishes T d (fst (step_for_each f xs d))" using Cons by simp
    qed
    then show ?case by simp
  qed
  then show ?thesis using only_publishes_refl by blast
qed

lemma only_publishes_result:
  "(\<And>p. r = Ok p \<Longrightarrow> mp_topic p \<in> T) \<Longrightarrow> only_publishes T b (fst (publish_result w r b))"
  by (cases r) (auto simp: publish_result_def step_then_def step_return_def only_publishes_publish
      only_publishes_refl)

lemma only_publishes_results:
  "(\<And>ps. r = Ok ps \<Longrightarrow> set (map mp_topic ps) \<subseteq> T) \<Longrightarrow> only_publishes T b (fst (publish_results w r b))"
  by (cases r) (auto simp: publish_results_def step_then_def step_return_def only_publishes_publish_all
      only_publishes_refl)

text \<open>The topics each computation writes. The topics of a layout that carry the status of a node.\<close>

definition status_topics :: "TopicLayout \<Rightarrow> NodeId \<Rightarrow> string set" where
  "status_topics topics n = set (tl (node_topics topics n))"

definition discovery_topics :: "string set" where
  "discovery_topics = {topic. \<exists>s. topic = s @ ''/config''}"

lemma publishes_inventories [publishing]:
  "topic_groups (br_topics b) \<in> T \<Longrightarrow> only_publishes T b (fst (publish_group_inventory w b))"
  "topic_nodes (br_topics b) \<in> T \<Longrightarrow> only_publishes T b (fst (publish_node_inventory w b))"
  "group_info (br_topics b) (gi_group_id g) \<in> T \<Longrightarrow> only_publishes T b (fst (publish_group_info w g b))"
  by (auto simp: publish_group_inventory_def publish_node_inventory_def publish_group_info_def
      groups_publication_def inventory_publication_def group_info_publication_def outcome_iffs
      intro!: only_publishes_result)

lemma info_topic_in: "info_publication v topics node = Ok p \<Longrightarrow> mp_topic p \<in> {node_info topics (vn_id node)}"
  by (simp add: topics_of_info)

lemma status_topics_in:
  "status_publications v topics node = Ok ps \<Longrightarrow> set (map mp_topic ps) \<subseteq> status_topics topics (vn_id node)"
  by (simp only: topics_of_status status_topics_def order_refl)

lemma publishes_node [publishing]:
  "cache_inv (br_cache b) \<Longrightarrow> node_info (br_topics b) n \<in> T \<Longrightarrow>
     only_publishes T b (fst (publish_node_info w n b))"
  "cache_inv (br_cache b) \<Longrightarrow> status_topics (br_topics b) n \<subseteq> T \<Longrightarrow>
     only_publishes T b (fst (publish_node_status w n b))"
proof -
  show "only_publishes T b (fst (publish_node_info w n b))"
    if "cache_inv (br_cache b)" "node_info (br_topics b) n \<in> T"
    using that info_topic_in
    by (auto simp: publish_node_info_def cache_inv_def only_publishes_refl split: option.splits
        intro!: only_publishes_result)
  show "only_publishes T b (fst (publish_node_status w n b))"
    if "cache_inv (br_cache b)" "status_topics (br_topics b) n \<subseteq> T"
    using that status_topics_in
    by (auto simp: publish_node_status_def cache_inv_def only_publishes_refl simp del: set_map
        split: option.splits intro!: only_publishes_results) blast
qed

lemma discovery_topics_of:
  assumes "publications serde d topics nodes groups = (d', Ok ps)"
  shows "set (map mp_topic ps) \<subseteq> discovery_topics"
proof -
  have "cover_topic d uid \<in> discovery_topics" "device_topic d \<in> discovery_topics" for uid
    unfolding discovery_topics_def cover_topic_def device_topic_def mem_Collect_eq
    by (metis append.assoc)+
  then show ?thesis
    using assms by (elim publications_Ok) (auto simp: clear_def)
qed

lemma publishes_discovery [publishing]:
  assumes "discovery_topics \<subseteq> T"
  shows "only_publishes T b (fst (publish_hass_discovery w b))"
proof (cases "br_discovery b")
  case None
  then show ?thesis by (simp add: publish_hass_discovery_def only_publishes_refl)
next
  case (Some d)
  obtain d' r where p: "publications (w_serde w) d (br_topics b) (map snd (br_cache b))
      (map snd (br_groups b)) = (d', r)" by (rule prod.exhaust)
  have "ha_prefix d' = ha_prefix d" "ha_client_id d' = ha_client_id d"
    using p by (auto simp: publications_def Let_def split: outcome.splits)
  then have set_discovery: "only_publishes T c (c\<lparr>br_discovery := Some d'\<rparr>)"
    if "discovery_identity c = discovery_identity b" for c
    using that Some
    by (auto simp: only_publishes_def discovery_identity_def intro!: exI [of _ "[] :: mqtt_trace"])
  show ?thesis
  proof (cases "br_mqtt_connected b")
    case True
    have "only_publishes T b (fst (step_then (publish_results w r)
        (\<lambda>_ b. (b\<lparr>br_discovery := Some d'\<rparr>, Ok ())) b))"
    proof (rule only_publishes_then)
      show "only_publishes T b (fst (publish_results w r b))"
        using assms p discovery_topics_of by (intro only_publishes_results) blast
      fix x c assume "only_publishes T b c"
      from only_publishes_simps(13) [OF this] have "only_publishes T c (c\<lparr>br_discovery := Some d'\<rparr>)"
        by (rule set_discovery)
      then show "only_publishes T c (fst (c\<lparr>br_discovery := Some d'\<rparr>, Ok ()))" by simp
    qed
    then show ?thesis using Some True p by (simp add: publish_hass_discovery_def)
  qed (simp add: publish_hass_discovery_def Some only_publishes_refl)
qed

lemma publishes_availability [publishing]:
  "topic_state (br_topics b) \<in> T \<Longrightarrow> only_publishes T b (publish_availability w online b)"
  by (auto simp: publish_availability_def availability_publication_def only_publishes_refl
      intro!: only_publishes_publish)

lemma publishes_snapshot_node [publishing]:
  "set (node_topics (br_topics b) (vn_id node)) \<subseteq> T \<Longrightarrow>
     only_publishes T b (fst (publish_snapshot_node w node b))"
  unfolding publish_snapshot_node_def
proof (rule only_publishes_then, goal_cases)
  case 1
  then show ?case
    using info_topic_in by (intro only_publishes_result) (auto simp: node_topics_def)
next
  case (2 x c)
  have "status_topics (br_topics b) (vn_id node) \<subseteq> T"
    using 2(1) by (auto simp: status_topics_def node_topics_def)
  then show ?case
    using status_topics_in only_publishes_simps(2) [OF 2(3)]
    by (auto simp: only_publishes_refl simp del: set_map intro!: only_publishes_results) blast
qed

lemma publishes_complete_snapshot [publishing]: "only_publishes UNIV b (fst (publish_complete_snapshot w b))"
  unfolding publish_complete_snapshot_def
  by (intro only_publishes_then only_publishes_for_each publishing only_publishes_publish) auto

lemma publishes_clear_nodes [publishing]: "only_publishes UNIV b (fst (clear_removed_nodes w removed b))"
  unfolding clear_removed_nodes_def
proof (rule only_publishes_for_each)
  fix node c
  show "only_publishes UNIV c (fst (clear_removed_node w node c))"
    unfolding clear_removed_node_def
    by (rule only_publishes_then)
      (auto simp: only_publishes_refl intro!: only_publishes_publish_all only_publishes_publish
        split: option.splits)
qed

lemma publishes_clear_groups [publishing]:
  assumes "\<And>g. g \<in> set removed \<Longrightarrow> group_info (br_topics b) (gi_group_id g) \<in> T" "discovery_topics \<subseteq> T"
  shows "only_publishes T b (fst (clear_removed_groups w removed b))"
  unfolding clear_removed_groups_def
proof (rule only_publishes_for_each)
  fix g c assume g: "g \<in> set removed" "only_publishes T b c"
  have "group_topic d g \<in> T" for d
    using assms(2) by (auto simp: discovery_topics_def group_topic_def cover_topic_def)
  then show "only_publishes T c (fst (clear_removed_group w g c))"
    unfolding clear_removed_group_def using assms(1) [OF g(1)] only_publishes_simps(2) [OF g(2)]
    by (intro only_publishes_then)
      (auto simp: only_publishes_refl clear_group_publications_def clear_group_publication_def clear_def
        intro!: only_publishes_publish_all only_publishes_publish split: option.splits)
qed

section \<open>Sessions of a request\<close>

text \<open>A computation that only moves session identifiers and calls the gateway.\<close>

definition session_step :: "bridge \<Rightarrow> bridge \<Rightarrow> bool" where
  "session_step b c \<longleftrightarrow>
     (\<exists>ids calls. c = b\<lparr>br_session_ids := ids, br_calls := calls\<rparr>
        \<and> (allocator_inv (br_session_ids b) \<longrightarrow> allocator_inv ids))"

lemma session_step_refl: "session_step b b"
  unfolding session_step_def by (intro exI [of _ "br_session_ids b"] exI [of _ "br_calls b"]) simp

lemma session_step_trans: "session_step b c \<Longrightarrow> session_step c d \<Longrightarrow> session_step b d"
  unfolding session_step_def by fastforce

lemma session_step_ops:
  "session_step b (br_release session b)" "session_step b (b\<lparr>br_calls := calls\<rparr>)"
  "session_step b (fst (br_allocate b))"
proof -
  show "session_step b (br_release session b)"
    by (auto simp: session_step_def br_release_def allocator_inv_ops intro!: exI [of _ "br_calls b"]
        exI [of _ "fst (release (br_session_ids b) session)"])
  show "session_step b (b\<lparr>br_calls := calls\<rparr>)"
    unfolding session_step_def by (intro exI [of _ "br_session_ids b"] exI [of _ calls]) simp
  show "session_step b (fst (br_allocate b))"
    by (auto simp: session_step_def br_allocate_def split_beta allocator_inv_allocate
        intro!: exI [of _ "br_calls b"] exI [of _ "fst (allocate (br_session_ids b))"])
qed

lemma session_step_simps:
  assumes "session_step b c"
  shows "br_gateway c = br_gateway b" "br_cache c = br_cache b" "br_topics c = br_topics b"
    "br_mqtt c = br_mqtt b" "br_mqtt_connected c = br_mqtt_connected b" "br_groups c = br_groups b"
  using assms by (auto simp: session_step_def)

text \<open>
  What became of an allocated session: the state in which the request was sent, the answer, and the
  state with the session given back.
\<close>

lemma br_allocate_cases:
  obtains (fresh) session ids where "allocate (br_session_ids b) = (ids, Ok session)"
      "br_allocate b = (b\<lparr>br_session_ids := ids\<rparr>, Ok session)"
    | (failed) e ids where "allocate (br_session_ids b) = (ids, Err e)"
      "br_allocate b = (b\<lparr>br_session_ids := ids\<rparr>, Err (KlfFailure e))"
    | (panic) ids where "allocate (br_session_ids b) = (ids, Panic)"
      "br_allocate b = (b\<lparr>br_session_ids := ids\<rparr>, Panic)"
proof -
  obtain ids r where "allocate (br_session_ids b) = (ids, r)" by (rule prod.exhaust)
  then show thesis using that by (cases r) (simp_all add: br_allocate_def)
qed

lemma br_send_eq:
  "br_send gw request b =
     (b\<lparr>br_calls := br_calls b @ [CallSend request]\<rparr>, map_err KlfFailure (gw_send gw (br_calls b) request))"
  by (simp add: br_send_def br_call_def)

text \<open>
  The sessions in use after a request, as a function of whether it was accepted: an accepted request
  keeps its fresh session, any other leaves the sessions as they were.
\<close>

definition holds_session :: "bridge \<Rightarrow> bridge \<Rightarrow> SessionId \<Rightarrow> bool" where
  "holds_session b c session \<longleftrightarrow> session_valid session \<and> session \<notin> active_sessions (br_session_ids b)
     \<and> active_sessions (br_session_ids c) = insert session (active_sessions (br_session_ids b))"

abbreviation same_sessions :: "bridge \<Rightarrow> bridge \<Rightarrow> bool" where
  "same_sessions b c \<equiv> active_sessions (br_session_ids c) = active_sessions (br_session_ids b)"

lemma sessions_after:
  assumes "allocator_inv (br_session_ids b)" "br_allocate b = (c, Ok session)"
  shows "holds_session b c session" "allocator_inv (br_session_ids c)"
    "active_sessions (fst (release (br_session_ids c) session)) = active_sessions (br_session_ids b)"
proof -
  have al: "allocate (br_session_ids b) = (br_session_ids c, Ok session)"
    using assms(2) by (cases rule: br_allocate_cases [of b]) auto
  show inv: "allocator_inv (br_session_ids c)"
    using allocator_inv_allocate [OF assms(1)] al by simp
  show "holds_session b c session"
    using allocate_fresh [OF assms(1) al] by (simp add: holds_session_def)
  then show "active_sessions (fst (release (br_session_ids c) session)) = active_sessions (br_session_ids b)"
    using sessions.used_free [OF inv, of session] by (auto simp: holds_session_def)
qed

lemma sessions_not_allocated:
  assumes "allocator_inv (br_session_ids b)" "br_allocate b = (c, Err e)"
  shows "c = b"
  using assms allocate_exhausted [OF assms(1)] by (cases rule: br_allocate_cases [of b]) auto

lemma br_allocate_not_Panic: "allocator_inv (br_session_ids b) \<Longrightarrow> snd (br_allocate b) \<noteq> Panic"
  using sessions.alloc_total [of "br_session_ids b"] by (cases rule: br_allocate_cases [of b]) auto

lemma br_release_sessions [simp]:
  "br_session_ids (br_release session b) = fst (release (br_session_ids b) session)"
  by (simp add: br_release_def)

lemma request_status_step: "session_step b (fst (request_status n b))"
proof (cases rule: br_allocate_cases [of b])
  case (fresh session ids)
  let ?c = "b\<lparr>br_session_ids := ids\<rparr>"
  have c: "session_step b ?c" using session_step_ops(3) [of b] fresh(2) by simp
  show ?thesis
  proof (cases "br_gateway b")
    case None
    then show ?thesis using fresh c
      by (simp add: request_status_def step_then_def CommandTarget_single step_return_def br_gateway_result_def)
  next
    case (Some gw)
    let ?request = "StatusRequest session (CommandTarget [n]) MainInformation"
    let ?d = "?c\<lparr>br_calls := br_calls b @ [CallSend ?request]\<rparr>"
    have d: "session_step b ?d" by (rule session_step_trans [OF c session_step_ops(2)])
    have e: "session_step b (br_release session ?d)" by (rule session_step_trans [OF d session_step_ops(1)])
    note eq = request_status_def step_then_def CommandTarget_single step_return_def br_gateway_result_def
      br_send_eq fresh(2) Some
    show ?thesis
    proof (cases "gw_send gw (br_calls b) ?request")
      case (Ok response)
      then show ?thesis using d e by (cases "status_accepted response") (simp_all add: eq)
    qed (use d e in \<open>simp_all add: eq\<close>)
  qed
next
  case (failed e ids)
  then show ?thesis using session_step_ops(3) [of b] by (simp add: request_status_def step_then_def)
next
  case (panic ids)
  then show ?thesis using session_step_ops(3) [of b] by (simp add: request_status_def step_then_def)
qed

section \<open>Sessions follow the acceptance\<close>

text \<open>
  What the connection promises about an answer: it is decoded from a frame with the confirmation of the
  request, and it names the session of the request.
\<close>

definition confirms :: "Request \<Rightarrow> Response \<Rightarrow> bool" where
  "confirms request response \<longleftrightarrow>
     confirmation_session_matches (Request_session_id request) response
     \<and> (\<exists>f. Response_decode f = Ok response
          \<and> expected_confirmation (Request_command_id request) = Some (frame_command f))"

locale confirming_gateway =
  fixes gw :: gateway
  assumes send_confirms: "gw_send gw calls request = Ok response \<Longrightarrow> confirms request response"
    and send_not_Panic: "gw_send gw calls request \<noteq> Panic"

lemma session_confirmation_ids:
  "expected_confirmation GW_STATUS_REQUEST_REQ = Some GW_STATUS_REQUEST_CFM"
  "expected_confirmation GW_COMMAND_SEND_REQ = Some GW_COMMAND_SEND_CFM"
  "expected_confirmation GW_ACTIVATE_PRODUCTGROUP_REQ = Some GW_ACTIVATE_PRODUCTGROUP_CFM"
  by (simp_all add: expected_confirmation_eq confirmed_commands_def)

lemma decoded_session_answers:
  "Response_decode f = Ok r \<Longrightarrow> frame_command f = GW_STATUS_REQUEST_CFM \<Longrightarrow> \<exists>s status. r = StatusAccepted s status"
  "Response_decode f = Ok r \<Longrightarrow> frame_command f = GW_COMMAND_SEND_CFM \<Longrightarrow> \<exists>s status. r = CommandAccepted s status"
  "Response_decode f = Ok r \<Longrightarrow> frame_command f = GW_ACTIVATE_PRODUCTGROUP_CFM \<Longrightarrow>
     \<exists>result. r = ProductGroupResult result"
  by (auto simp: Response_decode_def decode_core_def decode_scene_contact_def decode_session_status_def
      outcome_iffs Let_def split: if_splits)

lemma confirmed_answers:
  "confirms (StatusRequest session target t) response \<Longrightarrow> \<exists>status. response = StatusAccepted session status"
  "confirms (CommandSend \<lparr>cr_session_id = session, cr_main_parameter = parameter\<rparr> target) response \<Longrightarrow>
     \<exists>status. response = CommandAccepted session status"
  "confirms (group_request session g group_id action) response \<Longrightarrow>
     \<exists>result. response = ProductGroupResult result \<and> pgr_session_id result = session"
proof -
  note unfold = confirms_def confirmation_session_matches_def group_request_def session_confirmation_ids
    response_session_id_def
  show "confirms (StatusRequest session target t) response \<Longrightarrow> \<exists>status. response = StatusAccepted session status"
    by (auto simp: unfold dest!: decoded_session_answers(1) [OF _ sym])
  show "confirms (CommandSend \<lparr>cr_session_id = session, cr_main_parameter = parameter\<rparr> target) response \<Longrightarrow>
      \<exists>status. response = CommandAccepted session status"
    by (auto simp: unfold dest!: decoded_session_answers(2) [OF _ sym])
  show "confirms (group_request session g group_id action) response \<Longrightarrow>
      \<exists>result. response = ProductGroupResult result \<and> pgr_session_id result = session"
    by (auto simp: unfold dest!: decoded_session_answers(3) [OF _ sym])
qed

text \<open>The answer to the one request a computation has sent for a session.\<close>

definition answered :: "gateway \<Rightarrow> bridge \<Rightarrow> bridge \<Rightarrow> SessionId \<Rightarrow> Response \<Rightarrow> bool" where
  "answered gw b c session response \<longleftrightarrow>
     (\<exists>request. br_calls c = br_calls b @ [CallSend request] \<and> Request_session_id request = Some session
        \<and> gw_send gw (br_calls b) request = Ok response)"

definition sessions_correct :: "gateway \<Rightarrow> bridge \<Rightarrow> bridge \<Rightarrow> bool" where
  "sessions_correct gw b c \<longleftrightarrow>
     (\<exists>session response. answered gw b c session response \<and> session_was_accepted response
        \<and> holds_session b c session)
     \<or> (same_sessions b c
        \<and> (\<forall>session response. answered gw b c session response \<longrightarrow> \<not> session_was_accepted response))"

lemma sessions_correct_no_call: "same_sessions b c \<Longrightarrow> br_calls c = br_calls b \<Longrightarrow> sessions_correct gw b c"
  by (simp add: sessions_correct_def answered_def)

lemma sessions_correct_cong:
  "sessions_correct gw b c \<Longrightarrow> br_calls d = br_calls c \<Longrightarrow> br_session_ids d = br_session_ids c \<Longrightarrow>
     sessions_correct gw b d"
  by (simp add: sessions_correct_def answered_def holds_session_def)

text \<open>A request that was sent for a fresh session: it is kept if accepted and given back otherwise.\<close>

lemma sessions_correct_sent:
  assumes "allocator_inv (br_session_ids b)" "allocate (br_session_ids b) = (ids, Ok session)"
    "Request_session_id request = Some session"
    "br_calls c = br_calls b @ [CallSend request]"
    "br_session_ids c =
       (if (\<exists>response. gw_send gw (br_calls b) request = Ok response \<and> session_was_accepted response)
        then ids else fst (release ids session))"
  shows "sessions_correct gw b c"
proof -
  have al: "br_allocate b = (b\<lparr>br_session_ids := ids\<rparr>, Ok session)"
    using assms(2) by (simp add: br_allocate_def)
  note after = sessions_after [OF assms(1) al]
  show ?thesis
    using assms(3-5) after by (auto simp: sessions_correct_def answered_def holds_session_def)
qed

lemma publishes_status_any: "only_publishes UNIV b (fst (publish_node_status w n b))"
  by (auto simp: publish_node_status_def only_publishes_refl split: option.splits
      intro!: only_publishes_results)

context confirming_gateway
begin

lemma request_status_sessions:
  assumes "allocator_inv (br_session_ids b)" "br_gateway b = Some gw"
  shows "sessions_correct gw b (fst (request_status n b))"
proof (cases rule: br_allocate_cases [of b])
  case (fresh session ids)
  let ?request = "StatusRequest session (CommandTarget [n]) MainInformation"
  note eq = request_status_def step_then_def CommandTarget_single step_return_def br_gateway_result_def
      br_send_eq fresh(2) assms(2)
  show ?thesis
  proof (rule sessions_correct_sent [OF assms(1) fresh(1)])
    show "Request_session_id ?request = Some session" by simp
    show "br_calls (fst (request_status n b)) = br_calls b @ [CallSend ?request]"
      by (cases "gw_send gw (br_calls b) ?request")
        (simp_all add: eq br_release_def split: option.splits)
    show "br_session_ids (fst (request_status n b)) =
        (if \<exists>response. gw_send gw (br_calls b) ?request = Ok response \<and> session_was_accepted response
         then ids else fst (release ids session))"
    proof (cases "gw_send gw (br_calls b) ?request")
      case (Ok response)
      then obtain status where "response = StatusAccepted session status"
        using send_confirms confirmed_answers(1) by blast
      then show ?thesis using Ok by (simp add: eq status_accepted_def session_was_accepted_def)
    qed (use send_not_Panic in \<open>simp_all add: eq\<close>)
  qed
next
  case (failed e ids)
  then have "ids = br_session_ids b" using allocate_exhausted [OF assms(1)] by blast
  then show ?thesis using failed
    by (intro sessions_correct_no_call) (simp_all add: request_status_def step_then_def)
next
  case (panic ids)
  then show ?thesis using sessions.alloc_total [OF assms(1)] by simp
qed

lemma execute_group_sessions:
  assumes "allocator_inv (br_session_ids b)" "br_gateway b = Some gw"
  shows "sessions_correct gw b (fst (execute_group_command group_id action b))"
proof (cases "btree_get (br_groups b) group_id")
  case None
  then show ?thesis by (intro sessions_correct_no_call) (simp_all add: execute_group_command_def)
next
  case (Some g)
  show ?thesis
  proof (cases rule: br_allocate_cases [of b])
    case (fresh session ids)
    let ?request = "group_request session g group_id action"
    note eq = execute_group_command_def Some step_then_def br_gateway_result_def br_send_eq fresh(2) assms(2)
    show ?thesis
    proof (rule sessions_correct_sent [OF assms(1) fresh(1)])
      show "Request_session_id ?request = Some session" by (simp add: group_request_def)
      show "br_calls (fst (execute_group_command group_id action b)) = br_calls b @ [CallSend ?request]"
        by (cases "gw_send gw (br_calls b) ?request")
          (simp_all add: eq br_release_def split: option.splits)
      show "br_session_ids (fst (execute_group_command group_id action b)) =
          (if \<exists>response. gw_send gw (br_calls b) ?request = Ok response \<and> session_was_accepted response
           then ids else fst (release ids session))"
      proof (cases "gw_send gw (br_calls b) ?request")
        case (Ok response)
        then obtain result where "response = ProductGroupResult result" "pgr_session_id result = session"
          using send_confirms confirmed_answers(3) by blast
        then show ?thesis using Ok by (simp add: eq product_group_result_def session_was_accepted_def)
      qed (use send_not_Panic in \<open>simp_all add: eq\<close>)
    qed
  next
    case (failed e ids)
    then have "ids = br_session_ids b" using allocate_exhausted [OF assms(1)] by blast
    then show ?thesis using failed Some
      by (intro sessions_correct_no_call) (simp_all add: execute_group_command_def step_then_def)
  next
    case (panic ids)
    then show ?thesis using sessions.alloc_total [OF assms(1)] by simp
  qed
qed

text \<open>The command for a node whose endpoint is known.\<close>

lemma send_controllable_sessions:
  assumes "allocator_inv (br_session_ids b)" "br_gateway b = Some gw"
    "btree_get (br_cache b) n = Some node" "resolve_action node action = Ok endpoint" "is_controllable node"
    "allocate (br_session_ids b) = (ids, Ok session)"
  shows "sessions_correct gw b (fst (execute_cover_command w n action b))"
proof -
  have allocated: "br_allocate b = (b\<lparr>br_session_ids := ids\<rparr>, Ok session)" using assms(6) by (simp add: br_allocate_def)
  note eq = execute_cover_command_def assms(2-4) step_then_def br_gateway_result_def br_send_eq allocated
  let ?request = "CommandSend \<lparr>cr_session_id = session, cr_main_parameter = endpoint_parameter endpoint\<rparr>
      (CommandTarget [vn_id node])"
  have request: "command_request node session action = Ok ?request"
    using assms(4,5) by (simp add: command_request_eq)
  let ?c = "b\<lparr>br_session_ids := ids, br_calls := br_calls b @ [CallSend ?request]\<rparr>"
  have kept: "br_calls (fst (publish_node_status w n d)) = br_calls d"
      "br_session_ids (fst (publish_node_status w n d)) = br_session_ids d" for d
    using only_publishes_simps [OF publishes_status_any [of d w n]] by simp_all
  show ?thesis
  proof (rule sessions_correct_sent [OF assms(1,6)])
    show "Request_session_id ?request = Some session" by simp
    show "br_calls (fst (execute_cover_command w n action b)) = br_calls b @ [CallSend ?request]"
      by (cases "gw_send gw (br_calls b) ?request")
        (simp_all add: eq request kept br_release_def split: option.splits)
    show "br_session_ids (fst (execute_cover_command w n action b)) =
        (if \<exists>response. gw_send gw (br_calls b) ?request = Ok response \<and> session_was_accepted response
         then ids else fst (release ids session))"
    proof (cases "gw_send gw (br_calls b) ?request")
      case (Ok response)
      then obtain status where "response = CommandAccepted session status"
        using send_confirms confirmed_answers(2) by blast
      then show ?thesis using Ok
        by (simp add: eq request kept command_accepted_def session_was_accepted_def)
    qed (use send_not_Panic in \<open>simp_all add: eq request\<close>)
  qed
qed

lemma send_cover_sessions:
  assumes "allocator_inv (br_session_ids b)" "br_gateway b = Some gw"
    "btree_get (br_cache b) n = Some node" "resolve_action node action = Ok endpoint"
  shows "sessions_correct gw b (fst (execute_cover_command w n action b))"
proof (cases rule: br_allocate_cases [of b])
  case (fresh session ids)
  note eq = execute_cover_command_def assms(2-4) step_then_def br_gateway_result_def br_send_eq fresh(2)
  show ?thesis
  proof (cases "is_controllable node")
    case False
    then have "command_request node session action = Err (UnsupportedActuator (vn_id node))"
      by (simp add: command_request_eq)
    moreover have "active_sessions (fst (release ids session)) = active_sessions (br_session_ids b)"
      using sessions_after(3) [OF assms(1), of "b\<lparr>br_session_ids := ids\<rparr>" session] fresh(2) by simp
    ultimately show ?thesis
      by (intro sessions_correct_no_call) (simp_all add: eq br_release_def)
  next
    case True
    from send_controllable_sessions [OF assms True fresh(1)] show ?thesis .
  qed
next
  case (failed e ids)
  then have "ids = br_session_ids b" using allocate_exhausted [OF assms(1)] by blast
  then show ?thesis using failed assms(3,4)
    by (intro sessions_correct_no_call) (simp_all add: execute_cover_command_def step_then_def)
next
  case (panic ids)
  then show ?thesis using sessions.alloc_total [OF assms(1)] by simp
qed

lemma execute_cover_sessions:
  assumes "allocator_inv (br_session_ids b)" "br_gateway b = Some gw"
  shows "sessions_correct gw b (fst (execute_cover_command w n action b))"
proof (cases "btree_get (br_cache b) n")
  case None
  then show ?thesis by (intro sessions_correct_no_call) (simp_all add: execute_cover_command_def)
next
  case (Some node)
  have unknown: "fst (step_then (request_status n) (\<lambda>_ b. (b, Err x)) b) = fst (request_status n b)" for x
    by (cases "request_status n b"; cases "snd (request_status n b)") (simp_all add: step_then_def)
  show ?thesis
  proof (cases "resolve_action node action")
    case (Ok endpoint)
    then show ?thesis using send_cover_sessions [OF assms Some] by blast
  next
    case (Err e)
    then show ?thesis using Some
    proof (cases e)
      case (PositionUnknown k)
      then show ?thesis using Err Some request_status_sessions [OF assms, of n]
        by (simp add: execute_cover_command_def unknown)
    qed (auto simp: execute_cover_command_def intro!: sessions_correct_no_call)
  next
    case Panic
    then show ?thesis using Some
      by (intro sessions_correct_no_call) (simp_all add: execute_cover_command_def)
  qed
qed

end

text \<open>
  The connection keeps the promise: a request is pending as the dispatcher leaves it, and its answer is
  what the handling of a frame replies; without a reply it times out.
\<close>

definition pending_for :: "Request \<Rightarrow> CommandId \<Rightarrow> PendingRequest" where
  "pending_for request confirmation =
     \<lparr>pr_command = Request_command_id request, pr_expected_confirmation = confirmation,
      pr_session_id = Request_session_id request, pr_deadline = 0, pr_reply = 0\<rparr>"

definition first_reply :: "effect list \<Rightarrow> Response result option" where
  "first_reply effects = (case effects of Reply _ r # _ \<Rightarrow> Some r | _ \<Rightarrow> None)"

definition actor_answers ::
  "(calls \<Rightarrow> Request \<Rightarrow> Frame option) \<Rightarrow> calls \<Rightarrow> Request \<Rightarrow> Response result delivery"
where
  "actor_answers frames calls request =
     (let command = Request_command_id request; silence = Err (RequestTimeout command)
      in Replied
          (case expected_confirmation command of
             None \<Rightarrow> Err (MissingConfirmation command)
           | Some confirmation \<Rightarrow>
               (case frames calls request of
                  None \<Rightarrow> silence
                | Some f \<Rightarrow>
                    (case first_reply (snd (snd
                            (handle_frame f 0 0 (Some (pending_for request confirmation)) (\<lambda>_. None)))) of
                       None \<Rightarrow> silence
                     | Some r \<Rightarrow> r))))"

lemma first_reply_confirms:
  assumes "first_reply (snd (snd (handle_frame f now timeout (Some p) sessions))) = Some r"
  shows "r \<noteq> Panic" "r = Ok response \<Longrightarrow> Response_decode f = Ok response
      \<and> frame_command f = pr_expected_confirmation p \<and> confirmation_session_matches (pr_session_id p) response"
  using assms Response_decode_not_Panic [of f]
  by (auto simp: handle_frame_def first_reply_def Let_def split: if_splits outcome.splits)

interpretation actor: confirming_gateway "Klf200Client_gateway (actor_answers frames) events stopped"
  for frames events stopped
proof (unfold_locales, goal_cases)
  case (1 calls request response)
  then obtain confirmation f where *: "expected_confirmation (Request_command_id request) = Some confirmation"
    "first_reply (snd (snd (handle_frame f 0 0 (Some (pending_for request confirmation)) (\<lambda>_. None)))) =
       Some (Ok response)"
    by (auto simp: Klf200Client_gateway_def send_def send_unlocked_def actor_answers_def Let_def
        split: option.splits)
  from first_reply_confirms(2) [OF *(2) refl] *(1) show ?case
    by (auto simp: confirms_def pending_for_def)
next
  case (2 calls request)
  show ?case
    using first_reply_confirms(1)
    by (auto simp: Klf200Client_gateway_def send_def send_unlocked_def actor_answers_def Let_def
        split: option.splits)
qed

end
