(* ===== verification/Bridge_Invariant.thy ===== *)
theory Bridge_Invariant
  imports Bridge
begin

text \<open>
  The invariant of the bridge: what holds of its state between any two iterations of the loop, whatever
  the MQTT broker and the gateway deliver.
\<close>

section \<open>The invariant of the bridge\<close>

definition groups_inv :: "(GroupId, GroupInformation) btree_map \<Rightarrow> bool" where
  "groups_inv m \<longleftrightarrow> btree_wf m \<and> (\<forall>k g. btree_get m k = Some g \<longrightarrow> gi_group_id g = k \<and> group_wf g)"

text \<open>
  The maps are keyed by their contents; there is a receiver exactly when there is a gateway, and no
  set-up runs beside one; without a gateway no session is in use and no node counts as available.
\<close>

definition bridge_inv :: "bridge \<Rightarrow> bool" where
  "bridge_inv b \<longleftrightarrow> cache_inv (br_cache b) \<and> groups_inv (br_groups b)
     \<and> allocator_inv (br_session_ids b) \<and> backoff_inv (br_reconnect b)
     \<and> (br_events b \<longleftrightarrow> br_gateway b \<noteq> None) \<and> \<not> (br_setup b \<and> br_gateway b \<noteq> None)
     \<and> (br_gateway b = None \<longrightarrow> active_sessions (br_session_ids b) = {}
          \<and> (\<forall>k node. btree_get (br_cache b) k = Some node \<longrightarrow> vn_availability node = Unavailable))"

lemma bridge_inv_publishes: "only_publishes T b c \<Longrightarrow> bridge_inv b \<Longrightarrow> bridge_inv c"
  by (auto simp: bridge_inv_def only_publishes_simps)

lemma bridge_inv_session_step:
  "session_step b c \<Longrightarrow> br_gateway b \<noteq> None \<Longrightarrow> bridge_inv b \<Longrightarrow> bridge_inv c"
  by (auto simp: bridge_inv_def session_step_def)

lemma active_sessions_new [simp]: "active_sessions SessionIdAllocator_new = {}"
  by (simp add: active_sessions_def SessionIdAllocator_new_def)

lemma cache_inv_unavailable: "cache_inv cache \<Longrightarrow> cache_inv (fst (set_all_available cache a))"
proof -
  assume inv: "cache_inv cache"
  have keys: "btree_keys (fst (set_all_available cache a)) = btree_keys cache"
    by (simp add: set_all_available_def comp_def split_beta)
  have "node_wf (fst (set_available node a)) \<longleftrightarrow> node_wf node" for node
    by (simp add: set_available_def node_wf_def Let_def)
  then show ?thesis
    using inv by (auto simp: cache_inv_def btree_wf_def keys set_all_available_get)
qed

lemma unavailable_after: "btree_get (fst (set_all_available cache False)) k = Some node \<Longrightarrow>
    vn_availability node = Unavailable"
proof -
  have "vn_availability (fst (set_available node0 False)) = Unavailable" for node0
    by (simp add: set_available_def Let_def)
  then show "btree_get (fst (set_all_available cache False)) k = Some node \<Longrightarrow>
      vn_availability node = Unavailable"
    unfolding set_all_available_get by force
qed

text \<open>Losing the gateway, by a failure or by a reboot.\<close>

lemma bridge_inv_offline:
  assumes "bridge_inv b" "backoff_inv backoff"
  shows "bridge_inv (b\<lparr>br_gateway := None, br_events := False,
      br_cache := fst (set_all_available (br_cache b) False), br_session_ids := SessionIdAllocator_new,
      br_reconnect := backoff, br_next_reconnect := t\<rparr>)"
proof -
  have "cache_inv (fst (set_all_available (br_cache b) False))" "groups_inv (br_groups b)"
    using assms(1) cache_inv_unavailable unfolding bridge_inv_def by blast+
  moreover have "\<forall>k node. btree_get (fst (set_all_available (br_cache b) False)) k = Some node \<longrightarrow>
      vn_availability node = Unavailable" using unavailable_after by blast
  ultimately show ?thesis using assms(2) by (simp add: bridge_inv_def allocator_inv_ops)
qed

lemma bridge_inv_gateway_failed: "bridge_inv b \<Longrightarrow> bridge_inv (gateway_failed w b)"
proof (cases "br_gateway b")
  case (Some gw)
  assume inv: "bridge_inv b"
  obtain backoff delay where n: "next_delay (w_random w) (br_reconnect b) = (backoff, delay)"
    by (rule prod.exhaust)
  then have "backoff_inv backoff"
    using inv backoff_inv_next [of "br_reconnect b" "w_random w"] by (simp add: bridge_inv_def)
  from bridge_inv_publishes [OF publishes_availability [OF UNIV_I] bridge_inv_offline [OF inv this]]
  show ?thesis using Some n by (simp add: gateway_failed_def)
qed (simp add: gateway_failed_def)

section \<open>Every handler keeps the invariant\<close>

lemma bridge_inv_cache:
  "bridge_inv b \<Longrightarrow> br_gateway b \<noteq> None \<Longrightarrow> cache_inv cache \<Longrightarrow> bridge_inv (b\<lparr>br_cache := cache\<rparr>)"
  by (auto simp: bridge_inv_def)

lemma bridge_inv_groups: "bridge_inv b \<Longrightarrow> groups_inv m \<Longrightarrow> bridge_inv (b\<lparr>br_groups := m\<rparr>)"
  by (simp add: bridge_inv_def)

lemma session_step_send: "session_step b (fst (br_send gw request b))"
  unfolding br_send_eq by (simp add: session_step_ops(2))

lemma update_ok_confirmation: "update_ok (\<lambda>node. apply_command_confirmation node response session endpoint)"
  using update_ok_simple(3) by (auto simp: update_ok_def apply_command_confirmation_def)

text \<open>A request made with an allocated session; the continuation only moves sessions.\<close>

lemma session_step_after_allocate:
  assumes "\<And>session c. session_step b c \<Longrightarrow> br_allocate b = (c, Ok session) \<Longrightarrow> session_step b (fst (f session c))"
  shows "session_step b (fst (step_then br_allocate f b))"
  using assms session_step_ops(3) [of b]
  by (cases rule: br_allocate_cases [of b]) (simp_all add: step_then_def)

lemma execute_group_step: "session_step b (fst (execute_group_command group_id action b))"
proof (cases "btree_get (br_groups b) group_id")
  case (Some g)
  let ?f = "\<lambda>session b. case br_gateway_result b of
      Err e \<Rightarrow> (br_release session b, Err e)
    | Panic \<Rightarrow> (b, Panic)
    | Ok gw \<Rightarrow>
        (case br_send gw (group_request session g group_id action) b of
           (b, Ok response) \<Rightarrow>
             (case product_group_result response of
                Some result \<Rightarrow>
                  if pgr_session_id result = session \<and> pgr_status result = 0 then (b, Ok ())
                  else (br_release session b,
                        Err (session_rejected ''product-group'' session (pgr_status result)))
              | None \<Rightarrow> (br_release session b, Err (UnexpectedReply ''product-group'' response)))
         | (b, Err e) \<Rightarrow> (br_release session b, Err e)
         | (b, Panic) \<Rightarrow> (b, Panic))"
  have "session_step b (fst (step_then br_allocate ?f b))"
  proof (rule session_step_after_allocate)
    fix session c assume c: "session_step b c"
    have d: "session_step b (fst (br_send gw request c))"
        "session_step b (br_release session (fst (br_send gw request c)))" for gw request
      by (rule session_step_trans [OF c session_step_send],
          rule session_step_trans [OF session_step_trans [OF c session_step_send] session_step_ops(1)])
    have e: "session_step b (br_release session c)" by (rule session_step_trans [OF c session_step_ops(1)])
    show "session_step b (fst (?f session c))"
      using c d e by (auto simp: br_send_eq split: outcome.splits option.splits)
  qed
  then show ?thesis using Some by (simp add: execute_group_command_def)
qed (simp add: execute_group_command_def session_step_refl)

text \<open>
  A step made while a gateway is connected, from the invariant to the invariant, with the same gateway.
\<close>

definition online_step :: "bridge \<Rightarrow> bridge \<Rightarrow> bool" where
  "online_step b c \<longleftrightarrow> bridge_inv c \<and> br_gateway c = br_gateway b"

lemma online_step_session:
  "bridge_inv b \<Longrightarrow> br_gateway b \<noteq> None \<Longrightarrow> session_step b c \<Longrightarrow> online_step b c"
  by (simp add: online_step_def bridge_inv_session_step session_step_simps)

lemma online_step_publishes: "bridge_inv b \<Longrightarrow> only_publishes T b c \<Longrightarrow> online_step b c"
  by (simp add: online_step_def bridge_inv_publishes only_publishes_simps)

lemma online_step_trans: "online_step b c \<Longrightarrow> online_step c d \<Longrightarrow> online_step b d"
  by (simp add: online_step_def)

text \<open>An accepted command is noted in the cache and published.\<close>

lemma accepted_online:
  assumes "bridge_inv b" "br_gateway b \<noteq> None"
  shows "online_step b (fst (publish_node_status w n (b\<lparr>br_cache :=
      fst (update_node (br_cache b) n (\<lambda>node. apply_command_confirmation node response session endpoint))\<rparr>)))"
    (is "online_step b (fst (publish_node_status w n ?c))")
proof -
  have "cache_inv (br_cache b)" using assms(1) by (simp add: bridge_inv_def)
  from faithful_update_node [OF this update_ok_confirmation] have "bridge_inv ?c"
    using bridge_inv_cache [OF assms] by (simp add: faithful_def)
  from online_step_publishes [OF this publishes_status_any] show ?thesis by (simp add: online_step_def)
qed

lemma request_status_then: "fst (step_then (request_status n) (\<lambda>_ b. (b, Err x)) b) = fst (request_status n b)"
  by (cases "request_status n b"; cases "snd (request_status n b)") (simp_all add: step_then_def)

text \<open>
  A cover command either only moved sessions and called the gateway, or was accepted: then the
  confirmation is noted in the cache and the status of the node is published.
\<close>

lemma execute_cover_cases:
  assumes "br_gateway b = Some gw"
  obtains (moved) "session_step b (fst (execute_cover_command w n action b))"
    | (accepted) c response session endpoint where "session_step b c"
      "fst (execute_cover_command w n action b) = fst (publish_node_status w n (c\<lparr>br_cache :=
         fst (update_node (br_cache c) n (\<lambda>node. apply_command_confirmation node response session endpoint))\<rparr>))"
proof (cases "btree_get (br_cache b) n")
  case None
  then show thesis using moved session_step_refl by (simp add: execute_cover_command_def)
next
  case (Some node)
  show thesis
  proof (cases "resolve_action node action")
    case (Ok endpoint)
    note eq = execute_cover_command_def assms Some Ok step_then_def br_gateway_result_def br_send_eq
    show thesis
    proof (cases rule: br_allocate_cases [of b])
      case (fresh session ids)
      let ?c = "b\<lparr>br_session_ids := ids\<rparr>"
      have c: "session_step b ?c" using session_step_ops(3) [of b] fresh(2) by simp
      have d: "session_step b (?c\<lparr>br_calls := calls\<rparr>)" "session_step b (br_release session ?c)"
        "session_step b (br_release session (?c\<lparr>br_calls := calls\<rparr>))" for calls
        by (intro session_step_trans [OF c] session_step_ops
            session_step_trans [OF session_step_ops(2) session_step_ops(1)])+
      show thesis
      proof (cases "command_request node session action")
        case (Ok request)
        note eq = eq fresh(2) Ok
        show thesis
        proof (cases "gw_send gw (br_calls b) request")
          case (Ok response)
          show thesis
          proof (cases "command_accepted response = Some 1")
            case True
            show thesis by (rule accepted [OF d(1), of "br_calls b @ [CallSend request]" response session endpoint])
                (simp add: eq Ok True)
          next
            case False
            then show thesis using d(3) by (intro moved) (auto simp: eq Ok split: option.split)
          qed
        qed (use d in \<open>(intro moved, simp add: eq)+\<close>)
      qed (use c d in \<open>(intro moved, simp add: eq fresh(2))+\<close>)
    qed (use session_step_ops(3) [of b] in \<open>(intro moved, simp add: eq)+\<close>)
  next
    case (Err e)
    then show thesis using Some session_step_refl request_status_step
      by (intro moved) (cases e, simp_all add: execute_cover_command_def request_status_then)
  qed (use moved Some session_step_refl in \<open>simp add: execute_cover_command_def\<close>)
qed

lemma execute_cover_online:
  assumes "bridge_inv b" "br_gateway b = Some gw"
  shows "online_step b (fst (execute_cover_command w n action b))"
proof -
  have step: "online_step b c" if "session_step b c" for c
    using online_step_session [OF assms(1) _ that] assms(2) by simp
  from assms(2) show ?thesis
  proof (cases rule: execute_cover_cases [where w = w and n = n and action = action])
    case (accepted c response session endpoint)
    have "bridge_inv c" "br_gateway c \<noteq> None"
      using step [OF accepted(1)] assms(2) by (simp_all add: online_step_def)
    from online_step_trans [OF step [OF accepted(1)] accepted_online [OF this]] accepted(2) show ?thesis by simp
  qed (rule step)
qed

text \<open>The three commands of a client, and the messages that carry them.\<close>

lemma reboot_inv:
  assumes "bridge_inv b"
  shows "bridge_inv (fst (execute_gateway_reboot w b))"
proof (cases "br_gateway b")
  case None
  then show ?thesis using assms by (simp add: execute_gateway_reboot_def step_then_def br_gateway_result_def)
next
  case (Some gw)
  let ?c = "b\<lparr>br_calls := br_calls b @ [CallShutdown True]\<rparr>"
  have c: "bridge_inv ?c" using assms by (simp add: bridge_inv_def)
  have "backoff_inv (backoff_reset (br_reconnect ?c))"
    using assms by (simp add: bridge_inv_def backoff_inv_reset)
  from bridge_inv_publishes [OF publishes_availability [OF UNIV_I] bridge_inv_offline [OF c this]] Some
  show ?thesis
    by (simp add: execute_gateway_reboot_def step_then_def br_gateway_result_def br_call_def Let_def)
qed

lemma handle_mqtt_message_inv:
  assumes "bridge_inv b"
  shows "bridge_inv (handle_mqtt_message w message b)"
proof (cases "br_gateway b")
  case (Some gw)
  have "bridge_inv (fst (execute_group_command k a b))" for k a
    using bridge_inv_session_step [OF execute_group_step _ assms] Some by simp
  moreover have "bridge_inv (fst (execute_cover_command w n a b))" for n a
    using execute_cover_online [OF assms Some] by (simp add: online_step_def)
  ultimately show ?thesis
    using assms reboot_inv [OF assms]
    by (simp add: handle_mqtt_message_def logged_def split: outcome.split MqttCommand.split)
qed (use assms in \<open>simp add: handle_mqtt_message_def split: outcome.split\<close>)

lemma handle_mqtt_result_inv:
  assumes "bridge_inv b"
  shows "bridge_inv (handle_mqtt_result w result b)"
proof -
  have connected: "bridge_inv (b\<lparr>br_mqtt_connected := c\<rparr>)" for c using assms by (simp add: bridge_inv_def)
  show ?thesis
    using assms connected handle_mqtt_message_inv bridge_inv_publishes [OF publishes_complete_snapshot connected]
      bridge_inv_publishes [OF publishes_availability [OF UNIV_I] connected]
    by (simp add: handle_mqtt_result_def logged_def Let_def split: outcome.split MqttEvent.split)
qed

text \<open>Notifications.\<close>

lemma groups_inv_update:
  "groups_inv m \<Longrightarrow> group_wf g \<Longrightarrow> groups_inv (btree_insert (gi_group_id g) g m)"
  "groups_inv m \<Longrightarrow> groups_inv (btree_remove k m)"
  by (auto simp: groups_inv_def btree_wf_insert btree_get_insert btree_wf_remove btree_get_remove split: if_splits)

lemma group_update_wf:
  "group_update_of m response = GroupSet g \<Longrightarrow> response_wf response \<Longrightarrow> group_wf g"
  by (cases response) (auto simp: group_update_of_def response_wf_def split: if_splits option.splits)

lemma apply_group_publishes:
  assumes "topic_groups (br_topics b) \<in> T" "\<And>g. group_info (br_topics b) g \<in> T" "discovery_topics \<subseteq> T"
  obtains m where "only_publishes T (b\<lparr>br_groups := m\<rparr>) (fst (apply_group_response w response b))"
    "m = br_groups b \<or> (\<exists>k. m = btree_remove k (br_groups b))
     \<or> (\<exists>g. group_update_of (br_groups b) response = GroupSet g \<and> m = btree_insert (gi_group_id g) g (br_groups b))"
proof (cases "group_update_of (br_groups b) response")
  case (GroupSet g)
  have "only_publishes T (b\<lparr>br_groups := btree_insert (gi_group_id g) g (br_groups b)\<rparr>)
      (fst (apply_group_response w response b))"
    unfolding apply_group_response_def GroupSet using assms only_publishes_simps(2)
    by (auto simp: Let_def only_publishes_refl intro!: only_publishes_then publishing)
  then show ?thesis using GroupSet that by blast
next
  case (GroupGone k)
  show ?thesis
  proof (cases "btree_get (br_groups b) k")
    case (Some g)
    have "only_publishes T (b\<lparr>br_groups := btree_remove k (br_groups b)\<rparr>)
        (fst (apply_group_response w response b))"
      unfolding apply_group_response_def GroupGone using assms only_publishes_simps(2)
      by (auto simp: Some Let_def only_publishes_refl intro!: only_publishes_then publishing)
    then show ?thesis using that by blast
  qed (use that [of "br_groups b"] in \<open>simp add: apply_group_response_def GroupGone only_publishes_refl\<close>)
qed (use that [of "br_groups b"] in \<open>simp add: apply_group_response_def only_publishes_refl\<close>)

lemma apply_group_online:
  assumes "bridge_inv b" "response_wf response"
  shows "online_step b (fst (apply_group_response w response b))"
proof -
  obtain m where m: "only_publishes UNIV (b\<lparr>br_groups := m\<rparr>) (fst (apply_group_response w response b))"
    "m = br_groups b \<or> (\<exists>k. m = btree_remove k (br_groups b))
     \<or> (\<exists>g. group_update_of (br_groups b) response = GroupSet g \<and> m = btree_insert (gi_group_id g) g (br_groups b))"
    by (rule apply_group_publishes [of b UNIV w response]) auto
  have "groups_inv (br_groups b)" using assms(1) by (simp add: bridge_inv_def)
  then have "groups_inv m" using m(2) groups_inv_update group_update_wf assms(2) by blast
  from online_step_publishes [OF bridge_inv_groups [OF assms(1) this] m(1)] show ?thesis
    by (simp add: online_step_def)
qed

lemma publishes_info_any: "only_publishes UNIV b (fst (publish_node_info w n b))"
  by (auto simp: publish_node_info_def only_publishes_refl split: option.splits intro!: only_publishes_result)

lemma publishes_logged [publishing]: "only_publishes T b (fst (m b)) \<Longrightarrow> only_publishes T b (logged m b)"
  by (simp add: logged_def)

text \<open>What follows the update of the cache only publishes.\<close>

definition announce_update :: "world \<Rightarrow> bool \<Rightarrow> bool \<Rightarrow> NodeId option \<Rightarrow> bridge \<Rightarrow> bridge" where
  "announce_update w added changed updated b =
     (case updated of
        None \<Rightarrow> b
      | Some node_id \<Rightarrow>
          let b = (if added \<and> br_mqtt_connected b then logged (publish_node_inventory w) b else b);
              b = (if changed then logged (publish_node_info w node_id) b else b);
              b = (if changed then logged (publish_hass_discovery w) b else b)
          in (case btree_get (br_cache b) node_id of
                Some node \<Rightarrow> if is_controllable node then logged (publish_node_status w node_id) b else b
              | None \<Rightarrow> b))"

lemma handle_response_eq:
  "handle_response w response b =
     (let b = logged (apply_group_response w response) (br_release_finished response b);
          update = apply_response (br_cache b) response
      in announce_update w (node_added (br_cache b) response) (metadata_changed response) (snd update)
           (b\<lparr>br_cache := fst update\<rparr>))"
  unfolding handle_response_def announce_update_def Let_def split_beta by (rule refl)

lemma only_publishes_if:
  "(P \<Longrightarrow> only_publishes T b c) \<Longrightarrow> (\<not> P \<Longrightarrow> only_publishes T b d) \<Longrightarrow> only_publishes T b (if P then c else d)"
  by simp

lemma announce_publishes: "only_publishes UNIV b (announce_update w added changed updated b)"
proof (cases updated)
  case (Some n)
  let ?c = "if added \<and> br_mqtt_connected b then logged (publish_node_inventory w) b else b"
  let ?d = "if changed then logged (publish_node_info w n) ?c else ?c"
  let ?e = "if changed then logged (publish_hass_discovery w) ?d else ?d"
  have c: "only_publishes UNIV b ?c" by (intro only_publishes_if publishing) simp_all
  have d: "only_publishes UNIV ?c ?d"
    by (intro only_publishes_if publishes_logged publishes_info_any only_publishes_refl)
  have e: "only_publishes UNIV ?d ?e" by (intro only_publishes_if publishing) simp_all
  have "only_publishes UNIV ?e (announce_update w added changed updated b)"
    unfolding announce_update_def Some Let_def option.case
    by (split option.split) (intro conjI allI impI only_publishes_if publishes_logged publishes_status_any
        only_publishes_refl)
  then show ?thesis using c d e only_publishes_trans by blast
qed (simp add: announce_update_def only_publishes_refl)

lemma handle_response_inv:
  assumes "bridge_inv b" "br_gateway b \<noteq> None" "response_wf response"
  shows "bridge_inv (handle_response w response b)"
proof -
  let ?b = "br_release_finished response b"
  let ?c = "logged (apply_group_response w response) ?b"
  have "session_step b ?b"
    by (cases response) (simp_all add: br_release_finished_def session_step_ops(1) session_step_refl)
  from online_step_session [OF assms(1,2) this] have b: "online_step b ?b" .
  then have "online_step ?b ?c" using apply_group_online assms(3) by (simp add: online_step_def logged_def)
  with b have c: "bridge_inv ?c" "br_gateway ?c \<noteq> None" using assms(2) by (simp_all add: online_step_def)
  have "cache_inv (fst (apply_response (br_cache ?c) response))"
    using apply_response_faithful [OF _ assms(3)] c(1) by (simp add: bridge_inv_def faithful_def)
  from bridge_inv_publishes [OF announce_publishes bridge_inv_cache [OF c this]]
  show ?thesis by (simp add: handle_response_eq Let_def)
qed

lemma handle_response_simps:
  "br_cache (handle_response w response b) = fst (apply_response (br_cache b) response)"
  "br_gateway (handle_response w response b) = br_gateway b"
  "br_mqtt_connected (handle_response w response b) = br_mqtt_connected b"
  "br_session_ids (handle_response w response b) = br_session_ids (br_release_finished response b)"
proof -
  let ?b = "br_release_finished response b"
  have "session_step b ?b"
    by (cases response) (simp_all add: br_release_finished_def session_step_ops(1) session_step_refl)
  note b = session_step_simps [OF this]
  obtain m where "only_publishes UNIV (?b\<lparr>br_groups := m\<rparr>) (fst (apply_group_response w response ?b))"
    by (rule apply_group_publishes [of ?b UNIV w response]) auto
  note c = only_publishes_simps [OF this]
  show "br_cache (handle_response w response b) = fst (apply_response (br_cache b) response)"
    "br_gateway (handle_response w response b) = br_gateway b"
    "br_mqtt_connected (handle_response w response b) = br_mqtt_connected b"
    "br_session_ids (handle_response w response b) = br_session_ids (br_release_finished response b)"
    using only_publishes_simps(3,6,8,9) [OF announce_publishes] b c
    by (simp_all add: handle_response_eq Let_def logged_def)
qed

text \<open>An event of the gateway that a decoded frame stands behind.\<close>

definition event_genuine :: "received \<Rightarrow> bool" where
  "event_genuine event \<longleftrightarrow>
     (\<forall>response. event = Received (Notification response) \<longrightarrow> (\<exists>f. Response_decode f = Ok response))"

lemma handle_gateway_event_inv:
  assumes "bridge_inv b" "br_gateway b \<noteq> None" "event_genuine event"
  shows "bridge_inv (handle_gateway_event w event b)"
proof (cases event)
  case (Received e)
  have "bridge_inv (handle_response w response b)" if "e = Notification response" for response
    using handle_response_inv [OF assms(1,2)] assms(3) Received that Response_decode_wf
    by (auto simp: event_genuine_def)
  moreover have "bridge_inv (br_release session b)" for session
    using bridge_inv_session_step [OF session_step_ops(1) assms(2,1)] .
  ultimately show ?thesis using Received assms(1) bridge_inv_gateway_failed by (cases e) simp_all
qed (use assms(1) bridge_inv_gateway_failed in simp_all)

text \<open>The timers.\<close>

lemma heartbeat_inv:
  assumes "bridge_inv b"
  shows "bridge_inv (heartbeat w b)"
proof -
  have "bridge_inv (b\<lparr>br_calls := calls\<rparr>)" for calls using assms by (simp add: bridge_inv_def)
  then show ?thesis using assms bridge_inv_gateway_failed
    by (auto simp: heartbeat_def br_call_def split: option.split outcome.split)
qed

lemma refresh_inv:
  assumes "bridge_inv b" "br_gateway b \<noteq> None"
  shows "bridge_inv (refresh_stationary_nodes b)"
proof -
  have "bridge_inv (foldl (\<lambda>b n. logged (request_status n) b) b ns)" for ns
    using assms
  proof (induction ns arbitrary: b)
    case (Cons n ns)
    have "online_step b (logged (request_status n) b)"
      using online_step_session [OF Cons.prems request_status_step] by (simp add: logged_def)
    then show ?case using Cons by (simp add: online_step_def)
  qed simp
  then show ?thesis by (simp add: refresh_stationary_nodes_def)
qed

text \<open>A set-up that was prepared with a connected gateway.\<close>

definition setup_genuine :: "(bridge_error, PreparedGateway) outcome \<Rightarrow> bool" where
  "setup_genuine result \<longleftrightarrow>
     (\<forall>p. result = Ok p \<longrightarrow>
        (\<exists>answers arrivals stopped password calls.
           prepare_gateway (Ok (connected_gateway answers arrivals stopped)) NotCancelled password = (calls, Ok p)))"

lemma groups_inv_group_map: "list_all group_wf found \<Longrightarrow> groups_inv (group_map found)"
proof -
  have "groups_inv m \<Longrightarrow> list_all group_wf found \<Longrightarrow> groups_inv (foldl (\<lambda>m g. btree_insert (gi_group_id g) g m) m found)" for m
    by (induction found arbitrary: m) (simp_all add: groups_inv_update(1))
  moreover have "groups_inv []" by (simp add: groups_inv_def)
  ultimately show "list_all group_wf found \<Longrightarrow> groups_inv (group_map found)" by (simp add: group_map_def)
qed

lemma prepared_inv:
  assumes "setup_genuine (Ok p)"
  shows "cache_inv (prep_cache p)" "groups_inv (prep_groups p)" "allocator_inv (prep_session_ids p)"
proof -
  from assms obtain answers arrivals stopped password calls where prepared:
    "prepare_gateway (Ok (connected_gateway answers arrivals stopped)) NotCancelled password = (calls, Ok p)"
    by (auto simp: setup_genuine_def)
  then obtain i where i: "initialize_gateway (connected_gateway answers arrivals stopped) password [] = (calls, Ok i)"
      "prep_cache p = ig_cache i" "prep_groups p = ig_groups i" "prep_session_ids p = ig_session_ids i"
    by (auto simp: prepare_gateway_def split: outcome.splits prod.splits)
  from connected.initialize_Ok [OF i(1)] i(2-)
  have "cache_inv (prep_cache p) \<and> groups_inv (prep_groups p) \<and> allocator_inv (prep_session_ids p)"
    by (metis connected.groups_wf groups_inv_group_map)
  then show "cache_inv (prep_cache p)" "groups_inv (prep_groups p)" "allocator_inv (prep_session_ids p)" by blast+
qed

text \<open>The state an accepted set-up installs before it publishes.\<close>

abbreviation installed :: "PreparedGateway \<Rightarrow> bridge \<Rightarrow> bridge" where
  "installed p b \<equiv> b\<lparr>br_setup := False, br_gateway := Some (prep_gateway p), br_events := True,
      br_cache := prep_cache p, br_groups := prep_groups p, br_session_ids := prep_session_ids p,
      br_reconnect := backoff_reset (br_reconnect b), br_calls := prep_calls p\<rparr>"

lemma setup_publishes: "only_publishes UNIV (installed p b) (handle_setup_result w (Ok p) b)"
proof -
  have "only_publishes UNIV c (logged (publish_complete_snapshot w)
      (logged (clear_removed_groups w gs) (logged (clear_removed_nodes w ns) c)))" for gs ns c
  proof -
    have nodes: "only_publishes UNIV c (logged (clear_removed_nodes w ns) c)"
      by (rule publishes_logged [OF publishes_clear_nodes])
    have groups: "only_publishes UNIV d (logged (clear_removed_groups w gs) d)" for d
      by (rule publishes_logged [OF publishes_clear_groups]) simp_all
    have snapshot: "only_publishes UNIV d (logged (publish_complete_snapshot w) d)" for d
      by (rule publishes_logged [OF publishes_complete_snapshot])
    show ?thesis by (rule only_publishes_trans [OF only_publishes_trans [OF nodes groups] snapshot])
  qed
  then show ?thesis by (simp add: handle_setup_result_def Let_def only_publishes_refl)
qed

lemma handle_setup_result_inv:
  assumes "bridge_inv b" "br_setup b" "setup_genuine result"
  shows "bridge_inv (handle_setup_result w result b)"
proof (cases "\<exists>p. result = Ok p")
  case True
  then obtain p where p: "result = Ok p" by blast
  have "bridge_inv (installed p b)"
    using assms(1) prepared_inv assms(3) p by (simp add: bridge_inv_def backoff_inv_reset)
  then show ?thesis using bridge_inv_publishes [OF setup_publishes] p by blast
next
  case False
  obtain backoff delay where n: "next_delay (w_random w) (br_reconnect b) = (backoff, delay)"
    by (rule prod.exhaust)
  then have "backoff_inv backoff"
    using assms(1) backoff_inv_next [of "br_reconnect b" "w_random w"] by (simp add: bridge_inv_def)
  then have "bridge_inv (b\<lparr>br_setup := False, br_reconnect := backoff, br_next_reconnect := w_now w + delay\<rparr>)"
    using assms(1) by (auto simp: bridge_inv_def)
  from bridge_inv_publishes [OF publishes_availability [OF UNIV_I] this]
  show ?thesis using False n by (cases result) (simp_all add: handle_setup_result_def Let_def)
qed

section \<open>The states of the loop\<close>

definition genuine :: "bridge_input \<Rightarrow> bool" where
  "genuine input \<longleftrightarrow>
     (case input of
        GatewayEvent event \<Rightarrow> event_genuine event
      | SetupFinished result \<Rightarrow> setup_genuine result
      | _ \<Rightarrow> True)"

lemma bridge_select_inv:
  assumes "bridge_inv b" "input_enabled w input b" "genuine input"
  shows "bridge_inv (bridge_select w input b)"
proof (cases input)
  case (GatewayEvent event)
  then have "br_gateway b \<noteq> None" using assms by (simp add: input_enabled_def bridge_inv_def)
  then show ?thesis using assms GatewayEvent handle_gateway_event_inv by (simp add: genuine_def)
next
  case (SetupFinished result)
  then show ?thesis using assms handle_setup_result_inv by (simp add: genuine_def input_enabled_def)
next
  case ReconnectDue
  then show ?thesis using assms(1,2) by (simp add: input_enabled_def start_gateway_setup_def bridge_inv_def)
next
  case RefreshTick
  then show ?thesis using assms(1,2) refresh_inv by (simp add: input_enabled_def)
qed (use assms(1) handle_mqtt_result_inv heartbeat_inv in simp_all)

text \<open>
  The states between two iterations of \<open>run_until\<close>, from the state \<open>start\<close>, with environments from a
  given set.
\<close>

inductive bridge_reaches :: "world set \<Rightarrow> bridge \<Rightarrow> bridge \<Rightarrow> bool" for W start where
  reaches_start: "bridge_reaches W start start"
| reaches_select: "bridge_reaches W start b \<Longrightarrow> w \<in> W \<Longrightarrow> input_enabled w input b \<Longrightarrow> genuine input \<Longrightarrow>
     bridge_reaches W start (bridge_select w input b)"

text \<open>A new bridge. A delay is a \<open>Duration\<close>, which is bounded.\<close>

lemma bridge_inv_new:
  assumes "VeluxMqttBridge_new read_file now config = Ok (b, mqtt)"
    "bc_reconnect_max_delay config \<le> DURATION_MAX"
  shows "bridge_inv b"
proof -
  obtain c where c: "VeluxMqttBridgeConfig_validate config = (c, Ok ())"
      "br_reconnect b = ReconnectBackoff_new (bc_reconnect_min_delay c) (bc_reconnect_max_delay c)"
      "br_cache b = []" "br_groups b = []" "br_gateway b = None" "\<not> br_events b" "\<not> br_setup b"
      "br_session_ids b = SessionIdAllocator_new"
    using assms(1) by (auto simp: VeluxMqttBridge_new_def outcome_iffs Let_def split: prod.splits)
  then have "bc_reconnect_min_delay c \<le> bc_reconnect_max_delay c" "bc_reconnect_max_delay c = bc_reconnect_max_delay config"
    by (auto simp: VeluxMqttBridgeConfig_validate_def Let_def outcome_iffs split_beta split: if_splits)
  then show ?thesis using c assms(2) backoff_inv_new
    by (simp add: bridge_inv_def cache_inv_def groups_inv_def allocator_inv_ops)
qed

lemma bridge_reaches_inv: "bridge_reaches W start b \<Longrightarrow> bridge_inv start \<Longrightarrow> bridge_inv b"
  by (induction rule: bridge_reaches.induct) (simp_all add: bridge_select_inv)

lemma new_bridge_idle:
  assumes "VeluxMqttBridge_new read_file now config = Ok (b, mqtt)"
  shows "br_gateway b = None" "\<not> br_setup b" "br_next_reconnect b = now"
  using assms by (auto simp: VeluxMqttBridge_new_def outcome_iffs Let_def split: prod.splits)

section \<open>Shutdown\<close>

text \<open>The calls made on a gateway that was being set up, when the set-up is cancelled by the shutdown.\<close>

lemma prepared_calls_closed:
  assumes "prepare_gateway (Ok (connected_gateway answers arrivals stopped)) cancel password = (calls, r)"
    "cancel \<noteq> CancelledBeforeConnect"
  shows "case r of
      Ok p \<Rightarrow> prep_calls p = calls \<and> (\<forall>x. CallShutdown x \<notin> set calls)
    | Err e \<Rightarrow> \<exists>before. calls = before @ [CallShutdown False] \<and> (\<forall>x. CallShutdown x \<notin> set before)
    | Panic \<Rightarrow> False"
proof -
  let ?gw = "connected_gateway answers arrivals stopped"
  obtain cs i where init: "initialize_gateway ?gw password [] = (cs, i)" by (rule prod.exhaust)
  have cs: "CallShutdown x \<notin> set cs" "i \<noteq> Panic" for x
    using connected.initialize_calls [where password = password] init by (metis fst_conv, metis snd_conv)
  then have "CallShutdown x \<notin> set (take n cs)" for x n by (meson in_set_takeD)
  with cs show ?thesis
    using assms init by (cases cancel; cases i) (auto simp: prepare_gateway_def)
qed

lemma bridge_shutdown_eq:
  assumes "bridge_shutdown w task disconnected b = (c, prepared_calls, r)"
  shows "c = (let b' = publish_availability w False (b\<lparr>br_setup := False\<rparr>)
      in case br_gateway b of
           None \<Rightarrow> b'
         | Some gw \<Rightarrow> b'\<lparr>br_gateway := None,
             br_calls := br_calls b @ [CallShutdown (bc_reboot_on_shutdown (br_config b))]\<rparr>)"
    "prepared_calls = (if br_setup b then
        (case GatewaySetup_cancel task of
           Some p \<Rightarrow> prep_calls p @ [CallShutdown (bc_reboot_on_shutdown (br_config b))] | None \<Rightarrow> []) else [])"
    "r = (if br_mqtt_connected b then map_err MqttFailure disconnected else Ok ())"
proof -
  have "only_publishes UNIV (b\<lparr>br_setup := False\<rparr>) (publish_availability w False (b\<lparr>br_setup := False\<rparr>))"
    by (rule publishes_availability [OF UNIV_I])
  note kept = only_publishes_simps [OF this]
  show "c = (let b' = publish_availability w False (b\<lparr>br_setup := False\<rparr>)
      in case br_gateway b of
           None \<Rightarrow> b'
         | Some gw \<Rightarrow> b'\<lparr>br_gateway := None,
             br_calls := br_calls b @ [CallShutdown (bc_reboot_on_shutdown (br_config b))]\<rparr>)"
    "prepared_calls = (if br_setup b then
        (case GatewaySetup_cancel task of
           Some p \<Rightarrow> prep_calls p @ [CallShutdown (bc_reboot_on_shutdown (br_config b))] | None \<Rightarrow> []) else [])"
    "r = (if br_mqtt_connected b then map_err MqttFailure disconnected else Ok ())"
    using assms kept by (auto simp: bridge_shutdown_def br_call_def Let_def split: option.split)
qed

section \<open>A run of the bridge\<close>

text \<open>
  An installation: the default configuration, a client that queues everything, a gateway without nodes
  and groups, and the announcement of a roller shutter.
\<close>

definition example_config :: VeluxMqttBridgeConfig where
  "example_config = VeluxMqttBridgeConfig_new (Klf200Config_new ''klf'') ''pw'' (MqttConfig_new ''broker'')"

definition example_world :: world where
  "example_world =
     \<lparr>w_publish = \<lambda>_ _. None, w_room = 256, w_to_vec = \<lambda>_. Ok [0x7B, 0x7D], w_serde = example_serde, w_now = 0,
      w_random = \<lambda>limit. limit\<rparr>"

definition example_answers :: "calls \<Rightarrow> Request \<Rightarrow> (klf_error + Frame) delivery" where
  "example_answers calls request =
     Replied (Inr (case request of
        PasswordEnter _ \<Rightarrow> Frame_new GW_PASSWORD_ENTER_CFM [0]
      | GetVersion \<Rightarrow> Frame_new GW_GET_VERSION_CFM (replicate 9 0)
      | GetProtocolVersion \<Rightarrow> Frame_new GW_GET_PROTOCOL_VERSION_CFM [0, 3, 0, 18]
      | HouseStatusMonitorDisable \<Rightarrow> Frame_new GW_HOUSE_STATUS_MONITOR_DISABLE_CFM []
      | GetAllNodesInformation \<Rightarrow> Frame_new GW_GET_ALL_NODES_INFORMATION_CFM [0, 0]
      | NodeGroup _ \<Rightarrow> Frame_new GW_GET_ALL_GROUPS_INFORMATION_CFM [2, 0]
      | _ \<Rightarrow> Frame_new GW_HOUSE_STATUS_MONITOR_ENABLE_CFM []))"

definition example_gateway :: gateway where
  "example_gateway =
     connected_gateway example_answers (\<lambda>_. [FrameArrived (Frame_new GW_GET_ALL_NODES_INFORMATION_FINISHED_NTF [])])
       (\<lambda>_. ChannelClosed)"

definition example_payload :: "u8 list" where
  "example_payload = 3 # replicate 68 0 @ [0, 0x80] @ replicate 53 0"

abbreviation example_frame :: Frame where
  "example_frame \<equiv> Frame_new GW_GET_ALL_NODES_INFORMATION_NTF example_payload"

lemma example_decoded:
  "Response_decode (Frame_new GW_PASSWORD_ENTER_CFM [0]) = Ok (PasswordEntered True)"
  "\<exists>v. Response_decode (Frame_new GW_GET_VERSION_CFM (replicate 9 0)) = Ok (Version v)"
  "\<exists>v. Response_decode (Frame_new GW_GET_PROTOCOL_VERSION_CFM [0, 3, 0, 18]) = Ok (ProtocolVersion v)"
  "Response_decode (Frame_new GW_GET_ALL_NODES_INFORMATION_CFM [0, 0]) = Ok (AllNodesInformationAccepted 0 0)"
  "\<exists>a. Response_decode (Frame_new GW_GET_ALL_GROUPS_INFORMATION_CFM [2, 0]) = Ok (AllGroupsAccepted a)
     \<and> aga_status a = 2"
  "Response_decode (Frame_new GW_HOUSE_STATUS_MONITOR_DISABLE_CFM []) =
     Ok (Acknowledgement GW_HOUSE_STATUS_MONITOR_DISABLE_CFM)"
  "Response_decode (Frame_new GW_HOUSE_STATUS_MONITOR_ENABLE_CFM []) =
     Ok (Acknowledgement GW_HOUSE_STATUS_MONITOR_ENABLE_CFM)"
  "Response_decode (Frame_new GW_GET_ALL_NODES_INFORMATION_FINISHED_NTF []) =
     Ok (Acknowledgement GW_GET_ALL_NODES_INFORMATION_FINISHED_NTF)"
  by (simp_all add: Response_decode_def decode_core_def decode_gateway_def decode_node_group_def
      decode_version_def Frame_new_def require_exact_def byte_at_def read_array_def byte_slice_def)

lemma example_announced:
  obtains i where "Response_decode example_frame = Ok (NodeInformation i)" "ni_node_id i = NodeId 3"
    "is_controllable (from_information i)"
proof -
  have "case decode_node_information example_payload GW_GET_ALL_NODES_INFORMATION_NTF of
      Ok i \<Rightarrow> ni_node_id i = NodeId 3 \<and> ni_node_type_sub_type i = 0x80 | _ \<Rightarrow> False"
    by code_simp
  then obtain i where i: "decode_node_information example_payload GW_GET_ALL_NODES_INFORMATION_NTF = Ok i"
      "ni_node_id i = NodeId 3" "ni_node_type_sub_type i = 0x80"
    by (cases "decode_node_information example_payload GW_GET_ALL_NODES_INFORMATION_NTF") simp_all
  then have "is_controllable (from_information i)"
    by (simp add: is_controllable_def from_information_def Let_def from_code_def for_actuator_def)
  moreover have "Response_decode example_frame = Ok (NodeInformation i)"
    using i(1) by (simp add: Response_decode_def decode_core_def Frame_new_def)
  ultimately show thesis using that i(2) by blast
qed

lemma example_prepared:
  obtains p calls where "prepare_gateway (Ok example_gateway) NotCancelled ''pw'' = (calls, Ok p)" "prep_cache p = []"
    "prep_session_ids p = SessionIdAllocator_new"
proof -
  note eq = example_gateway_def connected_gateway_def Klf200Client_gateway_def decoded_answers_def
    example_answers_def send_def send_unlocked_def
  have "gw_login example_gateway calls ''pw'' = Ok ()" for calls
    by (simp add: eq login_def password_enter_def encode_fixed_string_def as_bytes_def example_decoded)
  moreover obtain v where "gw_version example_gateway calls = Ok v" for calls
    using example_decoded(2) by (auto simp: eq version_def)
  moreover obtain v where "gw_protocol_version example_gateway calls = Ok v" for calls
    using example_decoded(3) by (auto simp: eq protocol_version_def)
  moreover have "gw_discover_nodes example_gateway calls = Ok []" for calls
    by (simp add: eq discover_nodes_def frame_event_def example_decoded)
  moreover have "gw_discover_groups example_gateway calls = Ok []" for calls
    using example_decoded(5) by (auto simp: eq discover_groups_def)
  moreover have "gw_send example_gateway calls HouseStatusMonitorDisable =
      Ok (Acknowledgement GW_HOUSE_STATUS_MONITOR_DISABLE_CFM)"
    "gw_send example_gateway calls HouseStatusMonitorEnable =
      Ok (Acknowledgement GW_HOUSE_STATUS_MONITOR_ENABLE_CFM)" for calls
    by (simp_all add: eq example_decoded)
  ultimately show thesis
    using that
    by (simp add: prepare_gateway_def initialize_gateway_def step_then_call group_map_def read_nodes_def
        group_members_def controllable_nodes_def btree_set_def reconcile_def Let_def step_return_def)
qed

lemma example_mqtt_valid:
  "TopicLayout_new (mc_base_topic (MqttConfig_new ''broker'')) = Ok \<lparr>tl_base = ''velux''\<rparr>"
  "MqttConfig_validate (MqttConfig_new ''broker'') = (MqttConfig_new ''broker'', Ok ())"
  by (simp_all add: MqttConfig_validate_def TopicLayout_new_def MqttConfig_new_def trim_def whitespace_def
      trim_leading.simps trim_matches_def Let_def)

lemma example_valid: "VeluxMqttBridgeConfig_validate example_config = (example_config, Ok ())"
  by (simp add: VeluxMqttBridgeConfig_validate_def example_config_def VeluxMqttBridgeConfig_new_def
      example_mqtt_valid Klf200Config_new_def trim_def whitespace_def trim_leading.simps
      DEFAULT_STATUS_REFRESH_def ConnectionSettings_default_def Let_def)

text \<open>The bridge starts, with or without the discovery.\<close>

lemma example_start:
  obtains b0 mqtt where "VeluxMqttBridge_new (\<lambda>_. Ok []) 0 (example_config\<lparr>bc_hass_discovery := h\<rparr>) = Ok (b0, mqtt)"
    "br_gateway b0 = None" "\<not> br_setup b0" "br_next_reconnect b0 = 0"
proof -
  let ?config = "example_config\<lparr>bc_hass_discovery := h\<rparr>"
  have m: "bc_mqtt ?config = MqttConfig_new ''broker''"
    by (simp add: example_config_def VeluxMqttBridgeConfig_new_def)
  have valid: "VeluxMqttBridgeConfig_validate ?config = (?config, Ok ())"
    by (simp add: VeluxMqttBridgeConfig_validate_def example_config_def VeluxMqttBridgeConfig_new_def
        example_mqtt_valid Klf200Config_new_def trim_def whitespace_def trim_leading.simps
        DEFAULT_STATUS_REFRESH_def ConnectionSettings_default_def Let_def)
  have "transport (\<lambda>_. Ok []) (MqttConfig_new ''broker'') = Ok TransportTcp"
    by (simp add: transport_def MqttConfig_new_def)
  then obtain mqtt where "MqttConnection_new (\<lambda>_. Ok []) (MqttConfig_new ''broker'') = Ok mqtt"
    by (simp add: MqttConnection_new_def example_mqtt_valid)
  then have "\<exists>b0 mqtt. VeluxMqttBridge_new (\<lambda>_. Ok []) 0 ?config = Ok (b0, mqtt)"
    by (simp add: VeluxMqttBridge_new_def valid example_mqtt_valid m)
  then show thesis using that new_bridge_idle by blast
qed

lemma example_new:
  obtains b0 mqtt where "VeluxMqttBridge_new (\<lambda>_. Ok []) 0 example_config = Ok (b0, mqtt)"
    "br_gateway b0 = None" "\<not> br_setup b0" "br_next_reconnect b0 = 0"
proof -
  have "example_config\<lparr>bc_hass_discovery := False\<rparr> = example_config"
    by (simp add: example_config_def VeluxMqttBridgeConfig_new_def)
  then show thesis using example_start [of False] that by metis
qed

text \<open>The bridge connects to the broker, sets the gateway up and hears of a roller shutter.\<close>

lemma example_run:
  assumes "example_world \<in> W" "br_gateway b0 = None" "\<not> br_setup b0" "br_next_reconnect b0 = 0"
  obtains b node where "bridge_reaches W b0 b" "br_gateway b \<noteq> None"
    "br_mqtt_connected b" "btree_get (br_cache b) (NodeId 3) = Some node" "is_controllable node" "vn_id node = NodeId 3"
    "br_session_ids b = SessionIdAllocator_new"
proof -
  obtain p calls where p: "prepare_gateway (Ok example_gateway) NotCancelled ''pw'' = (calls, Ok p)" "prep_cache p = []"
    "prep_session_ids p = SessionIdAllocator_new" by (rule example_prepared)
  obtain i where i: "Response_decode example_frame = Ok (NodeInformation i)" "ni_node_id i = NodeId 3"
    "is_controllable (from_information i)" by (rule example_announced)
  have genuine_p: "setup_genuine (Ok p)"
    using p(1) unfolding setup_genuine_def example_gateway_def by blast
  let ?w = example_world
  define b1 where "b1 = bridge_select ?w (MqttPolled (Ok Connected)) b0"
  define b2 where "b2 = bridge_select ?w ReconnectDue b1"
  define b3 where "b3 = bridge_select ?w (SetupFinished (Ok p)) b2"
  define b4 where "b4 = bridge_select ?w (GatewayEvent (Received (Notification (NodeInformation i)))) b3"
  have b1: "br_gateway b1 = None" "\<not> br_setup b1" "br_next_reconnect b1 = 0" "br_mqtt_connected b1"
    using assms(2-) only_publishes_simps [OF publishes_availability [OF UNIV_I]]
    by (simp_all add: b1_def handle_mqtt_result_def Let_def)
  have b2: "br_setup b2" "br_mqtt_connected b2" using b1 by (simp_all add: b2_def start_gateway_setup_def)
  have "only_publishes UNIV (installed p b2) b3" unfolding b3_def bridge_select.simps by (rule setup_publishes)
  note b3 = only_publishes_simps [OF this]
  have b4: "br_gateway b4 \<noteq> None" "br_mqtt_connected b4"
    "btree_get (br_cache b4) (NodeId 3) = Some (from_information i)"
    "br_session_ids b4 = SessionIdAllocator_new"
    using b3 b2(2) p(2,3) i(2)
    by (simp_all add: b4_def handle_response_simps apply_response_def br_release_finished_def)
  have reach1: "bridge_reaches W b0 b1"
    unfolding b1_def
    by (intro reaches_select reaches_start assms(1)) (simp_all add: input_enabled_def genuine_def)
  have reach2: "bridge_reaches W b0 b2"
    unfolding b2_def
    by (intro reaches_select reach1 assms(1)) (simp_all add: input_enabled_def genuine_def b1)
  have reach3: "bridge_reaches W b0 b3"
    unfolding b3_def
    by (intro reaches_select reach2 assms(1))
      (simp_all add: input_enabled_def genuine_def b2 genuine_p)
  have "bridge_reaches W b0 b4"
    unfolding b4_def
    by (intro reaches_select reach3 assms(1))
      (use i(1) b3 in \<open>auto simp: input_enabled_def genuine_def event_genuine_def\<close>)
  then show thesis by (rule that [OF _ b4(1-3) i(3) _ b4(4)]) (simp add: i(2))
qed

section \<open>Properties\<close>

text \<open>
  C7. In every state the bridge reaches, whatever the broker and the gateway deliver: the node cache and
  the group map are keyed by their contents, the bridge listens to events exactly while it has a gateway
  and never sets up a second one, the back-off stays within its limits, and while there is no gateway no
  session is in use and no node is reported as available.
\<close>

theorem bridge_invariant:
  assumes "VeluxMqttBridge_new read_file now config = Ok (b0, mqtt)"
    "bc_reconnect_max_delay config \<le> DURATION_MAX" "bridge_reaches W b0 b"
  shows "cache_inv (br_cache b) \<and> groups_inv (br_groups b) \<and> allocator_inv (br_session_ids b)
     \<and> (br_events b \<longleftrightarrow> br_gateway b \<noteq> None) \<and> \<not> (br_setup b \<and> br_gateway b \<noteq> None)
     \<and> rb_minimum (br_reconnect b) \<le> rb_current (br_reconnect b)
     \<and> rb_current (br_reconnect b) \<le> rb_maximum (br_reconnect b)
     \<and> (br_gateway b = None \<longrightarrow> active_sessions (br_session_ids b) = {}
          \<and> (\<forall>k node. btree_get (br_cache b) k = Some node \<longrightarrow> vn_availability node = Unavailable))"
  using bridge_reaches_inv [OF assms(3) bridge_inv_new [OF assms(1,2)]]
  unfolding bridge_inv_def backoff_inv_def by blast

theorem bridge_invariant_witness:
  "\<exists>b :: bridge. br_mqtt_connected b \<and> btree_keys (br_cache b) \<noteq> [] \<and> cache_inv (br_cache b)
     \<and> (br_events b \<longleftrightarrow> br_gateway b \<noteq> None)"
proof -
  obtain b0 mqtt where new: "VeluxMqttBridge_new (\<lambda>_. Ok []) 0 example_config = Ok (b0, mqtt)"
    "br_gateway b0 = None" "\<not> br_setup b0" "br_next_reconnect b0 = 0" by (rule example_new)
  obtain b node where run: "bridge_reaches UNIV b0 b" "br_mqtt_connected b"
    "btree_get (br_cache b) (NodeId 3) = Some node"
    using example_run [OF UNIV_I new(2-)] by metis
  have "bc_reconnect_max_delay example_config \<le> DURATION_MAX"
    by (simp add: example_config_def VeluxMqttBridgeConfig_new_def DURATION_MAX_def)
  note inv = bridge_invariant [OF new(1) this run(1)]
  have "btree_keys (br_cache b) \<noteq> []" using run(3) by auto
  with inv run(2) show ?thesis by blast
qed

text \<open>
  C8. The sessions in use follow what the gateway accepted: after a status request, a cover command or a
  group command there is either one more session, the fresh one that this request carried and the
  gateway accepted, or the same sessions as before, and then no answer accepted a session; no session is
  leaked and none is given back while the gateway still works on it.
\<close>

theorem sessions_follow_acceptance:
  assumes "allocator_inv (br_session_ids b)"
    "gw = Klf200Client_gateway (actor_answers frames) events stopped" "br_gateway b = Some gw"
    "c \<in> {fst (request_status n b), fst (execute_cover_command w n action b),
          fst (execute_group_command g gaction b)}"
  shows "(\<exists>session response. answered gw b c session response \<and> session_was_accepted response
        \<and> session \<notin> active_sessions (br_session_ids b)
        \<and> active_sessions (br_session_ids c) = insert session (active_sessions (br_session_ids b)))
     \<or> (active_sessions (br_session_ids c) = active_sessions (br_session_ids b)
        \<and> (\<forall>session response. answered gw b c session response \<longrightarrow> \<not> session_was_accepted response))"
proof -
  have "sessions_correct gw b c"
    using assms(3,4) actor.request_status_sessions [OF assms(1)] actor.execute_cover_sessions [OF assms(1)]
      actor.execute_group_sessions [OF assms(1)] unfolding assms(2) by blast
  then show ?thesis unfolding sessions_correct_def holds_session_def by blast
qed

text \<open>A gateway that never answers leaves no session in use.\<close>

theorem sessions_follow_acceptance_witness:
  "\<exists>b. br_gateway b \<noteq> None
     \<and> active_sessions (br_session_ids (fst (request_status (NodeId 1) b))) = active_sessions (br_session_ids b)"
proof -
  obtain b0 mqtt where new: "VeluxMqttBridge_new (\<lambda>_. Ok []) 0 example_config = Ok (b0, mqtt)"
    by (rule example_new)
  have "bc_reconnect_max_delay example_config \<le> DURATION_MAX"
    by (simp add: example_config_def VeluxMqttBridgeConfig_new_def DURATION_MAX_def)
  define gw where "gw = Klf200Client_gateway (actor_answers (\<lambda>_ _. None)) (\<lambda>_. []) (\<lambda>_. ChannelClosed)"
  let ?b = "b0\<lparr>br_gateway := Some gw\<rparr>"
  have inv: "allocator_inv (br_session_ids ?b)"
    using bridge_inv_new [OF new \<open>bc_reconnect_max_delay example_config \<le> DURATION_MAX\<close>]
    by (simp add: bridge_inv_def)
  have "gw_send gw calls request \<noteq> Ok response" for calls request response
    by (simp add: gw_def Klf200Client_gateway_def send_def send_unlocked_def actor_answers_def Let_def
        split: option.split)
  then have silent: "\<not> answered gw ?b c session response" for c session response by (simp add: answered_def)
  have "br_gateway ?b = Some gw" by simp
  from sessions_follow_acceptance [OF inv gw_def this insertI1] silent
  have "active_sessions (br_session_ids (fst (request_status (NodeId 1) ?b))) = active_sessions (br_session_ids ?b)"
    by blast
  then show ?thesis by (intro exI [of _ ?b]) simp
qed

text \<open>
  C14. The shutdown leaves no connection behind: the running gateway is shut down by the last call made on
  it; a gateway that is still being set up is shut down by exactly one call, its last, whether the set-up
  is cut short by the cancellation, fails on its own or turns out to be complete; and the last publication
  before the disconnect is that the bridge is offline.
\<close>

theorem shutdown_closes_every_gateway:
  assumes "prepare_gateway (Ok (connected_gateway answers arrivals stopped)) cancel password = (calls, task)"
    "cancel \<noteq> CancelledBeforeConnect" "bridge_shutdown w task disconnected b = (c, prepared_calls, r)"
  shows "br_gateway c = None \<and> \<not> br_setup c
     \<and> (br_gateway b \<noteq> None \<longrightarrow>
          br_calls c = br_calls b @ [CallShutdown (bc_reboot_on_shutdown (br_config b))])
     \<and> (br_setup b \<longrightarrow>
          (\<exists>before reboot. (if prepared_calls = [] then calls else prepared_calls) = before @ [CallShutdown reboot]
             \<and> (\<forall>x. CallShutdown x \<notin> set before)))
     \<and> (br_mqtt_connected b \<longrightarrow>
          (\<exists>answer. br_mqtt c = br_mqtt b @ [(availability_publication (br_topics b) False, answer)]))"
proof -
  let ?b = "publish_availability w False (b\<lparr>br_setup := False\<rparr>)"
  have pub: "only_publishes UNIV (b\<lparr>br_setup := False\<rparr>) ?b" by (rule publishes_availability [OF UNIV_I])
  have mqtt: "\<exists>answer. br_mqtt ?b = br_mqtt b @ [(availability_publication (br_topics b) False, answer)]"
    if "br_mqtt_connected b"
    using that by (simp add: publish_availability_def br_publish_def publish_def Let_def)
  note c = bridge_shutdown_eq [OF assms(3)]
  have "br_setup b \<longrightarrow> (\<exists>before reboot.
      (if prepared_calls = [] then calls else prepared_calls) = before @ [CallShutdown reboot]
      \<and> (\<forall>x. CallShutdown x \<notin> set before))"
    using prepared_calls_closed [OF assms(1,2)] c(2)
    by (cases task) (auto simp: GatewaySetup_cancel_def)
  then show ?thesis
    using c(1) mqtt only_publishes_simps [OF pub] by (cases "br_gateway b") (auto simp: Let_def)
qed

theorem shutdown_closes_every_gateway_witness:
  "\<exists>b task. br_setup b \<and> task \<noteq> Panic
     \<and> (\<exists>before reboot. fst (snd (bridge_shutdown example_world task (Ok ()) b)) = before @ [CallShutdown reboot]
          \<and> (\<forall>x. CallShutdown x \<notin> set before))"
proof -
  obtain b0 mqtt where new: "VeluxMqttBridge_new (\<lambda>_. Ok []) 0 example_config = Ok (b0, mqtt)"
    by (rule example_new)
  obtain p calls where p: "prepare_gateway (Ok example_gateway) NotCancelled ''pw'' = (calls, Ok p)"
    by (rule example_prepared)
  let ?b = "start_gateway_setup b0"
  obtain c prepared result where c: "bridge_shutdown example_world (Ok p) (Ok ()) ?b = (c, prepared, result)"
    by (metis prod_cases3)
  have set_up: "br_setup ?b" by (simp add: start_gateway_setup_def)
  have "prepared \<noteq> []" using c set_up by (auto simp: bridge_shutdown_def GatewaySetup_cancel_def Let_def)
  with shutdown_closes_every_gateway [OF p [unfolded example_gateway_def] _ c] set_up
  have "\<exists>before reboot. prepared = before @ [CallShutdown reboot] \<and> (\<forall>x. CallShutdown x \<notin> set before)"
    by simp
  then show ?thesis using set_up c by (intro exI [of _ ?b] exI [of _ "Ok p"]) simp
qed

end
