(* ===== verification/Bridge_Sync.thy ===== *)
theory Bridge_Sync
  imports Bridge_Invariant
begin

text \<open>
  The retained messages at the broker refine the node cache: while the bridge is connected to both
  sides, a subscriber sees for every cover exactly the status the cache holds.
\<close>

section \<open>What a subscriber sees\<close>

text \<open>The messages retained by the broker after the publications that were queued.\<close>

definition broker :: "bridge \<Rightarrow> retained_store" where
  "broker b = retain_all (map fst (filter (\<lambda>q. snd q = None) (br_mqtt b))) (\<lambda>_. None)"

text \<open>
  The abstract status of a cover: its snapshot as JSON, and its state, position and target as text.
\<close>

definition status_shown :: "to_vec \<Rightarrow> TopicLayout \<Rightarrow> retained_store \<Rightarrow> VeluxNode \<Rightarrow> bool" where
  "status_shown to_vec topics store node \<longleftrightarrow>
     (let n = vn_id node; snap = snapshot node
      in (\<exists>json. to_vec (JsonSnapshot snap) = Ok json \<and> store (node_status topics n) = Some json)
         \<and> store (node_state topics n) = Some (as_bytes (cover_state_label (state node)))
         \<and> store (node_position topics n) =
             Some (as_bytes (percent_text (map_option mqtt_open_percent (vn_current_position node))))
         \<and> store (node_target topics n) =
             Some (as_bytes (percent_text (map_option mqtt_open_percent (vn_target_position node)))))"

definition synced :: "to_vec \<Rightarrow> bridge \<Rightarrow> bool" where
  "synced to_vec b \<longleftrightarrow>
     (\<forall>k node. btree_get (br_cache b) k = Some node \<longrightarrow> is_controllable node \<longrightarrow>
        status_shown to_vec (br_topics b) (broker b) node)"

definition online :: "bridge \<Rightarrow> bool" where
  "online b \<longleftrightarrow> br_gateway b \<noteq> None \<and> br_mqtt_connected b"

text \<open>
  An environment in which the MQTT client takes every publication and the serialiser answers with a
  document, the same one for the same value.
\<close>

definition reliable :: "to_vec \<Rightarrow> world set" where
  "reliable to_vec = {w. all_queued (w_publish w) \<and> w_to_vec w = to_vec}"

definition documents :: "to_vec \<Rightarrow> bool" where
  "documents to_vec \<longleftrightarrow> (\<forall>value. \<exists>bytes. to_vec value = Ok bytes \<and> bytes \<noteq> [])"

section \<open>Publications at the broker\<close>

lemma broker_other: "only_publishes T b c \<Longrightarrow> topic \<notin> T \<Longrightarrow> broker c topic = broker b topic"
  by (auto simp: only_publishes_def broker_def intro!: retain_all_other) fastforce

lemma broker_same: "br_mqtt c = br_mqtt b \<Longrightarrow> broker c = broker b"
  by (simp add: broker_def)

lemma status_shown_cong:
  "(\<And>topic. topic \<in> status_topics topics (vn_id node) \<Longrightarrow> store' topic = store topic) \<Longrightarrow>
     status_shown to_vec topics store' node = status_shown to_vec topics store node"
  by (simp add: status_shown_def status_topics_def node_topics_def)

lemma status_topics_apart:
  "topic \<in> status_topics topics n \<Longrightarrow> topic \<notin> discovery_topics"
  "topic \<in> status_topics topics n \<Longrightarrow> topic \<noteq> topic_nodes topics"
  "topic \<in> status_topics topics n \<Longrightarrow> topic \<noteq> topic_groups topics"
  "topic \<in> status_topics topics n \<Longrightarrow> topic \<noteq> topic_state topics"
  "topic \<in> status_topics topics n \<Longrightarrow> topic \<noteq> group_info topics g"
  "topic \<in> status_topics topics n \<Longrightarrow> topic \<noteq> node_info topics m"
  "topic \<in> status_topics topics n \<Longrightarrow> topic \<in> set (node_topics topics m) \<longleftrightarrow> m = n"
proof -
  show "topic \<in> status_topics topics n \<Longrightarrow> topic \<notin> discovery_topics"
    by (auto simp: status_topics_def node_topics_def topic_defs discovery_topics_def append_eq_append_conv2)
  have in_topics: "topic \<in> status_topics topics n \<Longrightarrow> topic \<in> set (node_topics topics n)"
    by (auto simp: status_topics_def node_topics_def)
  show "topic \<in> status_topics topics n \<Longrightarrow> topic \<noteq> topic_nodes topics"
    "topic \<in> status_topics topics n \<Longrightarrow> topic \<noteq> topic_groups topics"
    "topic \<in> status_topics topics n \<Longrightarrow> topic \<noteq> topic_state topics"
    "topic \<in> status_topics topics n \<Longrightarrow> topic \<noteq> group_info topics g"
    using in_topics node_topics_not_global by blast+
  show "topic \<in> status_topics topics n \<Longrightarrow> topic \<noteq> node_info topics m"
    by (cases n; cases m) (auto simp: status_topics_def node_topics_def topic_defs id_topic_iff)
  show "topic \<in> status_topics topics n \<Longrightarrow> topic \<in> set (node_topics topics m) \<longleftrightarrow> m = n"
    using in_topics node_topics_iff by blast
qed

lemma status_shown_other:
  assumes "only_publishes T b c" "status_topics topics (vn_id node) \<inter> T = {}"
    "status_shown to_vec topics (broker b) node"
  shows "status_shown to_vec topics (broker c) node"
proof -
  have "broker c topic = broker b topic" if "topic \<in> status_topics topics (vn_id node)" for topic
    using broker_other [OF assms(1)] assms(2) that by blast
  with status_shown_cong [where store' = "broker c" and store = "broker b"] assms(3) show ?thesis by blast
qed

lemma synced_other:
  assumes "only_publishes T b c" "\<And>n. status_topics (br_topics b) n \<inter> T = {}" "synced to_vec b"
  shows "synced to_vec c"
  using assms status_shown_other [OF assms(1,2)] only_publishes_simps(2,6) [OF assms(1)]
  by (simp add: synced_def)

lemma synced_same:
  "synced to_vec b \<Longrightarrow> br_mqtt c = br_mqtt b \<Longrightarrow> br_cache c = br_cache b \<Longrightarrow> br_topics c = br_topics b \<Longrightarrow>
     synced to_vec c"
  unfolding synced_def using broker_same [of c b] by metis

text \<open>In a reliable environment nothing that is published fails.\<close>

lemma publish_result_reliable:
  "w \<in> reliable v \<Longrightarrow> publish_result w (Ok p) b = (b\<lparr>br_mqtt := br_mqtt b @ [(p, None)]\<rparr>, Ok ())"
  by (simp add: publish_result_def step_then_def step_return_def br_publish_def publish_def reliable_def
      all_queued_def)

lemma publish_results_reliable:
  "w \<in> reliable v \<Longrightarrow>
     publish_results w (Ok ps) b = (b\<lparr>br_mqtt := br_mqtt b @ map (\<lambda>p. (p, None)) ps\<rparr>, Ok ())"
  by (simp add: publish_results_def step_then_def step_return_def br_publish_all_def publish_all_queued
      reliable_def)

lemma br_publish_reliable:
  "w \<in> reliable v \<Longrightarrow> br_publish w p b = (b\<lparr>br_mqtt := br_mqtt b @ [(p, None)]\<rparr>, Ok ())"
  by (simp add: br_publish_def publish_def reliable_def all_queued_def)

lemma serialize_documents:
  "documents v \<Longrightarrow> \<exists>bytes. serialize_json v value = Ok bytes \<and> v value = Ok bytes \<and> bytes \<noteq> []"
proof -
  assume "documents v"
  then obtain bytes where "v value = Ok bytes" "bytes \<noteq> []" unfolding documents_def by blast
  then show ?thesis by (simp add: serialize_json_def)
qed

lemma as_bytes_Nil [simp]: "as_bytes s = [] \<longleftrightarrow> s = []" "[] = as_bytes s \<longleftrightarrow> s = []"
  by (auto simp: as_bytes_def)

lemma texts_not_Nil [simp]: "cover_state_label c \<noteq> []" "percent_text p \<noteq> []"
  by (cases c; simp) (simp add: percent_text_def split: option.split)

text \<open>A topic that holds the JSON document of a value.\<close>

definition document_at :: "to_vec \<Rightarrow> retained_store \<Rightarrow> string \<Rightarrow> json_source \<Rightarrow> bool" where
  "document_at to_vec store topic value \<longleftrightarrow> (\<exists>json. to_vec value = Ok json \<and> store topic = Some json)"

lemma document_other:
  "only_publishes T b c \<Longrightarrow> topic \<notin> T \<Longrightarrow> document_at v (broker c) topic value = document_at v (broker b) topic value"
  by (simp add: document_at_def broker_other)

lemma document_published:
  assumes "w \<in> reliable v" "documents v"
  obtains c where "publish_result w (map_ok (retained topic) (serialize_json (w_to_vec w) value)) b = (c, Ok ())"
    "only_publishes {topic} b c" "document_at v (broker c) topic value"
proof -
  obtain json where json: "serialize_json v value = Ok json" "v value = Ok json" "json \<noteq> []"
    using serialize_documents [OF assms(2)] by blast
  have w: "w_to_vec w = v" using assms(1) by (simp add: reliable_def)
  let ?c = "b\<lparr>br_mqtt := br_mqtt b @ [(retained topic json, None)]\<rparr>"
  have pub: "publish_result w (map_ok (retained topic) (serialize_json (w_to_vec w) value)) b = (?c, Ok ())"
    by (simp add: w json(1) publish_result_reliable [OF assms(1)])
  have "only_publishes {topic} b ?c"
    using only_publishes_result [of "Ok (retained topic json)" "{topic}" b w]
    by (simp add: publish_result_reliable [OF assms(1)] retained_def)
  moreover have "document_at v (broker ?c) topic value" using json(2,3) by (simp add: document_at_def broker_def)
  ultimately show thesis using that pub by blast
qed

text \<open>
  Publishing for each element of a list: when an element's publications do not disturb what another one
  shows, everything is shown in the end.
\<close>

lemma for_each_published:
  assumes each: "\<And>x b. br_topics b = topics \<Longrightarrow>
      \<exists>c. f x b = (c, Ok ()) \<and> only_publishes (T x) b c \<and> P x (broker c)"
    and undisturbed_all: "\<And>x ys b c. (\<And>y. y \<in> set ys \<Longrightarrow> key y \<noteq> key x) \<Longrightarrow>
      only_publishes (\<Union> (T ` set ys)) b c \<Longrightarrow> P x (broker b) \<Longrightarrow> P x (broker c)"
    and distinct: "distinct (map key xs)" and topics: "br_topics b = topics"
  shows "\<exists>c. step_for_each f xs b = (c, Ok ()) \<and> only_publishes (\<Union> (T ` set xs)) b c
    \<and> (\<forall>x \<in> set xs. P x (broker c))"
  using distinct topics
proof (induction xs arbitrary: b)
  case Nil
  show ?case by (simp add: step_return_def only_publishes_refl)
next
  case (Cons x xs)
  obtain c where c: "f x b = (c, Ok ())" "only_publishes (T x) b c" "P x (broker c)"
    using each [of b x] Cons.prems(2) by blast
  have "br_topics c = topics" using only_publishes_simps(2) [OF c(2)] Cons.prems(2) by simp
  with Cons obtain d where d: "step_for_each f xs c = (d, Ok ())" "only_publishes (\<Union> (T ` set xs)) c d"
    "\<forall>x \<in> set xs. P x (broker d)" by fastforce
  have "P x (broker d)"
  proof (rule undisturbed_all [OF _ d(2) c(3)])
    show "key y \<noteq> key x" if "y \<in> set xs" for y using that Cons.prems(1) by (auto simp: image_iff)
  qed
  moreover have "only_publishes (\<Union> (T ` set (x # xs))) b d"
    by (rule only_publishes_trans [OF only_publishes_mono [OF c(2)] only_publishes_mono [OF d(2)]]) auto
  ultimately show ?case using c(1) d(1,3) by (auto simp: step_then_def)
qed

text \<open>Publishing the status of a node shows it, and touches only its own topics.\<close>

lemma status_published:
  assumes "w \<in> reliable v" "documents v"
  obtains c where "publish_results w (status_publications (w_to_vec w) topics node) b = (c, Ok ())"
    "only_publishes (status_topics topics (vn_id node)) b c" "status_shown v topics (broker c) node"
proof -
  obtain json where json: "serialize_json v (JsonSnapshot (snapshot node)) = Ok json"
      "v (JsonSnapshot (snapshot node)) = Ok json" "json \<noteq> []"
    using serialize_documents [OF assms(2)] by blast
  have w: "w_to_vec w = v" using assms(1) by (simp add: reliable_def)
  let ?ps = "[retained (node_status topics (vn_id node)) json,
      retained (node_state topics (vn_id node)) (as_bytes (cover_state_label (state node))),
      retained (node_position topics (vn_id node))
        (as_bytes (percent_text (map_option mqtt_open_percent (vn_current_position node)))),
      retained (node_target topics (vn_id node))
        (as_bytes (percent_text (map_option mqtt_open_percent (vn_target_position node))))]"
  have ps: "status_publications (w_to_vec w) topics node = Ok ?ps"
    unfolding status_publications_def Let_def w json(1) by (simp add: snapshot_def)
  let ?c = "b\<lparr>br_mqtt := br_mqtt b @ map (\<lambda>p. (p, None)) ?ps\<rparr>"
  have "distinct (node_topics topics (vn_id node))" by (rule distinct_node_topics)
  then have "status_shown v topics (broker ?c) node"
    using json by (simp add: status_shown_def broker_def node_topics_def filter_map comp_def Let_def)
  moreover have pub: "publish_results w (status_publications (w_to_vec w) topics node) b = (?c, Ok ())"
    unfolding ps by (rule publish_results_reliable [OF assms(1)])
  moreover have "only_publishes (status_topics topics (vn_id node)) b ?c"
    using only_publishes_results [OF status_topics_in [of "w_to_vec w" topics node], of _ b w] pub
    by (metis fst_conv)
  ultimately show thesis using that by blast
qed

section \<open>The snapshot shows every cover\<close>

definition node_shown :: "to_vec \<Rightarrow> TopicLayout \<Rightarrow> VeluxNode \<Rightarrow> retained_store \<Rightarrow> bool" where
  "node_shown v topics node store \<longleftrightarrow>
     document_at v store (node_info topics (vn_id node)) (JsonNode (NodeMetadata_from node))
     \<and> (is_controllable node \<longrightarrow> status_shown v topics store node)"

lemma node_shown_other:
  assumes "only_publishes T b c" "set (node_topics topics (vn_id node)) \<inter> T = {}" "node_shown v topics node (broker b)"
  shows "node_shown v topics node (broker c)"
  using assms(3) status_shown_other [OF assms(1), where node = node and topics = topics] assms(2)
    document_other [OF assms(1), of "node_info topics (vn_id node)"]
  by (auto simp: node_shown_def status_topics_def node_topics_def)

lemma snapshot_node_published:
  assumes "w \<in> reliable v" "documents v"
  shows "\<exists>c. publish_snapshot_node w node b = (c, Ok ())
    \<and> only_publishes (set (node_topics (br_topics b) (vn_id node))) b c
    \<and> node_shown v (br_topics b) node (broker c)"
proof -
  obtain c where c: "publish_result w (info_publication (w_to_vec w) (br_topics b) node) b = (c, Ok ())"
      "only_publishes {node_info (br_topics b) (vn_id node)} b c"
      "document_at v (broker c) (node_info (br_topics b) (vn_id node)) (JsonNode (NodeMetadata_from node))"
    unfolding info_publication_def by (rule document_published [OF assms])
  obtain d where d: "publish_results w (status_publications (w_to_vec w) (br_topics b) node) c = (d, Ok ())"
      "only_publishes (status_topics (br_topics b) (vn_id node)) c d" "status_shown v (br_topics b) (broker d) node"
    by (rule status_published [OF assms])
  have eq: "publish_snapshot_node w node b = (if is_controllable node then d else c, Ok ())"
    using c(1) d(1) only_publishes_simps(2) [OF c(2)] by (simp add: publish_snapshot_node_def step_then_def)
  have "node_info (br_topics b) (vn_id node) \<notin> status_topics (br_topics b) (vn_id node)"
    using status_topics_apart(6) by blast
  from document_other [OF d(2) this] c(3) d(3)
  have "node_shown v (br_topics b) node (broker (if is_controllable node then d else c))"
    by (simp add: node_shown_def)
  moreover have "only_publishes (set (node_topics (br_topics b) (vn_id node))) b (if is_controllable node then d else c)"
    using publishes_snapshot_node [of b node _ w] eq by (metis fst_conv order_refl)
  ultimately show ?thesis using eq by blast
qed

lemma snapshot_nodes_published:
  assumes "w \<in> reliable v" "documents v" "distinct (map vn_id nodes)"
  shows "\<exists>c. step_for_each (publish_snapshot_node w) nodes b = (c, Ok ())
     \<and> only_publishes (\<Union>n \<in> set nodes. set (node_topics (br_topics b) (vn_id n))) b c
     \<and> (\<forall>node \<in> set nodes. node_shown v (br_topics b) node (broker c))"
proof (rule for_each_published [where key = vn_id and topics = "br_topics b"])
  fix node and c :: bridge assume "br_topics c = br_topics b"
  then show "\<exists>d. publish_snapshot_node w node c = (d, Ok ())
      \<and> only_publishes (set (node_topics (br_topics b) (vn_id node))) c d \<and> node_shown v (br_topics b) node (broker d)"
    using snapshot_node_published [OF assms(1,2), of node c] by metis
next
  fix n ms and c d :: bridge
  assume other: "\<And>m. m \<in> set ms \<Longrightarrow> vn_id m \<noteq> vn_id n"
    "only_publishes (\<Union>m \<in> set ms. set (node_topics (br_topics b) (vn_id m))) c d"
    "node_shown v (br_topics b) n (broker c)"
  have "set (node_topics (br_topics b) (vn_id n)) \<inter> (\<Union>m \<in> set ms. set (node_topics (br_topics b) (vn_id m))) = {}"
    using node_topics_iff other(1) by fastforce
  from node_shown_other [OF other(2) this other(3)] show "node_shown v (br_topics b) n (broker d)" .
qed (use assms(3) in simp_all)

lemma snapshot_groups_published:
  assumes "w \<in> reliable v" "documents v" "distinct (map gi_group_id gs)"
  shows "\<exists>c. step_for_each (publish_group_info w) gs b = (c, Ok ())
     \<and> only_publishes (\<Union>g \<in> set gs. {group_info (br_topics b) (gi_group_id g)}) b c
     \<and> (\<forall>g \<in> set gs. document_at v (broker c) (group_info (br_topics b) (gi_group_id g))
          (JsonGroup (GroupMetadata_from g)))"
proof (rule for_each_published [where key = gi_group_id and topics = "br_topics b"])
  fix g and c :: bridge assume topics: "br_topics c = br_topics b"
  show "\<exists>d. publish_group_info w g c = (d, Ok ()) \<and> only_publishes {group_info (br_topics b) (gi_group_id g)} c d
      \<and> document_at v (broker d) (group_info (br_topics b) (gi_group_id g)) (JsonGroup (GroupMetadata_from g))"
    unfolding publish_group_info_def group_info_publication_def topics
    by (rule document_published [OF assms(1,2)]) blast
next
  fix g hs and c d :: bridge
  assume other: "\<And>h. h \<in> set hs \<Longrightarrow> gi_group_id h \<noteq> gi_group_id g"
    "only_publishes (\<Union>h \<in> set hs. {group_info (br_topics b) (gi_group_id h)}) c d"
    "document_at v (broker c) (group_info (br_topics b) (gi_group_id g)) (JsonGroup (GroupMetadata_from g))"
  have "group_info (br_topics b) (gi_group_id g) \<notin> (\<Union>h \<in> set hs. {group_info (br_topics b) (gi_group_id h)})"
    using other(1) by fastforce
  from document_other [OF other(2) this] other(3)
  show "document_at v (broker d) (group_info (br_topics b) (gi_group_id g)) (JsonGroup (GroupMetadata_from g))" by blast
qed (use assms(3) in simp_all)

lemma cache_inv_ids:
  assumes "cache_inv cache"
  shows "map vn_id (map snd cache) = btree_keys cache" "distinct (btree_keys cache)"
proof -
  show d: "distinct (btree_keys cache)" using assms by (simp add: cache_inv_def btree_wf_distinct)
  then have "vn_id (snd q) = fst q" if "q \<in> set cache" for q
    using assms that by (cases q) (auto simp: cache_inv_def map_of_eq_Some_iff)
  then show "map vn_id (map snd cache) = btree_keys cache" by (simp add: comp_def)
qed

lemma groups_inv_ids:
  assumes "groups_inv m"
  shows "map gi_group_id (map snd m) = btree_keys m" "distinct (btree_keys m)"
proof -
  show d: "distinct (btree_keys m)" using assms by (simp add: groups_inv_def btree_wf_distinct)
  then have "gi_group_id (snd q) = fst q" if "q \<in> set m" for q
    using assms that by (cases q) (auto simp: groups_inv_def map_of_eq_Some_iff)
  then show "map gi_group_id (map snd m) = btree_keys m" by (simp add: comp_def)
qed

lemma node_inventory_published:
  assumes "w \<in> reliable v" "documents v"
  shows "\<exists>c. publish_node_inventory w b = (c, Ok ()) \<and> only_publishes {topic_nodes (br_topics b)} b c
    \<and> document_at v (broker c) (topic_nodes (br_topics b)) (JsonIds (map node_id_get (btree_keys (br_cache b))))"
  unfolding publish_node_inventory_def inventory_publication_def
  by (rule document_published [OF assms]) blast

lemma group_inventory_published:
  assumes "w \<in> reliable v" "documents v" "groups_inv (br_groups b)"
  shows "\<exists>c. publish_group_inventory w b = (c, Ok ()) \<and> only_publishes {topic_groups (br_topics b)} b c
    \<and> document_at v (broker c) (topic_groups (br_topics b)) (JsonIds (map group_id_get (btree_keys (br_groups b))))"
proof -
  have "map (group_id_get \<circ> gi_group_id) (map snd (br_groups b)) = map group_id_get (btree_keys (br_groups b))"
    using groups_inv_ids(1) [OF assms(3)] by (metis map_map)
  then show ?thesis
    unfolding publish_group_inventory_def groups_publication_def
    by (metis document_published [OF assms(1,2)])
qed

lemma discovery_apart:
  "topic_nodes topics \<notin> discovery_topics" "topic_groups topics \<notin> discovery_topics"
  "group_info topics g \<notin> discovery_topics" "set (node_topics topics n) \<inter> discovery_topics = {}"
  by (auto simp: topic_defs discovery_topics_def node_topics_def append_eq_append_conv2)

lemmas topics_apart = discovery_apart node_topics_not_global global_topics_distinct global_topics_distinct [symmetric]

text \<open>
  In a reliable environment a snapshot shows the identifiers of the nodes and of the groups, every node with
  its status, and every group, before it comes to the discovery, which may fail.
\<close>

definition snapshot_shown :: "to_vec \<Rightarrow> bridge \<Rightarrow> retained_store \<Rightarrow> bool" where
  "snapshot_shown v b store \<longleftrightarrow>
     document_at v store (topic_nodes (br_topics b)) (JsonIds (map node_id_get (btree_keys (br_cache b))))
     \<and> document_at v store (topic_groups (br_topics b)) (JsonIds (map group_id_get (btree_keys (br_groups b))))
     \<and> (\<forall>node \<in> set (map snd (br_cache b)). node_shown v (br_topics b) node store)
     \<and> (\<forall>g \<in> set (map snd (br_groups b)). document_at v store (group_info (br_topics b) (gi_group_id g))
          (JsonGroup (GroupMetadata_from g)))"

lemma snapshot_before_discovery:
  assumes "w \<in> reliable v" "documents v" "cache_inv (br_cache b)" "groups_inv (br_groups b)"
  obtains e where "only_publishes UNIV b e" "snapshot_shown v b (broker e)"
    "publish_complete_snapshot w b = step_then (publish_hass_discovery w)
       (\<lambda>_ b. br_publish w (availability_publication (br_topics b) True) b) e"
proof -
  define topics where "topics = br_topics b"
  obtain b1 where b1: "br_publish w (availability_publication topics False) b = (b1, Ok ())"
      "only_publishes {topic_state topics} b b1"
    using only_publishes_publish [of "availability_publication topics False" "{topic_state topics}" b w]
    by (simp add: br_publish_reliable [OF assms(1)] availability_publication_def retained_def)
  note s1 = only_publishes_simps [OF b1(2)]
  obtain b2 where b2: "publish_node_inventory w b1 = (b2, Ok ())" "only_publishes {topic_nodes topics} b1 b2"
      "document_at v (broker b2) (topic_nodes topics) (JsonIds (map node_id_get (btree_keys (br_cache b))))"
    using node_inventory_published [OF assms(1,2), of b1] unfolding s1 topics_def by blast
  note s2 = only_publishes_simps [OF b2(2)]
  have "groups_inv (br_groups b2)" using assms(4) s1 s2 by simp
  then obtain b3 where b3: "publish_group_inventory w b2 = (b3, Ok ())" "only_publishes {topic_groups topics} b2 b3"
      "document_at v (broker b3) (topic_groups topics) (JsonIds (map group_id_get (btree_keys (br_groups b))))"
    using group_inventory_published [OF assms(1,2), of b2] unfolding s1 s2 topics_def by blast
  note s3 = only_publishes_simps [OF b3(2)]
  have tb3: "br_topics b3 = topics" using s1 s2 s3 by (simp add: topics_def)
  obtain d where d: "step_for_each (publish_snapshot_node w) (map snd (br_cache b)) b3 = (d, Ok ())"
      "only_publishes (\<Union>n \<in> set (map snd (br_cache b)). set (node_topics topics (vn_id n))) b3 d"
      "\<forall>node \<in> set (map snd (br_cache b)). node_shown v topics node (broker d)"
    using snapshot_nodes_published [OF assms(1,2), of "map snd (br_cache b)" b3]
    unfolding cache_inv_ids(1) [OF assms(3)] tb3 using cache_inv_ids(2) [OF assms(3)] by blast
  note s4 = only_publishes_simps [OF d(2)]
  have td: "br_topics d = topics" using s4 tb3 by simp
  obtain e where e: "step_for_each (publish_group_info w) (map snd (br_groups b)) d = (e, Ok ())"
      "only_publishes (\<Union>g \<in> set (map snd (br_groups b)). {group_info topics (gi_group_id g)}) d e"
      "\<forall>g \<in> set (map snd (br_groups b)). document_at v (broker e) (group_info topics (gi_group_id g))
         (JsonGroup (GroupMetadata_from g))"
    using snapshot_groups_published [OF assms(1,2), of "map snd (br_groups b)" d]
    unfolding groups_inv_ids(1) [OF assms(4)] td using groups_inv_ids(2) [OF assms(4)] by blast
  note later = document_other [OF e(2)] document_other [OF d(2)] document_other [OF b3(2)]
  have "node_shown v topics node (broker e)" if "node \<in> set (map snd (br_cache b))" for node
    using node_shown_other [OF e(2)] d(3) that topics_apart by fastforce
  then have "snapshot_shown v b (broker e)"
    using b2(3) b3(3) e(3) by (simp add: snapshot_shown_def later topics_apart flip: topics_def)
  moreover have "only_publishes UNIV b e"
    using b1(2) b2(2) b3(2) d(2) e(2) only_publishes_mono [OF _ subset_UNIV] only_publishes_trans [of UNIV]
    by metis
  moreover have "publish_complete_snapshot w b = step_then (publish_hass_discovery w)
       (\<lambda>_ b. br_publish w (availability_publication (br_topics b) True) b) e"
    using b1(1) b2(1) b3(1) d(1) e(1) s1 s2 s3 s4
    by (simp add: publish_complete_snapshot_def step_then_def topics_def)
  ultimately show thesis using that by blast
qed

lemma snapshot_shows:
  assumes "w \<in> reliable v" "documents v" "cache_inv (br_cache b)" "groups_inv (br_groups b)"
  shows "snapshot_shown v b (broker (fst (publish_complete_snapshot w b)))"
proof -
  let ?topics = "br_topics b"
  obtain e where e: "only_publishes UNIV b e" "snapshot_shown v b (broker e)"
      "publish_complete_snapshot w b = step_then (publish_hass_discovery w)
         (\<lambda>_ b. br_publish w (availability_publication (br_topics b) True) b) e"
    by (rule snapshot_before_discovery [OF assms])
  have c: "only_publishes (insert (topic_state ?topics) discovery_topics) e (fst (publish_complete_snapshot w b))"
    unfolding e(3) using only_publishes_simps(2) [OF e(1)] only_publishes_simps(2)
    by (intro only_publishes_then publishes_discovery only_publishes_publish)
      (auto simp: availability_publication_def)
  have "node_shown v ?topics node (broker (fst (publish_complete_snapshot w b)))"
    if "node_shown v ?topics node (broker e)" for node
    using node_shown_other [OF c _ that] topics_apart by fastforce
  then show ?thesis
    using e(2) by (simp add: snapshot_shown_def document_other [OF c] topics_apart)
qed

lemma snapshot_synced:
  assumes "w \<in> reliable v" "documents v" "cache_inv (br_cache b)" "groups_inv (br_groups b)"
  shows "synced v (fst (publish_complete_snapshot w b))"
proof -
  note same = only_publishes_simps(2,6) [OF publishes_complete_snapshot [of b w]]
  have "node \<in> set (map snd (br_cache b))" if "btree_get (br_cache b) k = Some node" for k node
    using map_of_SomeD [OF that] by force
  then show ?thesis using snapshot_shows [OF assms] by (auto simp: synced_def same node_shown_def snapshot_shown_def)
qed

section \<open>Every step keeps the broker in step\<close>

text \<open>All covers but one are shown; publishing the status of that one completes the view.\<close>

definition synced_except :: "NodeId \<Rightarrow> to_vec \<Rightarrow> bridge \<Rightarrow> bool" where
  "synced_except n to_vec b \<longleftrightarrow>
     (\<forall>k node. k \<noteq> n \<longrightarrow> btree_get (br_cache b) k = Some node \<longrightarrow> is_controllable node \<longrightarrow>
        status_shown to_vec (br_topics b) (broker b) node)"

abbreviation other_topics :: "TopicLayout \<Rightarrow> string set" where
  "other_topics topics \<equiv> {topic. \<forall>n. topic \<notin> status_topics topics n}"

lemma other_topics_in:
  "group_info topics g \<in> other_topics topics" "topic_groups topics \<in> other_topics topics"
  "topic_nodes topics \<in> other_topics topics" "topic_state topics \<in> other_topics topics"
  "node_info topics n \<in> other_topics topics" "discovery_topics \<subseteq> other_topics topics"
  using status_topics_apart by blast+

lemma synced_except_other:
  assumes "only_publishes (other_topics (br_topics b)) b c" "synced_except n v b"
  shows "synced_except n v c"
  using assms(2) status_shown_other [OF assms(1)] only_publishes_simps(2,6) [OF assms(1)]
  unfolding synced_except_def by (metis (mono_tags, lifting) disjoint_iff mem_Collect_eq)

lemma synced_others: "only_publishes (other_topics (br_topics b)) b c \<Longrightarrow> synced v b \<Longrightarrow> synced v c"
  by (rule synced_other) auto

lemma synced_except_uncontrolled:
  "synced_except n v b \<Longrightarrow> (\<And>node. btree_get (br_cache b) n = Some node \<Longrightarrow> \<not> is_controllable node) \<Longrightarrow>
     synced v b"
  unfolding synced_def synced_except_def by metis

lemma node_status_synced:
  assumes "w \<in> reliable v" "documents v" "br_mqtt_connected b" "cache_inv (br_cache b)" "synced_except n v b"
  shows "synced v (fst (publish_node_status w n b))"
proof (cases "btree_get (br_cache b) n")
  case None
  then show ?thesis using assms(3) synced_except_uncontrolled [OF assms(5)] by (simp add: publish_node_status_def)
next
  case (Some node)
  then have n: "vn_id node = n" using assms(4) by (simp add: cache_inv_def)
  obtain c where c: "publish_results w (status_publications (w_to_vec w) (br_topics b) node) b = (c, Ok ())"
      "only_publishes (status_topics (br_topics b) (vn_id node)) b c" "status_shown v (br_topics b) (broker c) node"
    by (rule status_published [OF assms(1,2)])
  note same = only_publishes_simps(2,6) [OF c(2)]
  have "synced v c"
    unfolding synced_def same
  proof (intro allI impI)
    fix k m assume m: "btree_get (br_cache b) k = Some m" "is_controllable m"
    show "status_shown v (br_topics b) (broker c) m"
    proof (cases "k = n")
      case False
      have "vn_id m = k" using m(1) assms(4) by (simp add: cache_inv_def)
      then have "status_topics (br_topics b) (vn_id m) \<inter> status_topics (br_topics b) (vn_id node) = {}"
        using False n status_topics_apart(7) by (auto simp: status_topics_def node_topics_def)
      from status_shown_other [OF c(2) this] show ?thesis
        using assms(5) False m unfolding synced_except_def by blast
    qed (use m Some c(3) in simp)
  qed
  then show ?thesis using Some assms(3) c(1) by (simp add: publish_node_status_def)
qed

lemma announce_synced:
  assumes "w \<in> reliable v" "documents v" "br_mqtt_connected b" "cache_inv (br_cache b)"
    "case updated of None \<Rightarrow> synced v b | Some n \<Rightarrow> synced_except n v b"
  shows "synced v (announce_update w added changed updated b)"
proof (cases updated)
  case (Some n)
  let ?c = "if added \<and> br_mqtt_connected b then logged (publish_node_inventory w) b else b"
  let ?d = "if changed then logged (publish_node_info w n) ?c else ?c"
  let ?e = "if changed then logged (publish_hass_discovery w) ?d else ?d"
  let ?T = "other_topics (br_topics b)"
  have c: "only_publishes ?T b ?c"
    by (intro only_publishes_if publishes_logged publishing other_topics_in)
  have c': "br_topics ?c = br_topics b" "br_cache ?c = br_cache b" using only_publishes_simps [OF c] by blast+
  have d: "only_publishes ?T ?c ?d"
    by (intro only_publishes_if publishes_logged publishes_node(1) only_publishes_refl)
      (use assms(4) c' other_topics_in in \<open>simp_all only: c'\<close>)
  have e: "only_publishes ?T ?d ?e"
    by (intro only_publishes_if publishes_logged publishes_discovery only_publishes_refl other_topics_in)
  have be: "only_publishes ?T b ?e" using c d e only_publishes_trans by blast
  have except: "synced_except n v ?e" using synced_except_other [OF be] assms(5) Some by simp
  have e': "br_mqtt_connected ?e" "cache_inv (br_cache ?e)"
    using only_publishes_simps [OF be] assms(3,4) by metis+
  note published = node_status_synced [OF assms(1,2) e' except]
  show ?thesis
    unfolding announce_update_def Some Let_def option.case
    using published synced_except_uncontrolled [OF except]
    by (split option.split) (auto simp: logged_def split: if_splits)
qed (use assms(5) in \<open>simp add: announce_update_def\<close>)

lemma apply_group_synced:
  assumes "synced v b"
  shows "synced v (fst (apply_group_response w response b))"
    "br_cache (fst (apply_group_response w response b)) = br_cache b"
    "br_topics (fst (apply_group_response w response b)) = br_topics b"
    "br_mqtt_connected (fst (apply_group_response w response b)) = br_mqtt_connected b"
proof -
  obtain m where m: "only_publishes (other_topics (br_topics b)) (b\<lparr>br_groups := m\<rparr>)
      (fst (apply_group_response w response b))"
    by (rule apply_group_publishes [of b "other_topics (br_topics b)" w response]) (use other_topics_in in blast)+
  have "synced v (b\<lparr>br_groups := m\<rparr>)" by (rule synced_same [OF assms]) simp_all
  from synced_others [OF _ this] m show "synced v (fst (apply_group_response w response b))" by simp
  show "br_cache (fst (apply_group_response w response b)) = br_cache b"
    "br_topics (fst (apply_group_response w response b)) = br_topics b"
    "br_mqtt_connected (fst (apply_group_response w response b)) = br_mqtt_connected b"
    using only_publishes_simps [OF m] by simp_all
qed

lemma synced_except_cache:
  assumes "synced v b" "faithful (br_cache b) (cache, Some n)"
  shows "synced_except n v (b\<lparr>br_cache := cache\<rparr>)"
  using assms by (simp add: synced_def synced_except_def faithful_def broker_def)

lemma handle_response_synced:
  assumes "w \<in> reliable v" "documents v" "br_mqtt_connected b" "cache_inv (br_cache b)" "synced v b"
    "response_wf response"
  shows "synced v (handle_response w response b)"
proof -
  let ?b = "br_release_finished response b"
  let ?c = "logged (apply_group_response w response) ?b"
  have "session_step b ?b"
    by (cases response) (simp_all add: br_release_finished_def session_step_ops(1) session_step_refl)
  note b = session_step_simps [OF this]
  have "synced v ?b" using synced_same [OF assms(5)] b by blast
  note c = apply_group_synced [OF this, of w response]
  obtain cache updated where u: "apply_response (br_cache ?c) response = (cache, updated)" by (rule prod.exhaust)
  have "cache_inv (br_cache ?c)" using assms(4) b c(2) by (simp add: logged_def)
  from apply_response_faithful [OF this assms(6)] have f: "faithful (br_cache ?c) (cache, updated)" by (simp only: u)
  have "case updated of None \<Rightarrow> synced v (?c\<lparr>br_cache := cache\<rparr>) | Some n \<Rightarrow> synced_except n v (?c\<lparr>br_cache := cache\<rparr>)"
  proof (cases updated)
    case None
    then have "cache = br_cache ?c" using f by (simp add: faithful_def)
    then show ?thesis using None c(1) by (simp add: logged_def)
  next
    case (Some n)
    then show ?thesis using synced_except_cache [of v ?c cache n] c(1) f by (simp add: logged_def)
  qed
  moreover have "cache_inv cache" using f by (simp add: faithful_def)
  moreover have "br_mqtt_connected ?c" using assms(3) b c(4) by (simp add: logged_def)
  ultimately show ?thesis
    using announce_synced [OF assms(1,2), of "?c\<lparr>br_cache := cache\<rparr>" updated]
    by (simp add: handle_response_eq Let_def u)
qed

lemma update_node_other:
  "btree_wf cache \<Longrightarrow> k \<noteq> n \<Longrightarrow> btree_get (fst (update_node cache n f)) k = btree_get cache k"
  by (simp add: update_node_def split_beta btree_get_insert split: option.split)

lemma accepted_synced:
  assumes "w \<in> reliable v" "documents v" "br_mqtt_connected b" "cache_inv (br_cache b)" "synced v b"
  shows "synced v (fst (publish_node_status w n (b\<lparr>br_cache :=
      fst (update_node (br_cache b) n (\<lambda>node. apply_command_confirmation node response session endpoint))\<rparr>)))"
    (is "synced v (fst (publish_node_status w n (b\<lparr>br_cache := ?cache\<rparr>)))")
proof (rule node_status_synced [OF assms(1,2)])
  show "cache_inv (br_cache (b\<lparr>br_cache := ?cache\<rparr>))"
    using faithful_update_node [OF assms(4) update_ok_confirmation] by (simp add: faithful_def)
  have "btree_wf (br_cache b)" using assms(4) by (simp add: cache_inv_def)
  from update_node_other [OF this] show "synced_except n v (b\<lparr>br_cache := ?cache\<rparr>)"
    using assms(5) by (simp add: synced_def synced_except_def broker_def)
qed (simp add: assms(3))

lemma execute_cover_synced:
  assumes "w \<in> reliable v" "documents v" "br_mqtt_connected b" "cache_inv (br_cache b)" "synced v b"
    "br_gateway b = Some gw"
  shows "synced v (fst (execute_cover_command w n action b))"
proof -
  have step: "synced v c" if "session_step b c" for c
    using synced_same [OF assms(5)] session_step_simps [OF that] by blast
  from assms(6) show ?thesis
  proof (cases rule: execute_cover_cases [where w = w and n = n and action = action])
    case moved
    then show ?thesis by (rule step)
  next
    case (accepted c response session endpoint)
    note c = session_step_simps [OF accepted(1)]
    have "synced v c" using accepted(1) by (rule step)
    then show ?thesis
      using accepted_synced [OF assms(1,2), of c] assms(3,4) c accepted(2) by simp
  qed
qed

lemma publish_availability_gateway [simp]: "br_gateway (publish_availability w a b) = br_gateway b"
  by (rule only_publishes_simps [OF publishes_availability [OF UNIV_I]])

lemma gateway_failed_offline [simp]: "br_gateway (gateway_failed w b) = None"
  by (simp add: gateway_failed_def split_beta Let_def)

lemma refresh_step: "session_step b (refresh_stationary_nodes b)"
proof -
  have "session_step b (foldl (\<lambda>b n. logged (request_status n) b) b ns)" for ns
  proof (induction ns rule: rev_induct)
    case (snoc n ns)
    then show ?case using session_step_trans [OF _ request_status_step] by (simp add: logged_def)
  qed (simp add: session_step_refl)
  then show ?thesis by (simp add: refresh_stationary_nodes_def)
qed

section \<open>Views the bridge maintains\<close>

text \<open>
  A view is what a subscriber should find at the broker while the bridge is online. Whoever provides one
  shows that a snapshot establishes it, and that notifications, commands and the book-keeping of sessions
  keep it; then it holds on every state the loop reaches.
\<close>

locale maintained_view =
  fixes view :: "'v \<Rightarrow> bridge \<Rightarrow> bool" and worlds :: "'v \<Rightarrow> world set" and answers :: "'v \<Rightarrow> bool"
  assumes sessions: "view v b \<Longrightarrow> session_step b c \<Longrightarrow> view v c"
    and snapshot: "w \<in> worlds v \<Longrightarrow> answers v \<Longrightarrow> br_mqtt_connected b \<Longrightarrow> cache_inv (br_cache b) \<Longrightarrow> groups_inv (br_groups b) \<Longrightarrow>
      view v (fst (publish_complete_snapshot w b))"
    and notified: "w \<in> worlds v \<Longrightarrow> answers v \<Longrightarrow> br_mqtt_connected b \<Longrightarrow> bridge_inv b \<Longrightarrow> view v b \<Longrightarrow>
      response_wf response \<Longrightarrow> view v (handle_response w response b)"
    and commanded: "w \<in> worlds v \<Longrightarrow> answers v \<Longrightarrow> br_mqtt_connected b \<Longrightarrow> bridge_inv b \<Longrightarrow> view v b \<Longrightarrow>
      br_gateway b = Some gw \<Longrightarrow> view v (fst (execute_cover_command w n action b))"
begin

definition shown :: "'v \<Rightarrow> bridge \<Rightarrow> bool" where
  "shown v b \<longleftrightarrow> (online b \<longrightarrow> view v b)"

lemma shown_offline: "br_gateway b = None \<Longrightarrow> shown v b"
  by (simp add: shown_def online_def)

lemma shown_session:
  assumes "session_step b c" "shown v b"
  shows "shown v c"
  using assms(2) sessions [of v b c] session_step_simps [OF assms(1)] assms(1) by (simp add: shown_def online_def)

lemma handle_mqtt_message_shown:
  assumes "w \<in> worlds v" "answers v" "bridge_inv b" "shown v b"
  shows "shown v (handle_mqtt_message w message b)"
proof (cases "br_gateway b")
  case None
  then show ?thesis using assms(4) by (simp add: handle_mqtt_message_def split: outcome.split)
next
  case (Some gw)
  have "shown v (fst (execute_group_command k a b))" for k a
    by (rule shown_session [OF execute_group_step assms(4)])
  moreover have "shown v (fst (execute_gateway_reboot w b))"
    using Some by (intro shown_offline)
      (simp add: execute_gateway_reboot_def step_then_def br_gateway_result_def br_call_def Let_def)
  moreover have "shown v (fst (execute_cover_command w n a b))" for n a
  proof (cases "br_mqtt_connected b")
    case True
    then have "view v b" using assms(4) Some by (simp add: shown_def online_def)
    from commanded [OF assms(1,2) True assms(3) this Some] show ?thesis by (simp add: shown_def)
  next
    case False
    from Some have "br_mqtt_connected (fst (execute_cover_command w n a b)) = br_mqtt_connected b"
    proof (cases rule: execute_cover_cases [where w = w and n = n and action = a])
      case moved
      then show ?thesis by (rule session_step_simps)
    next
      case (accepted c response session endpoint)
      then show ?thesis
        using session_step_simps(5) [OF accepted(1)] only_publishes_simps(9) [OF publishes_status_any] by simp
    qed
    then show ?thesis using False by (simp add: shown_def online_def)
  qed
  ultimately show ?thesis
    using assms(4) by (simp add: handle_mqtt_message_def logged_def split: outcome.split MqttCommand.split)
qed

lemma handle_mqtt_result_shown:
  assumes "w \<in> worlds v" "answers v" "bridge_inv b" "shown v b"
  shows "shown v (handle_mqtt_result w result b)"
proof -
  let ?c = "b\<lparr>br_mqtt_connected := True\<rparr>"
  have "view v (fst (publish_complete_snapshot w ?c))"
    using snapshot [OF assms(1,2), of ?c] assms(3) by (simp add: bridge_inv_def)
  then have "shown v (fst (publish_complete_snapshot w ?c))" by (simp add: shown_def)
  moreover have "shown v (publish_availability w False ?c)" if "br_gateway b = None"
    using that by (intro shown_offline) simp
  moreover have "shown v (b\<lparr>br_mqtt_connected := False\<rparr>)" by (simp add: shown_def online_def)
  ultimately show ?thesis
    using assms(4) handle_mqtt_message_shown [OF assms]
    by (simp add: handle_mqtt_result_def logged_def Let_def split: outcome.split MqttEvent.split)
qed

lemma handle_gateway_event_shown:
  assumes "w \<in> worlds v" "answers v" "bridge_inv b" "shown v b" "br_gateway b \<noteq> None" "event_genuine event"
  shows "shown v (handle_gateway_event w event b)"
proof (cases event)
  case (Received e)
  have "shown v (handle_response w response b)" if "e = Notification response" for response
  proof (cases "br_mqtt_connected b")
    case True
    then have "view v b" using assms(4,5) by (simp add: shown_def online_def)
    moreover have "response_wf response"
      using assms(6) Received that Response_decode_wf by (auto simp: event_genuine_def)
    ultimately show ?thesis using notified [OF assms(1,2) True assms(3)] by (simp add: shown_def)
  qed (simp add: shown_def online_def handle_response_simps)
  then show ?thesis
    using Received assms(4) shown_session [OF session_step_ops(1) assms(4)] shown_offline
    by (cases e) simp_all
qed (simp_all add: shown_offline)

lemma handle_setup_result_shown:
  assumes "w \<in> worlds v" "answers v" "bridge_inv b" "br_setup b" "setup_genuine result"
  shows "shown v (handle_setup_result w result b)"
proof (cases "\<exists>p. result = Ok p")
  case True
  then obtain p where p: "result = Ok p" by blast
  let ?b = "installed p b"
  have cleared: "view v (logged (publish_complete_snapshot w)
      (logged (clear_removed_groups w gs) (logged (clear_removed_nodes w ns) ?b)))"
    if connected: "br_mqtt_connected b" for gs ns
  proof -
    have nodes: "only_publishes UNIV ?b (logged (clear_removed_nodes w ns) ?b)"
      by (intro publishes_logged publishing)
    have groups: "only_publishes UNIV c (logged (clear_removed_groups w gs) c)" for c
      by (intro publishes_logged publishing) simp_all
    show ?thesis
      using snapshot [OF assms(1,2)] only_publishes_simps [OF only_publishes_trans [OF nodes groups]]
        prepared_inv assms(5) p connected by (simp add: logged_def)
  qed
  show ?thesis
    using cleared p by (simp add: handle_setup_result_def Let_def shown_def online_def)
next
  case False
  have "br_gateway b = None" using assms(3,4) by (auto simp: bridge_inv_def)
  then show ?thesis using False
    by (cases result) (simp_all add: handle_setup_result_def Let_def split_beta shown_offline)
qed

lemma heartbeat_shown: "shown v b \<Longrightarrow> shown v (heartbeat w b)"
  using shown_session [OF session_step_ops(2)]
  by (auto simp: heartbeat_def br_call_def shown_offline split: option.split outcome.split)

lemma bridge_select_shown:
  assumes "w \<in> worlds v" "answers v" "bridge_inv b" "shown v b" "input_enabled w input b" "genuine input"
  shows "shown v (bridge_select w input b)"
proof (cases input)
  case (GatewayEvent event)
  then have "br_gateway b \<noteq> None" using assms(3,5) by (simp add: input_enabled_def bridge_inv_def)
  then show ?thesis using handle_gateway_event_shown [OF assms(1-4)] assms(6) GatewayEvent by (simp add: genuine_def)
next
  case (SetupFinished result)
  then show ?thesis
    using handle_setup_result_shown [OF assms(1-3)] assms(5,6) by (simp add: genuine_def input_enabled_def)
next
  case ReconnectDue
  then show ?thesis using assms(5) by (simp add: input_enabled_def start_gateway_setup_def shown_offline)
next
  case RefreshTick
  then show ?thesis using shown_session [OF refresh_step assms(4)] by simp
qed (use assms(4) handle_mqtt_result_shown [OF assms(1-4)] heartbeat_shown in simp_all)

lemma reaches_shown:
  assumes "answers v" "bridge_inv start" "br_gateway start = None"
  shows "bridge_reaches (worlds v) start b \<Longrightarrow> shown v b"
proof (induction rule: bridge_reaches.induct)
  case reaches_start
  show ?case by (rule shown_offline [OF assms(3)])
next
  case (reaches_select b w input)
  then show ?case
    using bridge_select_shown [OF _ assms(1)] bridge_reaches_inv [OF _ assms(2)] by blast
qed

lemma reaches_view:
  assumes "VeluxMqttBridge_new read_file now config = Ok (start, mqtt)"
    "bc_reconnect_max_delay config \<le> DURATION_MAX" "answers v" "bridge_reaches (worlds v) start b" "online b"
  shows "view v b"
  using reaches_shown [OF assms(3) bridge_inv_new [OF assms(1,2)] new_bridge_idle(1) [OF assms(1)] assms(4)] assms(5)
  by (simp add: shown_def)

end

interpretation status_view: maintained_view synced reliable documents
proof (unfold_locales, goal_cases)
  case (1 v b c)
  then show ?case using synced_same session_step_simps [OF 1(2)] by blast
next
  case (2 w v b)
  then show ?case by (intro snapshot_synced)
next
  case (3 w v b response)
  then show ?case by (intro handle_response_synced) (simp_all add: bridge_inv_def)
next
  case (4 w v b gw n action)
  then show ?case by (intro execute_cover_synced) (simp_all add: bridge_inv_def)
qed

section \<open>The availability topic never promises a gateway that is not there\<close>

definition honest :: "bridge \<Rightarrow> bool" where
  "honest b \<longleftrightarrow> br_mqtt_connected b \<and> br_gateway b = None \<longrightarrow>
     broker b (topic_state (br_topics b)) = Some (as_bytes OFFLINE_PAYLOAD)"

lemma offline_retained:
  assumes "w \<in> reliable v" "br_mqtt_connected b"
  shows "broker (publish_availability w False b) (topic_state (br_topics b)) = Some (as_bytes OFFLINE_PAYLOAD)"
  using assms(2)
  by (simp add: publish_availability_def br_publish_reliable [OF assms(1)] broker_def availability_publication_def
      OFFLINE_PAYLOAD_def)

lemma honest_offline:
  assumes "w \<in> reliable v"
  shows "honest (publish_availability w False b)"
  using offline_retained [OF assms] only_publishes_simps [OF publishes_availability [OF UNIV_I, of b w False]]
  by (simp add: honest_def)

lemma honest_gateway: "br_gateway b \<noteq> None \<Longrightarrow> honest b" "\<not> br_mqtt_connected b \<Longrightarrow> honest b"
  by (auto simp: honest_def)

lemma honest_gateway_failed: "w \<in> reliable v \<Longrightarrow> honest b \<Longrightarrow> honest (gateway_failed w b)"
  by (cases "br_gateway b") (simp_all add: gateway_failed_def split_beta Let_def honest_offline)

lemma honest_session: "session_step b c \<Longrightarrow> br_gateway b \<noteq> None \<Longrightarrow> honest c"
  using session_step_simps(1) honest_gateway(1) by metis

lemma handle_mqtt_message_honest:
  assumes "w \<in> reliable v" "bridge_inv b" "honest b"
  shows "honest (handle_mqtt_message w message b)"
proof (cases "br_gateway b")
  case None
  then show ?thesis using assms(3) by (simp add: handle_mqtt_message_def split: outcome.split)
next
  case (Some gw)
  have "honest (fst (execute_group_command k a b))" for k a
    using honest_session [OF execute_group_step] Some by simp
  moreover have "honest (fst (execute_gateway_reboot w b))"
    using Some honest_offline [OF assms(1)]
    by (simp add: execute_gateway_reboot_def step_then_def br_gateway_result_def br_call_def Let_def)
  moreover have "honest (fst (execute_cover_command w n a b))" for n a
    using execute_cover_online [OF assms(2) Some] Some by (intro honest_gateway) (simp add: online_step_def)
  ultimately show ?thesis
    using assms(3) by (simp add: handle_mqtt_message_def logged_def split: outcome.split MqttCommand.split)
qed

lemma bridge_select_honest:
  assumes "w \<in> reliable v" "bridge_inv b" "honest b" "input_enabled w input b" "genuine input"
  shows "honest (bridge_select w input b)"
proof (cases input)
  case (MqttPolled result)
  have "honest (fst (publish_complete_snapshot w (b\<lparr>br_mqtt_connected := True\<rparr>)))" if "br_gateway b \<noteq> None"
    using that only_publishes_simps(3) [OF publishes_complete_snapshot] by (intro honest_gateway) simp
  then show ?thesis
    using MqttPolled assms(3) handle_mqtt_message_honest [OF assms(1-3)] honest_offline [OF assms(1)]
    by (simp add: handle_mqtt_result_def logged_def Let_def honest_gateway(2) split: outcome.split MqttEvent.split)
next
  case (SetupFinished result)
  show ?thesis
  proof (cases result)
    case (Ok p)
    then show ?thesis using SetupFinished only_publishes_simps(3) [OF setup_publishes [of p b w]]
      by (intro honest_gateway) simp
  qed (use SetupFinished honest_offline [OF assms(1)] in
      \<open>simp_all add: handle_setup_result_def Let_def split_beta\<close>)
next
  case (GatewayEvent event)
  then have gw: "br_gateway b \<noteq> None" using assms(2,4) by (simp add: input_enabled_def bridge_inv_def)
  have "honest (handle_response w response b)" for response
    using gw by (intro honest_gateway) (simp add: handle_response_simps)
  moreover have "honest (br_release session b)" for session
    using honest_session [OF session_step_ops(1) gw] .
  moreover note honest_gateway_failed [OF assms(1,3)] assms(3)
  ultimately have "honest (handle_gateway_event w event b)"
    by (cases "(w, event, b)" rule: handle_gateway_event.cases) simp_all
  then show ?thesis using GatewayEvent by simp
next
  case HeartbeatTick
  have "honest (b\<lparr>br_calls := calls\<rparr>)" for calls using assms(3) by (simp add: honest_def broker_def)
  then show ?thesis using HeartbeatTick assms(3) honest_gateway_failed [OF assms(1)]
    by (auto simp: heartbeat_def br_call_def split: option.split outcome.split)
next
  case RefreshTick
  then have "br_gateway b \<noteq> None" using assms(4) by (simp add: input_enabled_def)
  from honest_session [OF refresh_step this] show ?thesis using RefreshTick by simp
next
  case ReconnectDue
  then show ?thesis using assms(3) by (simp add: start_gateway_setup_def honest_def broker_def)
qed

lemma bridge_reaches_honest:
  assumes "bridge_inv start" "honest start"
  shows "bridge_reaches (reliable v) start b \<Longrightarrow> honest b"
proof (induction rule: bridge_reaches.induct)
  case (reaches_select b w input)
  then show ?case using bridge_select_honest bridge_reaches_inv [OF _ assms(1)] by blast
qed (rule assms(2))

section \<open>Topics of a node that is gone\<close>

lemma snapshot_spares:
  assumes "cache_inv (br_cache b)" "btree_get (br_cache b) n = None"
  shows "only_publishes {topic. topic \<notin> status_topics (br_topics b) n} b (fst (publish_complete_snapshot w b))"
    (is "only_publishes ?T b _")
proof -
  have other: "group_info (br_topics b) g \<in> ?T" "topic_groups (br_topics b) \<in> ?T" "topic_nodes (br_topics b) \<in> ?T"
    "topic_state (br_topics b) \<in> ?T" "discovery_topics \<subseteq> ?T" for g
    using status_topics_apart by blast+
  have nodes: "set (node_topics (br_topics b) (vn_id node)) \<subseteq> ?T" if "node \<in> snd ` set (br_cache b)" for node
  proof -
    from that have "vn_id node \<in> set (map vn_id (map snd (br_cache b)))" by auto
    then have "vn_id node \<in> set (btree_keys (br_cache b))" unfolding cache_inv_ids(1) [OF assms(1)] .
    then have "vn_id node \<noteq> n" using assms(2) by (auto simp: map_of_eq_None_iff)
    then show ?thesis using status_topics_apart(7) by blast
  qed
  show ?thesis
    unfolding publish_complete_snapshot_def
    using other nodes
    by (intro only_publishes_then only_publishes_for_each publishing only_publishes_publish)
      (simp_all add: availability_publication_def only_publishes_simps(2,6))
qed

section \<open>Properties\<close>

text \<open>
  C1. With an MQTT client that takes every publication, the messages retained by the broker are a
  refinement of the node cache: in every state in which the bridge has a gateway and is connected to
  the broker, the four status topics of every cover show the snapshot, the state, the position and the
  target that the cache holds, after whatever sequence of commands, notifications, failures,
  reconnections and set-ups led there.
\<close>

theorem broker_shows_cache:
  assumes "VeluxMqttBridge_new read_file now config = Ok (b0, mqtt)"
    "bc_reconnect_max_delay config \<le> DURATION_MAX"
    "documents to_vec" "bridge_reaches (reliable to_vec) b0 b"
    "br_gateway b \<noteq> None" "br_mqtt_connected b"
    "btree_get (br_cache b) n = Some node" "is_controllable node"
  shows "status_shown to_vec (br_topics b) (broker b) node"
  using status_view.reaches_view [OF assms(1-4)] assms(5-) by (simp add: online_def synced_def)

lemma example_reliable: "documents (\<lambda>_. Ok [0x7B, 0x7D])" "example_world \<in> reliable (\<lambda>_. Ok [0x7B, 0x7D])"
  by (simp_all add: documents_def example_world_def reliable_def all_queued_def)

theorem broker_shows_cache_witness:
  "\<exists>b0 mqtt b node. VeluxMqttBridge_new (\<lambda>_. Ok []) 0 example_config = Ok (b0, mqtt)
     \<and> btree_get (br_cache b) (NodeId 3) = Some node
     \<and> broker b (node_state (br_topics b) (NodeId 3)) = Some (as_bytes (cover_state_label (state node)))"
proof -
  obtain b0 mqtt where new: "VeluxMqttBridge_new (\<lambda>_. Ok []) 0 example_config = Ok (b0, mqtt)"
    "br_gateway b0 = None" "\<not> br_setup b0" "br_next_reconnect b0 = 0" by (rule example_new)
  obtain b node where run: "bridge_reaches (reliable (\<lambda>_. Ok [0x7B, 0x7D])) b0 b" "br_gateway b \<noteq> None"
    "br_mqtt_connected b" "btree_get (br_cache b) (NodeId 3) = Some node" "is_controllable node" "vn_id node = NodeId 3"
    by (rule example_run [OF example_reliable(2) new(2-)])
  have "bc_reconnect_max_delay example_config \<le> DURATION_MAX"
    by (simp add: example_config_def VeluxMqttBridgeConfig_new_def DURATION_MAX_def)
  from broker_shows_cache [OF new(1) this example_reliable(1) run(1-5)] new(1) run(4,6)
  show ?thesis by (auto simp: status_shown_def Let_def)
qed

text \<open>
  C9. With an MQTT client that takes every publication, the availability topic is honest: in every state
  in which the bridge is connected to the broker and has no gateway, whether none was set up yet, it
  failed, fell behind, was rebooted or a set-up was rejected, the retained availability is offline.
\<close>

theorem availability_is_honest:
  assumes "VeluxMqttBridge_new read_file now config = Ok (b0, mqtt)"
    "bc_reconnect_max_delay config \<le> DURATION_MAX"
    "bridge_reaches (reliable to_vec) b0 b" "br_mqtt_connected b" "br_gateway b = None"
  shows "broker b (topic_state (br_topics b)) = Some (as_bytes OFFLINE_PAYLOAD)"
proof -
  have "\<not> br_mqtt_connected b0"
    using assms(1) by (auto simp: VeluxMqttBridge_new_def outcome_iffs Let_def split: prod.splits)
  then have "honest b0" by (rule honest_gateway)
  from bridge_reaches_honest [OF bridge_inv_new [OF assms(1,2)] this assms(3)] assms(4,5)
  show ?thesis by (simp add: honest_def)
qed

theorem availability_is_honest_witness:
  "\<exists>b. br_gateway b = None \<and> broker b (topic_state (br_topics b)) = Some (as_bytes OFFLINE_PAYLOAD)"
proof -
  obtain b0 mqtt where new: "VeluxMqttBridge_new (\<lambda>_. Ok []) 0 example_config = Ok (b0, mqtt)"
    "br_gateway b0 = None" by (rule example_new)
  let ?b = "bridge_select example_world (MqttPolled (Ok Connected)) b0"
  have reach: "bridge_reaches (reliable (\<lambda>_. Ok [0x7B, 0x7D])) b0 ?b"
    by (intro reaches_select reaches_start example_reliable) (simp_all add: input_enabled_def genuine_def)
  have b: "br_mqtt_connected ?b" "br_gateway ?b = None"
    using new(2) only_publishes_simps [OF publishes_availability [OF UNIV_I]]
    by (simp_all add: handle_mqtt_result_def Let_def)
  have "bc_reconnect_max_delay example_config \<le> DURATION_MAX"
    by (simp add: example_config_def VeluxMqttBridgeConfig_new_def DURATION_MAX_def)
  from availability_is_honest [OF new(1) this reach b] b(2) show ?thesis by blast
qed

text \<open>
  C30. The topics of a removed node are cleared only when the set-up ends while the broker is connected. A node
  that disappears while it is not stays retained, also after the snapshot of the next connection.
\<close>

theorem removed_topics_stay:
  assumes "\<not> br_mqtt_connected b" "cache_inv (prep_cache p)" "btree_get (prep_cache p) n = None"
    "topic \<in> status_topics (br_topics b) n"
  shows "broker (handle_mqtt_result w (Ok Connected) (handle_setup_result w (Ok p) b)) topic = broker b topic"
proof -
  let ?c = "(installed p b)\<lparr>br_mqtt_connected := True\<rparr>"
  have "handle_mqtt_result w (Ok Connected) (handle_setup_result w (Ok p) b) = fst (publish_complete_snapshot w ?c)"
    using assms(1) by (simp add: handle_setup_result_def handle_mqtt_result_def logged_def Let_def)
  moreover have "only_publishes {topic. topic \<notin> status_topics (br_topics ?c) n} ?c (fst (publish_complete_snapshot w ?c))"
    by (rule snapshot_spares) (simp_all add: assms)
  ultimately show ?thesis using broker_other [of _ ?c] assms(4) by (simp add: broker_def)
qed

theorem removed_topics_stay_witness:
  "\<exists>b p. btree_get (br_cache (handle_mqtt_result example_world (Ok Connected)
       (handle_setup_result example_world (Ok p) b))) (NodeId 3) = None
     \<and> broker (handle_mqtt_result example_world (Ok Connected) (handle_setup_result example_world (Ok p) b))
         (node_state (br_topics b) (NodeId 3)) = Some [0x6F]"
proof -
  obtain b0 mqtt where new: "VeluxMqttBridge_new (\<lambda>_. Ok []) 0 example_config = Ok (b0, mqtt)"
    by (rule example_new)
  obtain p calls where p: "prepare_gateway (Ok example_gateway) NotCancelled ''pw'' = (calls, Ok p)" "prep_cache p = []"
    by (rule example_prepared)
  let ?topic = "node_state (br_topics b0) (NodeId 3)"
  let ?b = "b0\<lparr>br_mqtt := [(retained ?topic [0x6F], None)]\<rparr>"
  have b: "\<not> br_mqtt_connected ?b"
    using new by (auto simp: VeluxMqttBridge_new_def outcome_iffs Let_def split: prod.splits)
  have "?topic \<in> status_topics (br_topics ?b) (NodeId 3)" by (simp add: status_topics_def node_topics_def)
  moreover have "cache_inv (prep_cache p)" "btree_get (prep_cache p) (NodeId 3) = None"
    by (simp_all add: p(2) cache_inv_def)
  ultimately have "broker (handle_mqtt_result example_world (Ok Connected)
      (handle_setup_result example_world (Ok p) ?b)) ?topic = broker ?b ?topic"
    using removed_topics_stay [OF b] by blast
  moreover have "broker ?b ?topic = Some [0x6F]" by (simp add: broker_def)
  moreover have "br_cache (handle_mqtt_result example_world (Ok Connected)
      (handle_setup_result example_world (Ok p) ?b)) = []"
    using b only_publishes_simps(6) [OF publishes_complete_snapshot] p(2)
    by (simp add: handle_setup_result_def handle_mqtt_result_def logged_def Let_def)
  ultimately show ?thesis by (intro exI [of _ ?b] exI [of _ p]) simp
qed

end
