(* ===== verification/Bridge_Inventory.thy ===== *)
theory Bridge_Inventory
  imports Bridge_Sync
begin

text \<open>
  The inventories of nodes and groups and the metadata of each of them at the broker: a second view the
  bridge maintains beside the status of the covers.
\<close>

section \<open>What a subscriber finds\<close>

text \<open>
  The metadata of a node are published when they change and not with every status, so the time stamp among
  them is the one of the last such publication.
\<close>

definition info_shown :: "to_vec \<Rightarrow> TopicLayout \<Rightarrow> retained_store \<Rightarrow> VeluxNode \<Rightarrow> bool" where
  "info_shown to_vec topics store node \<longleftrightarrow>
     (\<exists>t. document_at to_vec store (node_info topics (vn_id node))
        (JsonNode ((NodeMetadata_from node)\<lparr>nm_status_timestamp := t\<rparr>)))"

definition nodes_listed :: "to_vec \<Rightarrow> bridge \<Rightarrow> bool" where
  "nodes_listed to_vec b \<longleftrightarrow>
     document_at to_vec (broker b) (topic_nodes (br_topics b)) (JsonIds (map node_id_get (btree_keys (br_cache b))))"

definition groups_listed :: "to_vec \<Rightarrow> bridge \<Rightarrow> bool" where
  "groups_listed to_vec b \<longleftrightarrow>
     document_at to_vec (broker b) (topic_groups (br_topics b))
       (JsonIds (map group_id_get (btree_keys (br_groups b))))"

definition nodes_shown :: "to_vec \<Rightarrow> bridge \<Rightarrow> bool" where
  "nodes_shown to_vec b \<longleftrightarrow> nodes_listed to_vec b
     \<and> (\<forall>k node. btree_get (br_cache b) k = Some node \<longrightarrow> info_shown to_vec (br_topics b) (broker b) node)"

definition groups_shown :: "to_vec \<Rightarrow> bridge \<Rightarrow> bool" where
  "groups_shown to_vec b \<longleftrightarrow> groups_listed to_vec b
     \<and> (\<forall>k g. btree_get (br_groups b) k = Some g \<longrightarrow>
          document_at to_vec (broker b) (group_info (br_topics b) k) (JsonGroup (GroupMetadata_from g)))"

definition inventoried :: "to_vec \<Rightarrow> bridge \<Rightarrow> bool" where
  "inventoried to_vec b \<longleftrightarrow> nodes_shown to_vec b \<and> groups_shown to_vec b"

section \<open>Publications elsewhere\<close>

lemma nodes_shown_other:
  assumes "only_publishes T b c" "topic_nodes (br_topics b) \<notin> T" "\<And>n. node_info (br_topics b) n \<notin> T"
    "nodes_shown v b"
  shows "nodes_shown v c"
  using assms(4) document_other [OF assms(1)] assms(2,3) only_publishes_simps [OF assms(1)]
  by (simp add: nodes_shown_def nodes_listed_def info_shown_def)

lemma groups_shown_other:
  assumes "only_publishes T b c" "topic_groups (br_topics b) \<notin> T" "\<And>g. group_info (br_topics b) g \<notin> T"
    "groups_shown v b"
  shows "groups_shown v c"
  using assms(4) document_other [OF assms(1)] assms(2,3) only_publishes_simps [OF assms(1)]
  by (simp add: groups_shown_def groups_listed_def)

lemma inventoried_same:
  assumes "inventoried v b" "br_mqtt c = br_mqtt b" "br_topics c = br_topics b" "br_cache c = br_cache b"
    "br_groups c = br_groups b"
  shows "inventoried v c"
  using assms broker_same [OF assms(2)]
  by (simp add: inventoried_def nodes_shown_def groups_shown_def nodes_listed_def groups_listed_def)

lemma info_not_status: "node_info topics m \<notin> status_topics topics n"
  using status_topics_apart(6) by blast

lemma info_not_discovery: "node_info topics m \<notin> discovery_topics"
  using discovery_apart(4) [of topics m] by (auto simp: node_topics_def)

lemma status_not_global:
  "topic_nodes topics \<notin> status_topics topics n" "topic_groups topics \<notin> status_topics topics n"
  "group_info topics g \<notin> status_topics topics n"
  using status_topics_apart by blast+

lemma node_info_iff [simp]: "node_info topics n = node_info topics m \<longleftrightarrow> n = m"
  by (cases n; cases m) (simp add: topic_defs id_topic_iff)

lemma node_info_not_global [simp]:
  "node_info topics n \<noteq> topic_nodes topics" "node_info topics n \<noteq> topic_groups topics"
  "node_info topics n \<noteq> group_info topics g"
  using node_topics_not_global [where topics = topics and n = n] by (force simp: node_topics_def)+

lemmas inventory_apart = info_not_status info_not_discovery status_not_global discovery_apart(1-3)
  node_info_not_global node_info_not_global [symmetric] global_topics_distinct global_topics_distinct [symmetric]

section \<open>The metadata of a node change only with its information\<close>

definition node_facts :: "VeluxNode \<Rightarrow> NodeId \<times> NodeMetadata" where
  "node_facts node = (vn_id node, (NodeMetadata_from node)\<lparr>nm_status_timestamp := None\<rparr>)"

lemma info_shown_facts:
  assumes "node_facts node' = node_facts node"
  shows "info_shown v topics store node' = info_shown v topics store node"
proof -
  have "(NodeMetadata_from node')\<lparr>nm_status_timestamp := t\<rparr> = (NodeMetadata_from node)\<lparr>nm_status_timestamp := t\<rparr>" for t
    using arg_cong [OF assms, of "\<lambda>f. (snd f)\<lparr>nm_status_timestamp := t\<rparr>"] by (simp add: node_facts_def)
  moreover have "vn_id node' = vn_id node" using assms by (simp add: node_facts_def)
  ultimately show ?thesis by (simp only: info_shown_def)
qed

definition keeps_facts :: "(VeluxNode \<Rightarrow> VeluxNode \<times> bool) \<Rightarrow> bool" where
  "keeps_facts f \<longleftrightarrow> (\<forall>node. node_facts (fst (f node)) = node_facts node)"

lemmas facts_defs = keeps_facts_def node_facts_def NodeMetadata_from_def is_controllable_def
  serial_number_hex_def Let_def

lemma keeps_facts_updates:
  "keeps_facts (\<lambda>node. apply_state_position node p source)"
  "keeps_facts (\<lambda>node. apply_status node status source)"
  "keeps_facts (\<lambda>node. apply_run_status node run)"
  "keeps_facts (apply_remaining_time seconds)"
  "keeps_facts (\<lambda>node. mark_command_accepted node endpoint)"
  by (auto simp: facts_defs apply_state_position_def apply_status_def apply_run_status_def
      apply_remaining_time_def mark_command_accepted_def
      split: StatusNotificationDetail.split CoverEndpoint.split)

lemma keeps_facts_confirmation: "keeps_facts (\<lambda>node. apply_command_confirmation node response session endpoint)"
  using keeps_facts_updates(5) by (simp add: keeps_facts_def apply_command_confirmation_def)

lemma update_node_facts:
  assumes "cache_inv cache" "keeps_facts f" "btree_get (fst (update_node cache n f)) k = Some node'"
  shows "\<exists>node. btree_get cache k = Some node \<and> node_facts node' = node_facts node"
proof -
  have "btree_wf cache" using assms(1) by (simp add: cache_inv_def)
  then show ?thesis
    using assms(2,3)
    by (auto simp: update_node_def split_beta btree_get_insert keeps_facts_def split: option.splits if_splits)
qed

lemma btree_keys_eq:
  assumes "btree_wf m" "btree_wf m'" "set (btree_keys m) = set (btree_keys m')"
  shows "btree_keys m = btree_keys m'"
  using assms by (intro strict_sorted_equal) (simp_all add: btree_wf_def)

lemma btree_keys_insert:
  assumes "btree_wf m" "btree_get m k \<noteq> None"
  shows "btree_keys (btree_insert k v m) = btree_keys m"
proof (rule btree_keys_eq)
  have "k \<in> set (btree_keys m)" using assms(2) by (force dest: map_of_SomeD)
  then show "set (btree_keys (btree_insert k v m)) = set (btree_keys m)"
    by (simp only: set_btree_insert_keys insert_absorb)
qed (use assms(1) in \<open>simp_all add: btree_wf_insert\<close>)

lemma update_node_keys:
  "btree_wf cache \<Longrightarrow> btree_keys (fst (update_node cache n f)) = btree_keys cache"
  by (simp add: update_node_def split_beta btree_keys_insert split: option.split)

lemma apply_response_keys:
  assumes "btree_wf cache" "\<not> node_added cache response"
  shows "btree_keys (fst (apply_response cache response)) = btree_keys cache"
proof (cases response)
  case (NodeInformation i)
  have "btree_get cache (vn_id (from_information i)) \<noteq> None"
    using assms(2) by (simp add: NodeInformation node_added_def from_information_def Let_def)
  from btree_keys_insert [OF assms(1) this] show ?thesis by (simp add: apply_response_def NodeInformation Let_def)
qed (simp_all add: apply_response_def update_node_keys [OF assms(1)])

lemma apply_response_facts:
  assumes "cache_inv cache" "\<not> metadata_changed response" "btree_get (fst (apply_response cache response)) k = Some node'"
  shows "\<exists>node. btree_get cache k = Some node \<and> node_facts node' = node_facts node"
proof -
  note unchanged = keeps_facts_updates [THEN update_node_facts [OF assms(1)]]
  show ?thesis
    using assms(2,3) unchanged
    by (cases response) (auto simp: apply_response_def metadata_changed_def simp del: split_paired_Ex)
qed

section \<open>Nodes\<close>

lemma nodes_shown_cache:
  assumes "nodes_shown v b" "btree_keys cache = btree_keys (br_cache b)"
    "\<And>k node'. btree_get cache k = Some node' \<Longrightarrow>
       \<exists>node. btree_get (br_cache b) k = Some node \<and> node_facts node' = node_facts node"
  shows "nodes_shown v (b\<lparr>br_cache := cache\<rparr>)"
proof -
  have same: "broker (b\<lparr>br_cache := cache\<rparr>) = broker b" by (rule broker_same) simp
  have "info_shown v (br_topics b) (broker b) node'" if found: "btree_get cache k = Some node'" for k node'
  proof -
    obtain node where "btree_get (br_cache b) k = Some node" "node_facts node' = node_facts node"
      using assms(3) [OF found] by blast
    then show ?thesis using assms(1) info_shown_facts by (metis nodes_shown_def)
  qed
  then show ?thesis using assms(1,2) by (simp add: nodes_shown_def nodes_listed_def same)
qed

lemma node_info_published:
  assumes "w \<in> reliable v" "documents v" "br_mqtt_connected b" "btree_get (br_cache b) n = Some node"
  shows "\<exists>c. publish_node_info w n b = (c, Ok ()) \<and> only_publishes {node_info (br_topics b) (vn_id node)} b c
    \<and> document_at v (broker c) (node_info (br_topics b) (vn_id node)) (JsonNode (NodeMetadata_from node))"
  using document_published [OF assms(1,2)] assms(3,4)
  by (simp add: publish_node_info_def info_publication_def) metis

text \<open>The announcement of an update writes topics of nodes and of the discovery only.\<close>

lemma announce_topics:
  assumes "cache_inv (br_cache b)"
  defines "T \<equiv> insert (topic_nodes (br_topics b)) (range (node_info (br_topics b)) \<union> discovery_topics
    \<union> (\<Union>n. status_topics (br_topics b) n))"
  shows "only_publishes T b (announce_update w added changed updated b)"
proof (cases updated)
  case (Some n)
  let ?c = "if added \<and> br_mqtt_connected b then logged (publish_node_inventory w) b else b"
  let ?d = "if changed then logged (publish_node_info w n) ?c else ?c"
  let ?e = "if changed then logged (publish_hass_discovery w) ?d else ?d"
  have c: "only_publishes T b ?c" by (intro only_publishes_if publishing) (simp_all add: T_def)
  note s = only_publishes_simps [OF c]
  have d: "only_publishes T ?c ?d"
    by (intro only_publishes_if publishes_logged publishes_node(1) only_publishes_refl)
      (simp_all only: s assms(1) T_def, blast)
  note t = only_publishes_simps [OF d]
  have e: "only_publishes T ?d ?e" by (intro only_publishes_if publishing) (auto simp: T_def)
  note u = only_publishes_simps [OF e]
  have "status_topics (br_topics ?e) n \<subseteq> T" "cache_inv (br_cache ?e)" unfolding s t u T_def using assms(1) by blast+
  from publishes_node(2) [OF this(2,1), of w] have "only_publishes T ?e (announce_update w added changed updated b)"
    unfolding announce_update_def Some Let_def option.case
    by (split option.split) (auto intro!: only_publishes_if publishes_logged only_publishes_refl)
  then show ?thesis using only_publishes_trans [OF only_publishes_trans [OF c d]] only_publishes_trans [OF e] by blast
qed (simp add: announce_update_def only_publishes_refl)

text \<open>An update without new metadata publishes at most the status of its node.\<close>

lemma announce_quiet:
  assumes "cache_inv (br_cache b)"
  shows "only_publishes (status_topics (br_topics b) n) b (announce_update w False False (Some n) b)"
  using publishes_node(2) [OF assms order_refl]
  by (auto simp: announce_update_def logged_def only_publishes_refl split: option.split)

text \<open>An update with new metadata: the inventory if the node is new, its information, and what follows.\<close>

lemma announce_metadata_shown:
  assumes "w \<in> reliable v" "documents v" "br_mqtt_connected b" "cache_inv (br_cache b)"
    "btree_get (br_cache b) n = Some node" "\<not> added \<Longrightarrow> nodes_listed v b"
    "\<And>k m. k \<noteq> n \<Longrightarrow> btree_get (br_cache b) k = Some m \<Longrightarrow> info_shown v (br_topics b) (broker b) m"
  shows "nodes_shown v (announce_update w added True (Some n) b)"
proof -
  let ?topics = "br_topics b"
  have id: "vn_id m = k" if "btree_get (br_cache b) k = Some m" for k m using that assms(4) by (simp add: cache_inv_def)
  obtain c where c: "(if added \<and> br_mqtt_connected b then logged (publish_node_inventory w) b else b) = c"
      "only_publishes {topic_nodes ?topics} b c" "nodes_listed v c"
    using node_inventory_published [OF assms(1,2), of b] assms(3,6)
    by (cases added) (auto simp: logged_def nodes_listed_def only_publishes_refl only_publishes_simps)
  note s = only_publishes_simps [OF c(2)]
  have "btree_get (br_cache c) n = Some node" "br_mqtt_connected c" using assms(3,5) s by simp_all
  from node_info_published [OF assms(1,2) this(2,1)] obtain d where
    d: "logged (publish_node_info w n) c = d" "only_publishes {node_info ?topics n} c d"
      "document_at v (broker d) (node_info ?topics n) (JsonNode (NodeMetadata_from node))"
    using s id [OF assms(5)] by (auto simp: logged_def)
  note t = only_publishes_simps [OF d(2)]
  have "info_shown v ?topics (broker d) m" if m: "btree_get (br_cache b) k = Some m" for k m
  proof (cases "k = n")
    case True
    then have "m = node" using m assms(5) by simp
    then show ?thesis using d(3) id [OF assms(5)] unfolding info_shown_def
      by (intro exI [of _ "nm_status_timestamp (NodeMetadata_from node)"]) simp
  next
    case False
    then show ?thesis
      using assms(7) [OF False m] id [OF m]
      by (simp add: info_shown_def document_other [OF d(2)] document_other [OF c(2)] inventory_apart)
  qed
  then have shown: "nodes_shown v d"
    using c(3) s t by (simp add: nodes_shown_def nodes_listed_def document_other [OF d(2)] inventory_apart)
  have "only_publishes (discovery_topics \<union> status_topics ?topics n) d (announce_update w added True (Some n) b)"
  proof -
    let ?e = "logged (publish_hass_discovery w) d"
    have e: "only_publishes (discovery_topics \<union> status_topics ?topics n) d ?e"
      by (intro publishes_logged publishes_discovery) blast
    note u = only_publishes_simps [OF e]
    have "only_publishes (discovery_topics \<union> status_topics ?topics n) ?e (fst (publish_node_status w n ?e))"
      using s t u assms(4) by (intro publishes_node(2)) simp_all
    from only_publishes_trans [OF e this] e show ?thesis
      unfolding announce_update_def Let_def option.case c(1) if_True d(1)
      by (auto simp: logged_def split: option.split)
  qed
  from nodes_shown_other [OF this _ _ shown] show ?thesis using s t by (simp add: inventory_apart)
qed

lemma apply_response_nodes_shown:
  assumes "w \<in> reliable v" "documents v" "br_mqtt_connected b" "cache_inv (br_cache b)" "nodes_shown v b"
    "response_wf response" "apply_response (br_cache b) response = (cache, updated)"
  shows "nodes_shown v (announce_update w (node_added (br_cache b) response) (metadata_changed response) updated
    (b\<lparr>br_cache := cache\<rparr>))"
proof (cases updated)
  case None
  then have "cache = br_cache b" using apply_response_faithful [OF assms(4,6)] assms(7) by (simp add: faithful_def)
  then show ?thesis using None assms(5) by (simp add: announce_update_def)
next
  case (Some n)
  have wf: "btree_wf (br_cache b)" using assms(4) by (simp add: cache_inv_def)
  have f: "cache_inv cache" "btree_get cache n \<noteq> btree_get (br_cache b) n"
    "\<And>j. j \<noteq> n \<Longrightarrow> btree_get cache j = btree_get (br_cache b) j"
    using apply_response_faithful [OF assms(4,6)] assms(7) Some by (simp_all add: faithful_def)
  have keys: "\<not> node_added (br_cache b) response \<Longrightarrow> btree_keys cache = btree_keys (br_cache b)"
    using apply_response_keys [OF wf] assms(7) by (metis fst_conv)
  show ?thesis
  proof (cases "metadata_changed response")
    case False
    then have quiet: "\<not> node_added (br_cache b) response"
      by (cases response) (simp_all add: node_added_def metadata_changed_def)
    have "nodes_shown v (b\<lparr>br_cache := cache\<rparr>)"
      using apply_response_facts [OF assms(4) False] assms(7) by (intro nodes_shown_cache assms(5) keys quiet) simp
    from nodes_shown_other [OF announce_quiet [of "b\<lparr>br_cache := cache\<rparr>"] _ _ this] f(1)
    show ?thesis using False quiet Some by (simp add: inventory_apart)
  next
    case True
    have "btree_get cache n \<noteq> None"
    proof
      assume "btree_get cache n = None"
      moreover have "known_nodes (br_cache b) \<subseteq> known_nodes cache"
        using known_nodes_apply assms(7) by (metis fst_conv)
      ultimately have "btree_get (br_cache b) n = None" by (auto simp: map_of_eq_None_iff)
      then show False using f(2) \<open>btree_get cache n = None\<close> by simp
    qed
    then obtain node where node: "btree_get cache n = Some node" by blast
    have "nodes_shown v (announce_update w (node_added (br_cache b) response) True (Some n) (b\<lparr>br_cache := cache\<rparr>))"
      using assms(5) keys f(3)
      by (intro announce_metadata_shown [OF assms(1,2), where node = node])
        (simp_all add: assms(3) f(1) node nodes_shown_def nodes_listed_def broker_same [of "b\<lparr>br_cache := cache\<rparr>" b])
    then show ?thesis using True Some by simp
  qed
qed

section \<open>Groups\<close>

lemma group_info_published:
  assumes "w \<in> reliable v" "documents v"
  shows "\<exists>c. publish_group_info w g b = (c, Ok ()) \<and> only_publishes {group_info (br_topics b) (gi_group_id g)} b c
    \<and> document_at v (broker c) (group_info (br_topics b) (gi_group_id g)) (JsonGroup (GroupMetadata_from g))"
  using document_published [OF assms] by (simp add: publish_group_info_def group_info_publication_def) metis

text \<open>Publishing the inventory of groups makes a view of all groups but one, which may have changed.\<close>

lemma group_inventory_shown:
  assumes "w \<in> reliable v" "documents v" "groups_shown v b" "groups_inv m"
    "\<And>j. j \<noteq> k \<Longrightarrow> btree_get m j = btree_get (br_groups b) j"
  obtains c where "publish_group_inventory w (b\<lparr>br_groups := m\<rparr>) = (c, Ok ())" "br_groups c = m"
    "br_topics c = br_topics b" "groups_listed v c" "only_publishes {topic_groups (br_topics b)} (b\<lparr>br_groups := m\<rparr>) c"
    "\<And>j g. j \<noteq> k \<Longrightarrow> btree_get m j = Some g \<Longrightarrow>
       document_at v (broker c) (group_info (br_topics b) j) (JsonGroup (GroupMetadata_from g))"
proof -
  let ?b = "b\<lparr>br_groups := m\<rparr>"
  obtain c where c: "publish_group_inventory w ?b = (c, Ok ())" "only_publishes {topic_groups (br_topics b)} ?b c"
      "document_at v (broker c) (topic_groups (br_topics b)) (JsonIds (map group_id_get (btree_keys m)))"
    using group_inventory_published [OF assms(1,2), of ?b] assms(4) by auto
  note s = only_publishes_simps [OF c(2)]
  have "document_at v (broker c) (group_info (br_topics b) j) (JsonGroup (GroupMetadata_from g))"
    if "j \<noteq> k" "btree_get m j = Some g" for j g
    using assms(3,5) that
    by (simp add: document_other [OF c(2)] broker_same [of ?b b] groups_shown_def)
  moreover have "groups_listed v c" using c(3) s by (simp add: groups_listed_def)
  ultimately show thesis using that c(1,2) s by simp
qed

lemma apply_group_set_shown:
  assumes "w \<in> reliable v" "documents v" "br_mqtt_connected b" "groups_inv (br_groups b)" "groups_shown v b"
    "response_wf response" "group_update_of (br_groups b) response = GroupSet g"
  shows "groups_shown v (fst (apply_group_response w response b))"
proof -
  let ?k = "gi_group_id g"
  let ?m = "btree_insert ?k g (br_groups b)"
  have wf: "btree_wf (br_groups b)" using assms(4) by (simp add: groups_inv_def)
  obtain c where c: "publish_group_inventory w (b\<lparr>br_groups := ?m\<rparr>) = (c, Ok ())" "br_groups c = ?m"
      "br_topics c = br_topics b" "groups_listed v c"
      "only_publishes {topic_groups (br_topics b)} (b\<lparr>br_groups := ?m\<rparr>) c"
      "\<And>j h. j \<noteq> ?k \<Longrightarrow> btree_get ?m j = Some h \<Longrightarrow>
         document_at v (broker c) (group_info (br_topics b) j) (JsonGroup (GroupMetadata_from h))"
    by (rule group_inventory_shown [OF assms(1,2,5) groups_inv_update(1) [OF assms(4) group_update_wf [OF assms(7,6)]],
          where k = ?k]) (simp_all add: btree_get_insert [OF wf])
  obtain d where d: "publish_group_info w g c = (d, Ok ())" "only_publishes {group_info (br_topics b) ?k} c d"
      "document_at v (broker d) (group_info (br_topics b) ?k) (JsonGroup (GroupMetadata_from g))"
    using group_info_published [OF assms(1,2), of g c] c(3) by auto
  note s = only_publishes_simps [OF d(2)]
  have "document_at v (broker d) (group_info (br_topics b) j) (JsonGroup (GroupMetadata_from h))"
    if "btree_get ?m j = Some h" for j h
    using that d(3) c(6) [of j h] by (cases "j = ?k") (auto simp: btree_get_insert [OF wf] document_other [OF d(2)])
  then have "groups_shown v d"
    using c(2-4) s by (simp add: groups_shown_def groups_listed_def document_other [OF d(2)] inventory_apart)
  from groups_shown_other [OF publishes_discovery [OF order_refl] _ _ this, of w] show ?thesis
    using c(1) d(1) assms(3) by (simp add: apply_group_response_def assms(7) step_then_def Let_def inventory_apart)
qed

lemma apply_group_gone_shown:
  assumes "w \<in> reliable v" "documents v" "br_mqtt_connected b" "groups_inv (br_groups b)" "groups_shown v b"
    "group_update_of (br_groups b) response = GroupGone k" "btree_get (br_groups b) k = Some g"
  shows "groups_shown v (fst (apply_group_response w response b))"
proof -
  let ?m = "btree_remove k (br_groups b)"
  have k: "gi_group_id g = k" using assms(4,7) by (simp add: groups_inv_def)
  obtain c where c: "publish_group_inventory w (b\<lparr>br_groups := ?m\<rparr>) = (c, Ok ())" "br_groups c = ?m"
      "br_topics c = br_topics b" "groups_listed v c"
      "only_publishes {topic_groups (br_topics b)} (b\<lparr>br_groups := ?m\<rparr>) c"
      "\<And>j h. j \<noteq> k \<Longrightarrow> btree_get ?m j = Some h \<Longrightarrow>
         document_at v (broker c) (group_info (br_topics b) j) (JsonGroup (GroupMetadata_from h))"
    by (rule group_inventory_shown [OF assms(1,2,5) groups_inv_update(2) [OF assms(4), of k], where k = k])
      (simp_all add: btree_get_remove)
  let ?rest = "step_then (clear_removed_groups w [g]) (\<lambda>_. publish_hass_discovery w)"
  have rest: "only_publishes (insert (group_info (br_topics b) k) discovery_topics) c (fst (?rest c))"
    using c(3) k by (intro only_publishes_then publishes_clear_groups publishes_discovery) auto
  note s = only_publishes_simps [OF rest]
  have "groups_shown v (fst (?rest c))"
    using c(2-4,6)
    by (auto simp: groups_shown_def groups_listed_def s document_other [OF rest] inventory_apart btree_get_remove
        split: if_splits)
  then show ?thesis
    using c(1) assms(3,7) by (simp add: apply_group_response_def assms(6) step_then_def Let_def)
qed

lemma apply_group_groups_shown:
  assumes "w \<in> reliable v" "documents v" "br_mqtt_connected b" "groups_inv (br_groups b)" "groups_shown v b"
    "response_wf response"
  shows "groups_shown v (fst (apply_group_response w response b))"
proof (cases "group_update_of (br_groups b) response")
  case (GroupSet g)
  then show ?thesis by (rule apply_group_set_shown [OF assms])
next
  case (GroupGone k)
  then show ?thesis
  proof (cases "btree_get (br_groups b) k")
    case (Some g)
    with GroupGone show ?thesis by (rule apply_group_gone_shown [OF assms(1-5)])
  qed (simp add: apply_group_response_def GroupGone assms(5))
qed (simp add: apply_group_response_def assms(5))

section \<open>The view is maintained\<close>

lemma snapshot_inventoried:
  assumes "w \<in> reliable v" "documents v" "cache_inv (br_cache b)" "groups_inv (br_groups b)"
  shows "inventoried v (fst (publish_complete_snapshot w b))"
proof -
  let ?c = "fst (publish_complete_snapshot w b)"
  note same = only_publishes_simps [OF publishes_complete_snapshot [of b w]]
  have "info_shown v (br_topics b) (broker ?c) node" if "btree_get (br_cache b) k = Some node" for k node
  proof -
    have "node \<in> set (map snd (br_cache b))" using map_of_SomeD [OF that] by force
    then have "document_at v (broker ?c) (node_info (br_topics b) (vn_id node)) (JsonNode (NodeMetadata_from node))"
      using snapshot_shows [OF assms] unfolding snapshot_shown_def node_shown_def by blast
    then show ?thesis unfolding info_shown_def
      by (intro exI [of _ "nm_status_timestamp (NodeMetadata_from node)"]) simp
  qed
  moreover have "document_at v (broker ?c) (group_info (br_topics b) k) (JsonGroup (GroupMetadata_from g))"
    if "btree_get (br_groups b) k = Some g" for k g
  proof -
    have "g \<in> set (map snd (br_groups b))" "gi_group_id g = k"
      using map_of_SomeD [OF that] that assms(4) by (force, simp add: groups_inv_def)
    then show ?thesis using snapshot_shows [OF assms] unfolding snapshot_shown_def by blast
  qed
  ultimately show ?thesis
    using snapshot_shows [OF assms]
    by (simp add: snapshot_shown_def inventoried_def nodes_shown_def groups_shown_def nodes_listed_def groups_listed_def same)
qed

lemma handle_response_inventoried:
  assumes "w \<in> reliable v" "documents v" "br_mqtt_connected b" "bridge_inv b" "inventoried v b"
    "response_wf response"
  shows "inventoried v (handle_response w response b)"
proof -
  let ?b = "br_release_finished response b"
  let ?c = "logged (apply_group_response w response) ?b"
  have "session_step b ?b"
    by (cases response) (simp_all add: br_release_finished_def session_step_ops(1) session_step_refl)
  note b = session_step_simps [OF this]
  have shown: "nodes_shown v ?b" "groups_shown v ?b"
    using inventoried_same [OF assms(5)] b by (simp_all add: inventoried_def)
  have inv: "cache_inv (br_cache ?b)" "groups_inv (br_groups ?b)" "br_mqtt_connected ?b"
    using assms(3,4) b by (simp_all add: bridge_inv_def)
  let ?T = "insert (topic_groups (br_topics ?b)) (range (group_info (br_topics ?b)) \<union> discovery_topics)"
  obtain m where m: "only_publishes ?T (?b\<lparr>br_groups := m\<rparr>) ?c"
    using apply_group_publishes [of ?b ?T w response] by (auto simp: logged_def)
  note c = only_publishes_simps [OF m]
  have "nodes_shown v (?b\<lparr>br_groups := m\<rparr>)"
    using shown(1) broker_same [of "?b\<lparr>br_groups := m\<rparr>" ?b] by (simp add: nodes_shown_def nodes_listed_def)
  then have nodes: "nodes_shown v ?c"
    by (rule nodes_shown_other [OF m, rotated -1]) (auto simp: inventory_apart)
  have groups: "groups_shown v ?c"
    using apply_group_groups_shown [OF assms(1,2) inv(3,2) shown(2) assms(6)] by (simp add: logged_def)
  obtain cache updated where u: "apply_response (br_cache ?c) response = (cache, updated)" by (rule prod.exhaust)
  let ?d = "announce_update w (node_added (br_cache ?c) response) (metadata_changed response) updated (?c\<lparr>br_cache := cache\<rparr>)"
  have "nodes_shown v ?d"
    using c inv by (intro apply_response_nodes_shown [OF assms(1,2) _ _ nodes assms(6) u]) simp_all
  moreover have "groups_shown v ?d"
  proof (rule groups_shown_other [OF announce_topics])
    show "cache_inv (br_cache (?c\<lparr>br_cache := cache\<rparr>))"
      using apply_response_faithful [OF _ assms(6), of "br_cache ?c"] u c inv by (simp add: faithful_def)
    show "groups_shown v (?c\<lparr>br_cache := cache\<rparr>)"
      using groups broker_same [of "?c\<lparr>br_cache := cache\<rparr>" ?c] by (simp add: groups_shown_def groups_listed_def)
  qed (auto simp: inventory_apart)
  ultimately show ?thesis by (simp add: handle_response_eq Let_def u inventoried_def)
qed

lemma execute_cover_inventoried:
  assumes "cache_inv (br_cache b)" "inventoried v b" "br_gateway b = Some gw"
  shows "inventoried v (fst (execute_cover_command w n action b))"
  using assms(3)
proof (cases rule: execute_cover_cases [where w = w and n = n and action = action])
  case moved
  from session_step_simps [OF this] show ?thesis by (intro inventoried_same [OF assms(2)])
next
  case (accepted c response session endpoint)
  note c = session_step_simps [OF accepted(1)]
  let ?f = "\<lambda>node. apply_command_confirmation node response session endpoint"
  let ?c = "c\<lparr>br_cache := fst (update_node (br_cache c) n ?f)\<rparr>"
  have inv: "cache_inv (br_cache c)" "btree_wf (br_cache c)" using assms(1) c by (simp_all add: cache_inv_def)
  have "inventoried v c" using c by (intro inventoried_same [OF assms(2)])
  then have shown: "nodes_shown v ?c" "groups_shown v ?c"
    using nodes_shown_cache [of v c, OF _ update_node_keys [OF inv(2)] update_node_facts [OF inv(1) keeps_facts_confirmation]]
      broker_same [of ?c c]
    by (simp_all add: inventoried_def groups_shown_def groups_listed_def)
  have "cache_inv (br_cache ?c)"
    using faithful_update_node [OF inv(1) update_ok_confirmation] by (simp add: faithful_def)
  from publishes_node(2) [OF this order_refl, of n w]
  have pub: "only_publishes (status_topics (br_topics ?c) n) ?c (fst (publish_node_status w n ?c))" .
  have "inventoried v (fst (publish_node_status w n ?c))"
    unfolding inventoried_def
    by (intro conjI nodes_shown_other [OF pub _ _ shown(1)] groups_shown_other [OF pub _ _ shown(2)])
      (rule inventory_apart)+
  then show ?thesis using accepted(2) by simp
qed

interpretation inventory_view: maintained_view inventoried reliable documents
proof (unfold_locales, goal_cases)
  case (1 v b c)
  then show ?case using inventoried_same session_step_simps [OF 1(2)] by blast
next
  case (2 w v b)
  then show ?case by (intro snapshot_inventoried)
next
  case (3 w v b response)
  then show ?case by (rule handle_response_inventoried)
next
  case (4 w v b gw n action)
  then show ?case by (intro execute_cover_inventoried) (simp_all add: bridge_inv_def)
qed

section \<open>Properties\<close>

text \<open>
  C10. With an MQTT client that takes every publication, in every state in which the bridge has a gateway
  and is connected to the broker, the retained inventories list exactly the nodes and the groups it knows,
  and the information topic of each node and of each group holds its current metadata; only the time stamp
  within the metadata of a node may be an older one.
\<close>

theorem inventories_are_current:
  assumes "VeluxMqttBridge_new read_file now config = Ok (b0, mqtt)"
    "bc_reconnect_max_delay config \<le> DURATION_MAX" "documents to_vec" "bridge_reaches (reliable to_vec) b0 b"
    "br_gateway b \<noteq> None" "br_mqtt_connected b"
  shows "document_at to_vec (broker b) (topic_nodes (br_topics b)) (JsonIds (map node_id_get (btree_keys (br_cache b))))
    \<and> document_at to_vec (broker b) (topic_groups (br_topics b)) (JsonIds (map group_id_get (btree_keys (br_groups b))))
    \<and> (\<forall>k node. btree_get (br_cache b) k = Some node \<longrightarrow>
         (\<exists>t. document_at to_vec (broker b) (node_info (br_topics b) k)
            (JsonNode ((NodeMetadata_from node)\<lparr>nm_status_timestamp := t\<rparr>))))
    \<and> (\<forall>k g. btree_get (br_groups b) k = Some g \<longrightarrow>
         document_at to_vec (broker b) (group_info (br_topics b) k) (JsonGroup (GroupMetadata_from g)))"
proof -
  have "inventoried to_vec b" using inventory_view.reaches_view [OF assms(1-4)] assms(5,6) by (simp add: online_def)
  moreover have "cache_inv (br_cache b)"
    using bridge_reaches_inv [OF assms(4) bridge_inv_new [OF assms(1,2)]] by (simp add: bridge_inv_def)
  then have "vn_id node = k" if "btree_get (br_cache b) k = Some node" for k node
    using that by (simp add: cache_inv_def)
  ultimately show ?thesis
    by (simp add: inventoried_def nodes_shown_def groups_shown_def nodes_listed_def groups_listed_def info_shown_def)
qed

theorem inventories_are_current_witness:
  "\<exists>b0 mqtt b node. VeluxMqttBridge_new (\<lambda>_. Ok []) 0 example_config = Ok (b0, mqtt)
     \<and> btree_get (br_cache b) (NodeId 3) = Some node
     \<and> broker b (node_info (br_topics b) (NodeId 3)) = Some [0x7B, 0x7D]
     \<and> broker b (topic_nodes (br_topics b)) = Some [0x7B, 0x7D]"
proof -
  obtain b0 mqtt where new: "VeluxMqttBridge_new (\<lambda>_. Ok []) 0 example_config = Ok (b0, mqtt)"
    "br_gateway b0 = None" "\<not> br_setup b0" "br_next_reconnect b0 = 0" by (rule example_new)
  obtain b node where run: "bridge_reaches (reliable (\<lambda>_. Ok [0x7B, 0x7D])) b0 b" "br_gateway b \<noteq> None"
    "br_mqtt_connected b" "btree_get (br_cache b) (NodeId 3) = Some node"
    by (rule example_run [OF example_reliable(2) new(2-)])
  have "bc_reconnect_max_delay example_config \<le> DURATION_MAX"
    by (simp add: example_config_def VeluxMqttBridgeConfig_new_def DURATION_MAX_def)
  from inventories_are_current [OF new(1) this example_reliable(1) run(1-3)] new(1) run(4)
  show ?thesis by (auto simp: document_at_def)
qed

end
