(* ===== verification/Bridge_Run.thy ===== *)
theory Bridge_Run
  imports Bridge_Sync
begin

text \<open>
  The whole run of the bridge (\<open>src/bridge.rs\<close>, \<open>run_until\<close>): the timers, the loop over what wakes it, the
  signal that ends it and the shutdown after it; and what a run guarantees: it ends offline with every
  gateway closed, if no handler panics or blocks, and while it lasts, a lost gateway is set up again within a
  bounded time. The last section has the runs that panic or block.
\<close>

section \<open>Timers\<close>

text \<open>
  A timer of tokio: the time of its next tick and its period. \<open>interval_at\<close> panics for a period of zero. When
  a tick is taken late, the timer skips the ones it missed; the time of the next tick is then chosen by
  tokio and is the argument \<open>skip\<close> of what follows (deadline, time of the tick and period).
\<close>

record Interval =
  iv_deadline :: nat
  iv_period :: nat

definition configured_interval :: "nat \<Rightarrow> nat \<Rightarrow> ('e, Interval) outcome" where
  "configured_interval now duration =
     (if INSTANT_MAX < now + duration \<or> duration = 0 then Panic
      else Ok \<lparr>iv_deadline = now + duration, iv_period = duration\<rparr>)"

definition interval_tick :: "(nat \<Rightarrow> nat \<Rightarrow> nat \<Rightarrow> nat) \<Rightarrow> nat \<Rightarrow> Interval \<Rightarrow> Interval" where
  "interval_tick skip now timer = timer\<lparr>iv_deadline := skip (iv_deadline timer) now (iv_period timer)\<rparr>"

text \<open>What tokio promises: the ticks stay on the grid of the period and move forward.\<close>

definition skips_ticks :: "(nat \<Rightarrow> nat \<Rightarrow> nat \<Rightarrow> nat) \<Rightarrow> bool" where
  "skips_ticks skip \<longleftrightarrow>
     (\<forall>deadline now period. deadline \<le> now \<longrightarrow>
        (\<exists>k. skip deadline now period = deadline + Suc k * period))"

section \<open>The loop\<close>

text \<open>
  The state of the loop, and what a select of it yields: the end of the future that waits for a signal, or
  one of the other branches. A branch is taken only if it is enabled; for the timers their time must have
  come.
\<close>

record running =
  rn_bridge :: bridge
  rn_heartbeat :: Interval
  rn_refresh :: Interval

datatype loop_input = ShutdownSignal "(bridge_error, unit) outcome" | Woken bridge_input

text \<open>
  The futures of the branches that depend on the state: absent while they wait. The set-up task is joined,
  and a task that panicked yields an error.
\<close>

definition wait_for_reconnect :: "nat \<Rightarrow> nat \<Rightarrow> unit option" where
  "wait_for_reconnect now deadline = (if deadline \<le> now then Some () else None)"

definition wait_for_setup ::
  "(string, (bridge_error, PreparedGateway) outcome) outcome \<Rightarrow> bool \<Rightarrow> (bridge_error, PreparedGateway) outcome option"
where
  "wait_for_setup joined is_set_up =
     (if is_set_up then
        Some (and_then (map_err (\<lambda>message. Context ''KLF setup task failed'' (Bail message)) joined) (\<lambda>result. result))
      else None)"

definition receive_gateway_event :: "received \<Rightarrow> bool \<Rightarrow> received option" where
  "receive_gateway_event next has_receiver = (if has_receiver then Some next else None)"

text \<open>A branch of the select is enabled exactly when its future can be ready and its guard holds.\<close>

lemma input_enabled_ready:
  "input_enabled w (SetupFinished result) b \<longleftrightarrow> (\<exists>joined. wait_for_setup joined (br_setup b) = Some result)"
  "input_enabled w (GatewayEvent event) b \<longleftrightarrow> receive_gateway_event event (br_events b) = Some event"
  "input_enabled w ReconnectDue b \<longleftrightarrow> br_gateway b = None \<and> \<not> br_setup b
     \<and> wait_for_reconnect (w_now w) (br_next_reconnect b) = Some ()"
proof -
  have "\<exists>joined. wait_for_setup joined True = Some result" by (intro exI [of _ "Ok result"]) (simp add: wait_for_setup_def)
  then show "input_enabled w (SetupFinished result) b \<longleftrightarrow> (\<exists>joined. wait_for_setup joined (br_setup b) = Some result)"
    by (cases "br_setup b") (simp_all add: input_enabled_def, simp add: wait_for_setup_def)
qed (simp_all add: input_enabled_def receive_gateway_event_def wait_for_reconnect_def)

definition woken_by :: "world \<Rightarrow> bridge_input \<Rightarrow> running \<Rightarrow> bool" where
  "woken_by w input s \<longleftrightarrow> input_enabled w input (rn_bridge s)
     \<and> (case input of
          HeartbeatTick \<Rightarrow> iv_deadline (rn_heartbeat s) \<le> w_now w
        | RefreshTick \<Rightarrow> iv_deadline (rn_refresh s) \<le> w_now w
        | _ \<Rightarrow> True)"

definition run_branch :: "(nat \<Rightarrow> nat \<Rightarrow> nat \<Rightarrow> nat) \<Rightarrow> world \<Rightarrow> bridge_input \<Rightarrow> running \<Rightarrow> running" where
  "run_branch skip w input s =
     (let s = s\<lparr>rn_bridge := bridge_select w input (rn_bridge s)\<rparr>
      in case input of
           HeartbeatTick \<Rightarrow> s\<lparr>rn_heartbeat := interval_tick skip (w_now w) (rn_heartbeat s)\<rparr>
         | RefreshTick \<Rightarrow> s\<lparr>rn_refresh := interval_tick skip (w_now w) (rn_refresh s)\<rparr>
         | _ \<Rightarrow> s)"

text \<open>
  The loop over the events of its environment. The result is absent while it still waits. An event of a
  branch that is not enabled does not wake it. A handler whose reconnection time is no instant panics, which
  ends the process; one that finds the request channel of the MQTT client full waits for ever, since only the
  loop polls the client, and nothing wakes the loop again. The state returned is then the one before that
  handler.
\<close>

fun run_loop ::
  "(nat \<Rightarrow> nat \<Rightarrow> nat \<Rightarrow> nat) \<Rightarrow> (world \<times> loop_input) list \<Rightarrow> running
     \<Rightarrow> running \<times> (bridge_error, unit) outcome option"
where
  "run_loop skip [] s = (s, None)"
| "run_loop skip ((w, ShutdownSignal r) # inputs) s = (s, Some r)"
| "run_loop skip ((w, Woken input) # inputs) s =
     (if \<not> woken_by w input s then run_loop skip inputs s
      else
        let s' = run_branch skip w input s
        in if instant_overflows (rn_bridge s') then (s, Some Panic)
           else if publishing_blocks w (rn_bridge s) (rn_bridge s') then (s, None)
           else run_loop skip inputs s')"

text \<open>
  \<open>run_until\<close>: an error of the signal handler leaves it at once, the signal shuts the bridge down. The
  environment of the shutdown, the end of a set-up that is cancelled and the result of the disconnect are
  arguments. The result is the final state, the calls of a gateway that was being set up, and the value
  returned; it is absent while the loop waits, and when the shutdown does not find room for its publication
  and for the disconnect in the request channel of the MQTT client.
\<close>

definition shutdown_blocks :: "world \<Rightarrow> bridge \<Rightarrow> bridge \<Rightarrow> bool" where
  "shutdown_blocks w b b' \<longleftrightarrow> w_room w < queued b b' + (if br_mqtt_connected b then 1 else 0)"

definition start_running :: "nat \<Rightarrow> bridge \<Rightarrow> (bridge_error, running) outcome" where
  "start_running now b =
     and_then (configured_interval now (bc_heartbeat_interval (br_config b))) (\<lambda>heartbeat.
     and_then (configured_interval now (bc_status_refresh_interval (br_config b))) (\<lambda>refresh.
       Ok \<lparr>rn_bridge = b, rn_heartbeat = heartbeat, rn_refresh = refresh\<rparr>))"

definition run_until ::
  "(nat \<Rightarrow> nat \<Rightarrow> nat \<Rightarrow> nat) \<Rightarrow> nat \<Rightarrow> (world \<times> loop_input) list \<Rightarrow> world
     \<Rightarrow> (bridge_error, PreparedGateway) outcome \<Rightarrow> (MqttError, unit) outcome \<Rightarrow> bridge
     \<Rightarrow> (bridge \<times> calls \<times> (bridge_error, unit) outcome) option"
where
  "run_until skip now inputs w task disconnected b =
     (case start_running now b of
        Ok s \<Rightarrow>
          (case run_loop skip inputs s of
             (s, None) \<Rightarrow> None
           | (s, Some (Ok _)) \<Rightarrow>
               let ended = bridge_shutdown w task disconnected (rn_bridge s)
               in if shutdown_blocks w (rn_bridge s) (fst ended) then None else Some ended
           | (s, Some (Err e)) \<Rightarrow> Some (rn_bridge s, [], Err e)
           | (s, Some Panic) \<Rightarrow> Some (rn_bridge s, [], Panic))
      | Err e \<Rightarrow> Some (b, [], Err e)
      | Panic \<Rightarrow> Some (b, [], Panic))"

section \<open>The states of a run\<close>

definition inputs_from :: "world set \<Rightarrow> (world \<times> loop_input) list \<Rightarrow> bool" where
  "inputs_from W inputs \<longleftrightarrow> (\<forall>(w, input) \<in> set inputs. w \<in> W \<and> (case input of Woken i \<Rightarrow> genuine i | _ \<Rightarrow> True))"

lemma run_branch_bridge [simp]: "rn_bridge (run_branch skip w input s) = bridge_select w input (rn_bridge s)"
  by (cases input) (simp_all add: run_branch_def)

lemma run_loop_reaches:
  assumes "inputs_from W inputs" "bridge_reaches W start (rn_bridge s)"
  shows "bridge_reaches W start (rn_bridge (fst (run_loop skip inputs s)))"
  using assms
proof (induction skip inputs s rule: run_loop.induct)
  case (3 skip w input inputs s)
  have "bridge_reaches W start (rn_bridge (run_branch skip w input s))" if "woken_by w input s"
    using 3(3,4) that by (auto simp: woken_by_def inputs_from_def intro: reaches_select)
  then show ?case using 3 by (simp add: inputs_from_def Let_def)
qed simp_all

text \<open>A validated configuration has intervals that are not zero; so only their end can be out of range.\<close>

lemma new_bridge_intervals:
  assumes "VeluxMqttBridge_new read_file now config = Ok (b, mqtt)"
  shows "0 < bc_heartbeat_interval (br_config b)" "0 < bc_status_refresh_interval (br_config b)"
  using assms
  by (auto simp: VeluxMqttBridge_new_def VeluxMqttBridgeConfig_validate_def outcome_iffs Let_def split_beta
      split: if_splits prod.splits)

lemma start_running_Panic:
  assumes "VeluxMqttBridge_new read_file now config = Ok (b, mqtt)"
  shows "start_running t b = Panic \<longleftrightarrow>
    INSTANT_MAX < t + max (bc_heartbeat_interval (br_config b)) (bc_status_refresh_interval (br_config b))"
  using new_bridge_intervals [OF assms] by (auto simp: start_running_def configured_interval_def)

lemma start_running_Ok:
  assumes "VeluxMqttBridge_new read_file now config = Ok (b, mqtt)"
    "t + max (bc_heartbeat_interval (br_config b)) (bc_status_refresh_interval (br_config b)) \<le> INSTANT_MAX"
  obtains heartbeat refresh where "start_running t b =
    Ok \<lparr>rn_bridge = b, rn_heartbeat = heartbeat, rn_refresh = refresh\<rparr>"
proof -
  have "t + bc_heartbeat_interval (br_config b) \<le> INSTANT_MAX" "t + bc_status_refresh_interval (br_config b) \<le> INSTANT_MAX"
    using assms(2) by simp_all
  then show thesis
    using new_bridge_intervals [OF assms(1)] that by (simp add: start_running_def configured_interval_def not_less)
qed

text \<open>No handler of a run finds the request channel of the MQTT client full.\<close>

fun never_blocks :: "(nat \<Rightarrow> nat \<Rightarrow> nat \<Rightarrow> nat) \<Rightarrow> (world \<times> loop_input) list \<Rightarrow> running \<Rightarrow> bool" where
  "never_blocks skip [] s \<longleftrightarrow> True"
| "never_blocks skip ((w, ShutdownSignal r) # inputs) s \<longleftrightarrow> True"
| "never_blocks skip ((w, Woken input) # inputs) s \<longleftrightarrow>
     (if woken_by w input s
      then let s' = run_branch skip w input s
           in \<not> publishing_blocks w (rn_bridge s) (rn_bridge s') \<and> never_blocks skip inputs s'
      else never_blocks skip inputs s)"

lemma run_loop_signalled:
  assumes "inputs_from W inputs" "bridge_reaches W start (rn_bridge s)"
    "\<And>b. bridge_reaches W start b \<Longrightarrow> \<not> instant_overflows b" "never_blocks skip inputs s"
    "(w', ShutdownSignal r') \<in> set inputs"
  shows "\<exists>w r. snd (run_loop skip inputs s) = Some r \<and> (w, ShutdownSignal r) \<in> set inputs"
  using assms(1,2,4,5)
proof (induction skip inputs s rule: run_loop.induct)
  case (3 skip w input inputs s)
  let ?s = "run_branch skip w input s"
  have "bridge_reaches W start (rn_bridge ?s)" if "woken_by w input s"
    using 3(3,4) that by (auto simp: woken_by_def inputs_from_def intro: reaches_select)
  then have "woken_by w input s \<Longrightarrow> bridge_reaches W start (rn_bridge ?s) \<and> \<not> instant_overflows (rn_bridge ?s)"
    using assms(3) by blast
  then show ?case using 3 by (auto simp: inputs_from_def Let_def split: if_splits)
qed auto

section \<open>Pace of the timers\<close>

fun heartbeats :: "(nat \<Rightarrow> nat \<Rightarrow> nat \<Rightarrow> nat) \<Rightarrow> (world \<times> loop_input) list \<Rightarrow> running \<Rightarrow> nat" where
  "heartbeats skip [] s = 0"
| "heartbeats skip ((w, ShutdownSignal r) # inputs) s = 0"
| "heartbeats skip ((w, Woken input) # inputs) s =
     (let s' = (if woken_by w input s then run_branch skip w input s else s)
      in (case input of HeartbeatTick \<Rightarrow> if woken_by w input s then 1 else 0 | _ \<Rightarrow> 0)
         + heartbeats skip inputs s')"

lemma run_branch_heartbeat:
  assumes "skips_ticks skip" "woken_by w input s"
  shows "iv_period (rn_heartbeat (run_branch skip w input s)) = iv_period (rn_heartbeat s)"
    "case input of
       HeartbeatTick \<Rightarrow> iv_deadline (rn_heartbeat s) + iv_period (rn_heartbeat s)
           \<le> iv_deadline (rn_heartbeat (run_branch skip w input s))
         \<and> iv_deadline (rn_heartbeat s) \<le> w_now w
     | _ \<Rightarrow> rn_heartbeat (run_branch skip w input s) = rn_heartbeat s"
proof -
  have "iv_deadline (rn_heartbeat s) + iv_period (rn_heartbeat s) \<le>
      skip (iv_deadline (rn_heartbeat s)) (w_now w) (iv_period (rn_heartbeat s))"
    if due: "iv_deadline (rn_heartbeat s) \<le> w_now w"
  proof -
    obtain k where "skip (iv_deadline (rn_heartbeat s)) (w_now w) (iv_period (rn_heartbeat s)) =
        iv_deadline (rn_heartbeat s) + Suc k * iv_period (rn_heartbeat s)"
      using assms(1) due unfolding skips_ticks_def by blast
    then show ?thesis by simp
  qed
  then show "case input of
       HeartbeatTick \<Rightarrow> iv_deadline (rn_heartbeat s) + iv_period (rn_heartbeat s)
           \<le> iv_deadline (rn_heartbeat (run_branch skip w input s))
         \<and> iv_deadline (rn_heartbeat s) \<le> w_now w
     | _ \<Rightarrow> rn_heartbeat (run_branch skip w input s) = rn_heartbeat s"
    using assms(2) by (cases input) (simp_all add: run_branch_def interval_tick_def woken_by_def)
  show "iv_period (rn_heartbeat (run_branch skip w input s)) = iv_period (rn_heartbeat s)"
    by (cases input) (simp_all add: run_branch_def interval_tick_def)
qed

lemma heartbeats_paced:
  assumes "skips_ticks skip" "\<And>w i. (w, i) \<in> set inputs \<Longrightarrow> w_now w \<le> T"
  shows "heartbeats skip inputs s = 0
    \<or> iv_deadline (rn_heartbeat s) + (heartbeats skip inputs s - 1) * iv_period (rn_heartbeat s) \<le> T"
  using assms
proof (induction skip inputs s rule: heartbeats.induct)
  case (3 skip w input inputs s)
  let ?s = "if woken_by w input s then run_branch skip w input s else s"
  have now: "w_now w \<le> T" using 3(3) [of w "Woken input"] by simp
  have IH: "heartbeats skip inputs ?s = 0
    \<or> iv_deadline (rn_heartbeat ?s) + (heartbeats skip inputs ?s - 1) * iv_period (rn_heartbeat ?s) \<le> T"
    by (rule 3(1) [OF refl 3(2)]) (use 3(3) in \<open>meson list.set_intros(2)\<close>)
  show ?case
  proof (cases "woken_by w input s")
    case True
    note b = run_branch_heartbeat [OF 3(2) True]
    show ?thesis
      using IH b now True by (cases input; cases "heartbeats skip inputs ?s") (auto simp: Let_def)
  qed (use IH in \<open>cases input; simp\<close>)
qed simp_all

section \<open>The wait before a reconnection\<close>

text \<open>
  The longest delay a bridge ever waits for: the delay after a reboot, or the longest back-off with its
  jitter. Unless the random numbers leave their range, a handler leaves the next reconnection alone or sets it to a delay up to that from now, and it
  leaves the identity of the discovery alone.
\<close>

definition longest_wait :: "bridge \<Rightarrow> nat" where
  "longest_wait b =
     max (bc_reboot_reconnect_delay (br_config b))
       (rb_maximum (br_reconnect b) + rb_maximum (br_reconnect b) div 4)"

definition waits :: "world \<Rightarrow> bridge \<Rightarrow> bridge \<Rightarrow> bool" where
  "waits w b c \<longleftrightarrow> longest_wait c = longest_wait b \<and> discovery_identity c = discovery_identity b
     \<and> (br_next_reconnect c = br_next_reconnect b
        \<or> ((\<forall>limit. w_random w limit \<le> limit) \<longrightarrow> br_next_reconnect c \<le> w_now w + longest_wait b))"

lemma waits_trans: "waits w b c \<Longrightarrow> waits w c d \<Longrightarrow> waits w b d"
  by (auto simp: waits_def)

lemma waits_publishes: "only_publishes T b c \<Longrightarrow> waits w b c"
  by (simp add: waits_def longest_wait_def only_publishes_simps)

lemma waits_session: "session_step b c \<Longrightarrow> waits w b c"
  by (auto simp: waits_def longest_wait_def session_step_def)

lemma next_delay_longest:
  assumes "backoff_inv r" "next_delay random r = (r', delay)"
  shows "(\<forall>limit. random limit \<le> limit) \<Longrightarrow> delay \<le> rb_maximum r + rb_maximum r div 4" "rb_maximum r' = rb_maximum r"
proof -
  have le: "rb_current r \<le> rb_maximum r" using assms(1) by (simp add: backoff_inv_def)
  define limit :: nat where "limit = (if rb_current r div 4 < 2 ^ 64 then rb_current r div 4 else 2 ^ 64 - 1)"
  have "limit \<le> rb_current r div 4" by (auto simp: limit_def)
  also have "\<dots> \<le> rb_maximum r div 4" using le by (rule div_le_mono)
  finally have limit: "limit \<le> rb_maximum r div 4" .
  have "delay \<le> rb_current r + random limit"
    using assms(2) by (auto simp: next_delay_def Let_def limit_def)
  moreover assume "\<forall>limit. random limit \<le> limit"
  then have "random limit \<le> limit" by blast
  ultimately show "delay \<le> rb_maximum r + rb_maximum r div 4" using le limit by linarith
next
  show "rb_maximum r' = rb_maximum r" using assms(2) by (auto simp: next_delay_def Let_def)
qed

lemma waits_delay:
  assumes "backoff_inv (br_reconnect b)" "next_delay (w_random w) (br_reconnect b) = (backoff, delay)" "br_config c = br_config b"
    "br_reconnect c = backoff" "br_next_reconnect c = w_now w + delay" "discovery_identity c = discovery_identity b"
  shows "waits w b c"
  using next_delay_longest [OF assms(1,2)] assms(3-) by (auto simp: waits_def longest_wait_def)

lemma waits_gateway_failed:
  assumes "backoff_inv (br_reconnect b)"
  shows "waits w b (gateway_failed w b)"
proof (cases "br_gateway b")
  case (Some gw)
  obtain backoff delay where nd: "next_delay (w_random w) (br_reconnect b) = (backoff, delay)" by (rule prod.exhaust)
  let ?b = "b\<lparr>br_gateway := None, br_events := False, br_cache := fst (set_all_available (br_cache b) False),
    br_session_ids := SessionIdAllocator_new, br_reconnect := backoff, br_next_reconnect := w_now w + delay\<rparr>"
  have "waits w b ?b" by (rule waits_delay [OF assms nd]) simp_all
  moreover have "waits w ?b (publish_availability w False ?b)"
    by (rule waits_publishes [OF publishes_availability [OF UNIV_I]])
  ultimately show ?thesis using waits_trans Some nd by (simp add: gateway_failed_def)
qed (simp add: gateway_failed_def waits_def)

lemma waits_reboot: "waits w b (fst (execute_gateway_reboot w b))"
proof (cases "br_gateway b")
  case (Some gw)
  let ?b = "b\<lparr>br_calls := br_calls b @ [CallShutdown True], br_gateway := None, br_events := False,
    br_cache := fst (set_all_available (br_cache b) False), br_session_ids := SessionIdAllocator_new,
    br_reconnect := backoff_reset (br_reconnect b),
    br_next_reconnect := w_now w + bc_reboot_reconnect_delay (br_config b)\<rparr>"
  have "waits w b ?b" by (auto simp: waits_def longest_wait_def backoff_reset_def)
  moreover have "waits w ?b (publish_availability w False ?b)"
    by (rule waits_publishes [OF publishes_availability [OF UNIV_I]])
  ultimately show ?thesis using waits_trans Some
    by (simp add: execute_gateway_reboot_def step_then_def br_gateway_result_def br_call_def Let_def)
qed (simp add: execute_gateway_reboot_def step_then_def br_gateway_result_def waits_def)

lemma waits_cover: "waits w b (fst (execute_cover_command w n action b))" if "br_gateway b = Some gw"
  using that
proof (cases rule: execute_cover_cases [where w = w and n = n and action = action])
  case moved
  then show ?thesis by (rule waits_session)
next
  case (accepted c response session endpoint)
  let ?c = "c\<lparr>br_cache := fst (update_node (br_cache c) n
    (\<lambda>node. apply_command_confirmation node response session endpoint))\<rparr>"
  have c: "waits w c ?c" by (simp add: waits_def longest_wait_def)
  have "waits w ?c (fst (publish_node_status w n ?c))" by (rule waits_publishes [OF publishes_status_any])
  from waits_trans [OF waits_session [OF accepted(1)] waits_trans [OF c this]] show ?thesis
    by (simp only: accepted(2))
qed

lemma waits_response: "waits w b (handle_response w response b)"
proof -
  let ?b = "br_release_finished response b"
  let ?c = "logged (apply_group_response w response) ?b"
  have "session_step b ?b"
    by (cases response) (simp_all add: br_release_finished_def session_step_ops(1) session_step_refl)
  then have b: "waits w b ?b" by (rule waits_session)
  obtain m where m: "only_publishes UNIV (?b\<lparr>br_groups := m\<rparr>) ?c"
    using apply_group_publishes [of ?b UNIV w response] by (auto simp: logged_def)
  have c: "waits w ?b ?c"
    using waits_publishes [OF m] by (simp add: waits_def longest_wait_def)
  let ?d = "?c\<lparr>br_cache := fst (apply_response (br_cache ?c) response)\<rparr>"
  have "waits w ?c ?d" by (simp add: waits_def longest_wait_def)
  moreover have "waits w ?d (handle_response w response b)"
    by (simp add: handle_response_eq Let_def waits_publishes [OF announce_publishes])
  ultimately show ?thesis using b c waits_trans by blast
qed

lemma waits_setup:
  assumes "backoff_inv (br_reconnect b)"
  shows "waits w b (handle_setup_result w result b)"
proof (cases "\<exists>p. result = Ok p")
  case True
  then obtain p where p: "result = Ok p" by blast
  have "waits w b (installed p b)" by (simp add: waits_def longest_wait_def backoff_reset_def)
  with waits_publishes [OF setup_publishes] show ?thesis using waits_trans p by blast
next
  case False
  obtain backoff delay where nd: "next_delay (w_random w) (br_reconnect b) = (backoff, delay)" by (rule prod.exhaust)
  let ?b = "b\<lparr>br_setup := False, br_reconnect := backoff, br_next_reconnect := w_now w + delay\<rparr>"
  have "waits w b ?b" by (rule waits_delay [OF assms nd]) simp_all
  moreover have "waits w ?b (publish_availability w False ?b)"
    by (rule waits_publishes [OF publishes_availability [OF UNIV_I]])
  ultimately have "waits w b (publish_availability w False ?b)" by (rule waits_trans)
  then show ?thesis using False nd by (cases result) (simp_all add: handle_setup_result_def Let_def)
qed

lemma bridge_select_waits:
  assumes "bridge_inv b"
  shows "waits w b (bridge_select w input b)"
proof -
  have refl: "waits w c c" for c by (simp add: waits_def)
  have r: "backoff_inv (br_reconnect b)" using assms by (simp add: bridge_inv_def)
  note failed = waits_gateway_failed
  show ?thesis
  proof (cases input)
    case (MqttPolled result)
    have "waits w b (handle_mqtt_message w message b)" for message
      using waits_cover waits_session [OF execute_group_step] waits_reboot refl
      by (auto simp: handle_mqtt_message_def logged_def split: outcome.split MqttCommand.split)
    moreover have "waits w b (logged (publish_complete_snapshot w) (b\<lparr>br_mqtt_connected := True\<rparr>))"
      "waits w b (publish_availability w False (b\<lparr>br_mqtt_connected := True\<rparr>))"
      using waits_publishes [OF publishes_complete_snapshot, of w "b\<lparr>br_mqtt_connected := True\<rparr>"]
        waits_publishes [OF publishes_availability [OF UNIV_I], of w "b\<lparr>br_mqtt_connected := True\<rparr>"]
      by (simp_all add: logged_def waits_def longest_wait_def)
    moreover have "waits w b (b\<lparr>br_mqtt_connected := False\<rparr>)" by (simp add: waits_def longest_wait_def)
    ultimately show ?thesis
      using MqttPolled refl
      by (simp add: handle_mqtt_result_def Let_def split: outcome.split MqttEvent.split)
  next
    case (SetupFinished result)
    then show ?thesis using waits_setup [OF r] by simp
  next
    case (GatewayEvent event)
    then show ?thesis
      using waits_response waits_session [OF session_step_ops(1)] failed [OF r] refl
      by (cases "(w, event, b)" rule: handle_gateway_event.cases) simp_all
  next
    case ReconnectDue
    then show ?thesis by (simp add: start_gateway_setup_def waits_def longest_wait_def)
  next
    case HeartbeatTick
    let ?c = "b\<lparr>br_calls := br_calls b @ [CallGatewayState]\<rparr>"
    have "waits w b ?c" by (simp add: waits_def longest_wait_def)
    moreover have "waits w ?c (gateway_failed w ?c)" by (rule failed) (simp add: r)
    ultimately show ?thesis
      using HeartbeatTick refl waits_trans [of w b ?c]
      by (auto simp: heartbeat_def br_call_def split: option.split outcome.split)
  next
    case RefreshTick
    then show ?thesis using waits_session [OF refresh_step] by simp
  qed
qed

lemma reaches_discovery_identity:
  assumes "bridge_reaches W start b" "bridge_inv start"
  shows "discovery_identity b = discovery_identity start"
  using assms(1)
proof (induction rule: bridge_reaches.induct)
  case (reaches_select b w input)
  have "waits w b (bridge_select w input b)"
    by (rule bridge_select_waits [OF bridge_reaches_inv [OF reaches_select(1) assms(2)]])
  then show ?case using reaches_select.IH by (simp add: waits_def)
qed simp

text \<open>Environments up to a time, whose random numbers lie in the range that was asked for.\<close>

definition until :: "nat \<Rightarrow> world set" where
  "until T = {w. w_now w \<le> T \<and> (\<forall>limit. w_random w limit \<le> limit)}"

lemma reaches_waits:
  assumes "bridge_reaches W start b" "W \<subseteq> until T" "bridge_inv start" "br_next_reconnect start \<le> T + longest_wait start"
  shows "longest_wait b = longest_wait start \<and> br_next_reconnect b \<le> T + longest_wait start"
  using assms(1)
proof (induction rule: bridge_reaches.induct)
  case (reaches_select b w input)
  have w: "w_now w \<le> T" "\<And>limit. w_random w limit \<le> limit" using reaches_select(2) assms(2) by (auto simp: until_def)
  have "waits w b (bridge_select w input b)"
    by (rule bridge_select_waits [OF bridge_reaches_inv [OF reaches_select(1) assms(3)]])
  then show ?case using reaches_select.IH w by (auto simp: waits_def)
qed (use assms(4) in simp)

section \<open>A set-up brings the bridge online\<close>

text \<open>A serialiser of the discovery that always answers.\<close>

definition serialises :: "serde_device \<Rightarrow> bool" where
  "serialises serde \<longleftrightarrow> (\<forall>d. \<exists>bytes. device_to_vec serde d = Ok bytes)
     \<and> (\<forall>d removed. \<exists>bytes. removal_to_string serde d removed = Ok bytes)"

lemma publications_serialised:
  assumes "serialises serde"
  shows "\<exists>ps. snd (publications serde d topics nodes groups) = Ok ps"
proof -
  obtain f g where "\<And>c. device_to_vec serde c = Ok (f c)" "\<And>c rs. removal_to_string serde c rs = Ok (g c rs)"
    using assms unfolding serialises_def by metis
  then show ?thesis by (simp add: publications_def Let_def)
qed

lemma discovery_published:
  assumes "w \<in> reliable v" "serialises (w_serde w)"
  shows "snd (publish_hass_discovery w b) = Ok ()"
proof (cases "br_discovery b")
  case (Some d)
  obtain d' ps where "publications (w_serde w) d (br_topics b) (map snd (br_cache b)) (map snd (br_groups b)) = (d', Ok ps)"
    using publications_serialised [OF assms(2)] by (metis prod.collapse)
  then show ?thesis
    by (simp add: publish_hass_discovery_def Some step_then_def publish_results_reliable [OF assms(1)])
qed (simp add: publish_hass_discovery_def)

lemma snapshot_online:
  assumes "w \<in> reliable v" "documents v" "serialises (w_serde w)" "cache_inv (br_cache b)" "groups_inv (br_groups b)"
  shows "broker (fst (publish_complete_snapshot w b)) (topic_state (br_topics b)) = Some (as_bytes ONLINE_PAYLOAD)"
proof -
  obtain e where e: "only_publishes UNIV b e"
      "publish_complete_snapshot w b = step_then (publish_hass_discovery w)
         (\<lambda>_ b. br_publish w (availability_publication (br_topics b) True) b) e"
    by (rule snapshot_before_discovery [OF assms(1,2,4,5)])
  obtain f where f: "publish_hass_discovery w e = (f, Ok ())"
    using discovery_published [OF assms(1,3), of e] by (cases "publish_hass_discovery w e") simp
  have "br_topics f = br_topics b"
    using only_publishes_simps(2) [OF publishes_discovery [OF order_refl, of e w]] only_publishes_simps(2) [OF e(1)] f
    by simp
  then show ?thesis
    by (simp add: e(2) step_then_def f br_publish_reliable [OF assms(1)] broker_def availability_publication_def
        ONLINE_PAYLOAD_def)
qed

lemma setup_online:
  assumes "w \<in> reliable v" "documents v" "serialises (w_serde w)" "setup_genuine (Ok p)" "br_mqtt_connected b"
  shows "broker (handle_setup_result w (Ok p) b) (topic_state (br_topics b)) = Some (as_bytes ONLINE_PAYLOAD)"
proof -
  let ?b = "installed p b"
  have "broker (logged (publish_complete_snapshot w)
      (logged (clear_removed_groups w gs) (logged (clear_removed_nodes w ns) ?b))) (topic_state (br_topics b)) =
      Some (as_bytes ONLINE_PAYLOAD)" for gs ns
  proof -
    have nodes: "only_publishes UNIV ?b (logged (clear_removed_nodes w ns) ?b)"
      by (intro publishes_logged publishing)
    have groups: "only_publishes UNIV c (logged (clear_removed_groups w gs) c)" for c
      by (intro publishes_logged publishing) simp_all
    note same = only_publishes_simps [OF only_publishes_trans [OF nodes groups]]
    show ?thesis
      using snapshot_online [OF assms(1-3), of "logged (clear_removed_groups w gs) (logged (clear_removed_nodes w ns) ?b)"]
        same prepared_inv [OF assms(4)] by (simp add: logged_def)
  qed
  then show ?thesis using assms(5) by (simp add: handle_setup_result_def Let_def)
qed

lemma new_bridge_wait:
  assumes "VeluxMqttBridge_new read_file now config = Ok (b, mqtt)"
  shows "longest_wait b = max (bc_reboot_reconnect_delay config)
      (bc_reconnect_max_delay config + bc_reconnect_max_delay config div 4)"
    "rb_minimum (br_reconnect b) = bc_reconnect_min_delay config"
  using assms
  by (auto simp: VeluxMqttBridge_new_def VeluxMqttBridgeConfig_validate_def outcome_iffs Let_def split_beta
      longest_wait_def ReconnectBackoff_new_def split: if_splits prod.splits)

text \<open>
  In a run up to a given time, the bridge asks the gateway for its state at most once per heartbeat
  interval that has passed since the start, however late the timer is served.
\<close>

lemma heartbeats_are_paced:
  assumes "skips_ticks skip" "start_running start b = Ok s" "\<And>w i. (w, i) \<in> set inputs \<Longrightarrow> w_now w \<le> start + T"
  shows "heartbeats skip inputs s * bc_heartbeat_interval (br_config b) \<le> T"
proof -
  have "iv_deadline (rn_heartbeat s) = start + bc_heartbeat_interval (br_config b)"
    "iv_period (rn_heartbeat s) = bc_heartbeat_interval (br_config b)"
    using assms(2) by (auto simp: start_running_def configured_interval_def and_then_eq_Ok_iff split: if_splits)
  moreover have "heartbeats skip inputs s = 0 \<or> iv_deadline (rn_heartbeat s)
      + (heartbeats skip inputs s - 1) * iv_period (rn_heartbeat s) \<le> start + T"
    by (rule heartbeats_paced [OF assms(1)]) (rule assms(3))
  ultimately show ?thesis
    by (cases "heartbeats skip inputs s") auto
qed

section \<open>Properties\<close>

text \<open>
  C11. A lost gateway is set up again: in every state without a gateway a set-up is running or, at the
  latest one longest delay after whatever happened last, can be started; and a set-up that succeeds
  installs its gateway and its nodes, resets the back-off and, when the broker is connected and its client
  has room for what is published, ends with the availability topic saying online.
\<close>

theorem bridge_recovers:
  assumes "VeluxMqttBridge_new read_file now config = Ok (b0, mqtt)"
    "bc_reconnect_max_delay config \<le> DURATION_MAX" "now \<le> T" "bridge_reaches (until T) b0 b" "br_gateway b = None"
    "w \<in> reliable to_vec" "documents to_vec" "serialises (w_serde w)" "setup_genuine (Ok p)"
    "T + max (bc_reboot_reconnect_delay config)
       (bc_reconnect_max_delay config + bc_reconnect_max_delay config div 4) \<le> w_now w"
  shows "let b1 = (if br_setup b then b else bridge_select w ReconnectDue b);
      b2 = bridge_select w (SetupFinished (Ok p)) b1
    in (br_setup b \<or> input_enabled w ReconnectDue b) \<and> input_enabled w (SetupFinished (Ok p)) b1
       \<and> br_gateway b2 = Some (prep_gateway p) \<and> br_cache b2 = prep_cache p
       \<and> rb_current (br_reconnect b2) = rb_minimum (br_reconnect b)
       \<and> (br_mqtt_connected b \<longrightarrow> broker b2 (topic_state (br_topics b)) = Some (as_bytes ONLINE_PAYLOAD))"
proof -
  have "br_next_reconnect b \<le> w_now w"
    using reaches_waits [OF assms(4) order_refl bridge_inv_new [OF assms(1,2)]]
      new_bridge_idle(3) [OF assms(1)] new_bridge_wait(1) [OF assms(1)] assms(3,10) by simp
  then have enabled: "br_setup b \<or> input_enabled w ReconnectDue b" using assms(5) by (simp add: input_enabled_def)
  let ?b1 = "if br_setup b then b else bridge_select w ReconnectDue b"
  have b1: "br_setup ?b1" "br_mqtt_connected ?b1 = br_mqtt_connected b" "br_topics ?b1 = br_topics b"
    "br_reconnect ?b1 = br_reconnect b"
    by (simp_all add: start_gateway_setup_def)
  note b2 = only_publishes_simps [OF setup_publishes [of p ?b1 w]]
  have "input_enabled w (SetupFinished (Ok p)) ?b1" using b1(1) by (simp add: input_enabled_def)
  moreover have "br_mqtt_connected b \<longrightarrow> broker (handle_setup_result w (Ok p) ?b1) (topic_state (br_topics b)) =
      Some (as_bytes ONLINE_PAYLOAD)"
    using setup_online [OF assms(6-9), of ?b1] b1 by auto
  ultimately show ?thesis
    using enabled b1(4) unfolding Let_def bridge_select.simps(2) b2 by (simp add: backoff_reset_def)
qed

text \<open>The first set-up of a new bridge, after the longest delay of the default configuration.\<close>

definition late_world :: world where
  "late_world = example_world\<lparr>w_now := 75000\<rparr>"

lemma late_world_reliable: "late_world \<in> reliable (\<lambda>_. Ok [0x7B, 0x7D])" "serialises (w_serde late_world)"
  by (simp_all add: late_world_def example_world_def reliable_def all_queued_def serialises_def example_serde_def)

lemma example_delays:
  "bc_reconnect_max_delay example_config \<le> DURATION_MAX"
  "max (bc_reboot_reconnect_delay example_config)
     (bc_reconnect_max_delay example_config + bc_reconnect_max_delay example_config div 4) = 75000"
  by (simp_all add: example_config_def VeluxMqttBridgeConfig_new_def DURATION_MAX_def)

theorem bridge_recovers_witness:
  "\<exists>b0 mqtt p. VeluxMqttBridge_new (\<lambda>_. Ok []) 0 example_config = Ok (b0, mqtt)
     \<and> br_gateway (bridge_select late_world (SetupFinished (Ok p)) (bridge_select late_world ReconnectDue b0)) =
         Some (prep_gateway p)"
proof -
  obtain b0 mqtt where new: "VeluxMqttBridge_new (\<lambda>_. Ok []) 0 example_config = Ok (b0, mqtt)"
    "br_gateway b0 = None" "\<not> br_setup b0" by (rule example_new)
  obtain p calls where p: "prepare_gateway (Ok example_gateway) NotCancelled ''pw'' = (calls, Ok p)"
    by (rule example_prepared)
  have genuine_p: "setup_genuine (Ok p)"
    using p unfolding setup_genuine_def example_gateway_def by blast
  have late: "0 + max (bc_reboot_reconnect_delay example_config)
     (bc_reconnect_max_delay example_config + bc_reconnect_max_delay example_config div 4) \<le> w_now late_world"
    by (simp only: example_delays(2)) (simp add: late_world_def)
  from bridge_recovers [OF new(1) example_delays(1) order_refl reaches_start new(2) late_world_reliable(1)
      example_reliable(1) late_world_reliable(2) genuine_p late] new
  show ?thesis by (auto simp: Let_def)
qed

section \<open>The end of a run\<close>

text \<open>The shutdown queues at most the availability and the disconnect.\<close>

lemma shutdown_finds_room:
  assumes "bridge_shutdown w task disconnected b = (c, calls, r)" "2 \<le> w_room w"
  shows "\<not> shutdown_blocks w b c"
  using assms(2) unfolding bridge_shutdown_eq(1) [OF assms(1)]
  by (auto simp: shutdown_blocks_def queued_def publish_availability_def br_publish_def publish_def Let_def
      split: option.split)

text \<open>Within the time that the longest delay leaves, no handler computes a time that is no instant.\<close>

lemma never_overflows:
  assumes "VeluxMqttBridge_new read_file now config = Ok (b0, mqtt)" "bc_reconnect_max_delay config \<le> DURATION_MAX"
    "now \<le> T" "W \<subseteq> until T"
    "T + max (bc_reboot_reconnect_delay config)
       (bc_reconnect_max_delay config + bc_reconnect_max_delay config div 4) \<le> INSTANT_MAX"
    "bridge_reaches W b0 b"
  shows "\<not> instant_overflows b"
  using reaches_waits [OF assms(6,4) bridge_inv_new [OF assms(1,2)]]
    new_bridge_idle(3) [OF assms(1)] new_bridge_wait(1) [OF assms(1)] assms(3,5)
  by (simp add: instant_overflows_def)

text \<open>
  A run that is ended by a signal returns, when no handler blocks and no time is out of range: after any
  sequence of events the bridge has no gateway and no set-up left; a broker it is connected to retains that
  it is offline; a gateway it had received its shutdown as the last call; and the only error it can return is
  that of the MQTT disconnect.
\<close>

lemma run_ends_offline:
  assumes new: "VeluxMqttBridge_new read_file now config = Ok (b0, mqtt)"
    and W: "W \<subseteq> reliable to_vec" "inputs_from W inputs" "w \<in> reliable to_vec" "2 \<le> w_room w"
    and overflow: "\<And>b. bridge_reaches W b0 b \<Longrightarrow> \<not> instant_overflows b"
    and range: "start + max (bc_heartbeat_interval (br_config b0)) (bc_status_refresh_interval (br_config b0)) \<le> INSTANT_MAX"
    and blocks: "\<And>s. start_running start b0 = Ok s \<Longrightarrow> never_blocks skip inputs s"
    and signal: "(w', ShutdownSignal (Ok ())) \<in> set inputs" "\<And>v r. (v, ShutdownSignal r) \<in> set inputs \<Longrightarrow> r = Ok ()"
  shows "\<exists>b c calls r. bridge_reaches W b0 b
    \<and> run_until skip start inputs w task disconnected b0 = Some (c, calls, r)
    \<and> br_gateway c = None \<and> \<not> br_setup c
    \<and> (br_mqtt_connected c \<longrightarrow> broker c (topic_state (br_topics c)) = Some (as_bytes OFFLINE_PAYLOAD))
    \<and> (br_gateway b \<noteq> None \<longrightarrow> br_calls c = br_calls b @ [CallShutdown (bc_reboot_on_shutdown (br_config b))])
    \<and> r = (if br_mqtt_connected c then map_err MqttFailure disconnected else Ok ())"
proof -
  obtain heartbeat refresh where s: "start_running start b0 =
      Ok \<lparr>rn_bridge = b0, rn_heartbeat = heartbeat, rn_refresh = refresh\<rparr>" by (rule start_running_Ok [OF new range])
  let ?s = "\<lparr>rn_bridge = b0, rn_heartbeat = heartbeat, rn_refresh = refresh\<rparr>"
  have start: "bridge_reaches W b0 (rn_bridge ?s)" by (simp add: reaches_start)
  obtain v r' where "snd (run_loop skip inputs ?s) = Some r'" "(v, ShutdownSignal r') \<in> set inputs"
    using run_loop_signalled [OF W(2) start overflow blocks [OF s] signal(1)] by blast
  with signal(2) obtain s' where s': "run_loop skip inputs ?s = (s', Some (Ok ()))" by (metis prod.collapse)
  let ?b = "rn_bridge s'"
  obtain c calls r where c: "bridge_shutdown w task disconnected ?b = (c, calls, r)" by (metis prod_cases3)
  note eq = bridge_shutdown_eq [OF c]
  note pub = only_publishes_simps [OF publishes_availability [OF UNIV_I, of "?b\<lparr>br_setup := False\<rparr>" w False]]
  have "bridge_reaches W b0 ?b" using run_loop_reaches [OF W(2) start, of skip] s' by simp
  moreover have "run_until skip start inputs w task disconnected b0 = Some (c, calls, r)"
    using shutdown_finds_room [OF c W(4)] by (simp add: run_until_def s s' c)
  moreover have "br_gateway c = None" "\<not> br_setup c" "br_mqtt_connected c = br_mqtt_connected ?b"
    "br_gateway ?b \<noteq> None \<longrightarrow> br_calls c = br_calls ?b @ [CallShutdown (bc_reboot_on_shutdown (br_config ?b))]"
    using pub unfolding eq(1) Let_def by (cases "br_gateway ?b"; simp)+
  moreover have "br_mqtt_connected ?b \<longrightarrow> broker c (topic_state (br_topics c)) = Some (as_bytes OFFLINE_PAYLOAD)"
    using offline_retained [OF W(3), of "?b\<lparr>br_setup := False\<rparr>"] pub
    unfolding eq(1) Let_def by (cases "br_gateway ?b") (simp_all add: broker_def)
  ultimately show ?thesis using eq(3) by (intro exI [of _ ?b] exI [of _ c] exI [of _ calls] exI [of _ r]) simp
qed

section \<open>Runs that do not end well\<close>

text \<open>
  The delay after a requested reboot is accepted up to the largest 64-bit number of seconds; a delay that ends
  after the last instant makes the request for a reboot end the process.
\<close>

theorem huge_reboot_delay_panics:
  assumes "br_gateway (rn_bridge s) = Some gw" "parse_command (br_topics (rn_bridge s)) message = Ok GatewayReboot"
    "INSTANT_MAX < w_now w + bc_reboot_reconnect_delay (br_config (rn_bridge s))"
  shows "run_loop skip ((w, Woken (MqttPolled (Ok (Message message)))) # inputs) s = (s, Some Panic)"
proof -
  have "br_next_reconnect (handle_mqtt_result w (Ok (Message message)) (rn_bridge s)) =
      w_now w + bc_reboot_reconnect_delay (br_config (rn_bridge s))"
    using assms(1,2)
    by (auto simp: handle_mqtt_result_def handle_mqtt_message_def logged_def execute_gateway_reboot_def
        step_then_def br_gateway_result_def br_call_def Let_def publish_availability_def br_publish_def
        split: option.splits prod.splits outcome.splits)
  then show ?thesis
    using assms(3) by (simp add: woken_by_def input_enabled_def instant_overflows_def)
qed

text \<open>
  What a snapshot queues before it comes to the discovery: the availability, the two inventories, an information
  document for every node and every group, and four status messages for every cover.
\<close>

definition snapshot_size :: "bridge \<Rightarrow> nat" where
  "snapshot_size b = 3 + sum_list (map (\<lambda>n. if is_controllable n then 5 else 1) (map snd (br_cache b)))
     + length (br_groups b)"

definition queues :: "nat \<Rightarrow> bridge \<Rightarrow> bridge \<Rightarrow> bool" where
  "queues n b c \<longleftrightarrow> (\<exists>ps. c = b\<lparr>br_mqtt := br_mqtt b @ map (\<lambda>p. (p, None)) ps\<rparr> \<and> length ps = n)"

lemma queues_simps:
  assumes "queues n b c"
  shows "br_topics c = br_topics b" "br_cache c = br_cache b" "br_groups c = br_groups b"
  using assms by (auto simp: queues_def)

lemma queues_trans: "queues m b c \<Longrightarrow> queues n c d \<Longrightarrow> queues (m + n) b d"
  unfolding queues_def by (elim exE conjE) (rule_tac x = "ps @ psa" in exI, simp)

lemma queues_0: "queues 0 b b"
  by (simp add: queues_def)

text \<open>A step that queues a number of publications and succeeds.\<close>

definition queueing :: "nat \<Rightarrow> unit bridge_step \<Rightarrow> bool" where
  "queueing n f \<longleftrightarrow> (\<forall>b. \<exists>c. f b = (c, Ok ()) \<and> queues n b c)"

lemma queueing_then:
  assumes "queueing m f" "queueing n g"
  shows "queueing (m + n) (step_then f (\<lambda>_. g))"
proof -
  have "\<exists>d. step_then f (\<lambda>_. g) b = (d, Ok ()) \<and> queues (m + n) b d" for b
  proof -
    obtain c where c: "f b = (c, Ok ())" "queues m b c" using assms(1) unfolding queueing_def by blast
    obtain d where "g c = (d, Ok ())" "queues n c d" using assms(2) unfolding queueing_def by blast
    then show ?thesis using c queues_trans by (auto simp: step_then_def)
  qed
  then show ?thesis by (simp add: queueing_def)
qed

lemma queueing_for_each:
  assumes "\<And>x. queueing (size_of x) (f x)"
  shows "queueing (sum_list (map size_of xs)) (step_for_each f xs)"
proof (induction xs)
  case Nil
  show ?case by (simp add: queueing_def step_return_def queues_0)
next
  case (Cons x xs)
  then show ?case using queueing_then [OF assms Cons.IH] by simp
qed

lemma queueing_publish:
  assumes "w \<in> reliable v" "documents v"
  shows "queueing 1 (\<lambda>b. br_publish w (p b) b)"
    and "queueing 1 (\<lambda>b. publish_result w (map_ok (g b) (serialize_json (w_to_vec w) (value b))) b)"
    and "queueing 4 (\<lambda>b. publish_results w (status_publications (w_to_vec w) (br_topics b) node) b)"
proof -
  have w: "w_to_vec w = v" using assms(1) by (simp add: reliable_def)
  obtain json where json: "\<And>x. serialize_json v x = Ok (json x)" using serialize_documents [OF assms(2)] by metis
  show "queueing 1 (\<lambda>b. br_publish w (p b) b)"
    by (auto simp: queueing_def queues_def br_publish_reliable [OF assms(1)] intro!: exI [of _ "[_]"])
  show "queueing 1 (\<lambda>b. publish_result w (map_ok (g b) (serialize_json (w_to_vec w) (value b))) b)"
    by (auto simp: queueing_def queues_def w json publish_result_reliable [OF assms(1)] intro!: exI [of _ "[_]"])
  show "queueing 4 (\<lambda>b. publish_results w (status_publications (w_to_vec w) (br_topics b) node) b)"
    by (auto simp: queueing_def queues_def w json status_publications_def Let_def
        publish_results_reliable [OF assms(1)] intro!: exI [of _ "[_, _, _, _]"])
qed

lemma queueing_node:
  assumes "w \<in> reliable v" "documents v"
  shows "queueing (if is_controllable node then 5 else 1) (publish_snapshot_node w node)"
proof -
  have info: "queueing 1 (\<lambda>b. publish_result w (info_publication (w_to_vec w) (br_topics b) node) b)"
    unfolding info_publication_def by (rule queueing_publish(2) [OF assms])
  have none: "queueing 0 (\<lambda>b. (b, Ok ()))" by (simp add: queueing_def queues_0)
  show ?thesis
    using queueing_then [OF info queueing_publish(3) [OF assms, of node]] queueing_then [OF info none]
    by (simp add: publish_snapshot_node_def)
qed

lemma queueing_applied:
  assumes "queueing n f"
  obtains c where "f b = (c, Ok ())" "queues n b c"
  using assms unfolding queueing_def by blast

lemma snapshot_queues:
  assumes "w \<in> reliable v" "documents v"
  obtains e where "queues (snapshot_size b) b e"
    "publish_complete_snapshot w b = step_then (publish_hass_discovery w)
       (\<lambda>_ b. br_publish w (availability_publication (br_topics b) True) b) e"
proof -
  have inventories: "queueing 1 (publish_node_inventory w)" "queueing 1 (publish_group_inventory w)"
    unfolding publish_node_inventory_def publish_group_inventory_def inventory_publication_def groups_publication_def
    by (rule queueing_publish(2) [OF assms])+
  obtain b1 where b1: "br_publish w (availability_publication (br_topics b) False) b = (b1, Ok ())" "queues 1 b b1"
    by (rule queueing_applied [OF queueing_publish(1) [OF assms, of "\<lambda>b. availability_publication (br_topics b) False"]])
  obtain b2 where b2: "publish_node_inventory w b1 = (b2, Ok ())" "queues 1 b1 b2"
    by (rule queueing_applied [OF inventories(1)])
  obtain c where c: "publish_group_inventory w b2 = (c, Ok ())" "queues 1 b2 c"
    by (rule queueing_applied [OF inventories(2)])
  obtain d where d: "step_for_each (publish_snapshot_node w) (map snd (br_cache b)) c = (d, Ok ())"
      "queues (sum_list (map (\<lambda>n. if is_controllable n then 5 else 1) (map snd (br_cache b)))) c d"
    by (rule queueing_applied [OF queueing_for_each [OF queueing_node [OF assms]]])
  have "queueing 1 (publish_group_info w g)" for g
    unfolding publish_group_info_def group_info_publication_def by (rule queueing_publish(2) [OF assms])
  then obtain e where e: "step_for_each (publish_group_info w) (map snd (br_groups b)) d = (e, Ok ())"
      "queues (sum_list (map (\<lambda>_. 1) (map snd (br_groups b)))) d e"
    by (rule queueing_applied [OF queueing_for_each])
  note same = queues_simps [OF b1(2)] queues_simps [OF b2(2)] queues_simps [OF c(2)] queues_simps [OF d(2)]
  have "queues (snapshot_size b) b e"
    using queues_trans [OF queues_trans [OF queues_trans [OF queues_trans [OF b1(2) b2(2)] c(2)] d(2)] e(2)]
    by (simp add: snapshot_size_def comp_def sum_list_triv numeral_3_eq_3)
  moreover have "publish_complete_snapshot w b = step_then (publish_hass_discovery w)
      (\<lambda>_ b. br_publish w (availability_publication (br_topics b) True) b) e"
    using b1(1) b2(1) c(1) d(1) e(1) same by (simp add: publish_complete_snapshot_def step_then_def)
  ultimately show thesis using that by blast
qed

lemma snapshot_queued:
  assumes "w \<in> reliable v" "documents v"
  shows "snapshot_size b \<le> queued b (fst (publish_complete_snapshot w b))"
proof -
  obtain e where e: "queues (snapshot_size b) b e" "publish_complete_snapshot w b = step_then (publish_hass_discovery w)
       (\<lambda>_ b. br_publish w (availability_publication (br_topics b) True) b) e"
    by (rule snapshot_queues [OF assms])
  have "only_publishes UNIV e (fst (publish_complete_snapshot w b))"
    unfolding e(2) by (intro only_publishes_then publishes_discovery only_publishes_publish subset_UNIV UNIV_I)
  then obtain qs where "br_mqtt (fst (publish_complete_snapshot w b)) = br_mqtt e @ qs"
    unfolding only_publishes_def by auto
  then show ?thesis using e(1) by (auto simp: queues_def queued_def filter_map comp_def)
qed

text \<open>
  A snapshot larger than the room in the request channel of the MQTT client blocks the loop for ever, whatever
  happens then, a signal included.
\<close>

theorem large_snapshot_blocks:
  assumes "w \<in> reliable v" "documents v" "br_gateway (rn_bridge s) \<noteq> None" "\<not> instant_overflows (rn_bridge s)"
    "w_room w < snapshot_size (rn_bridge s)"
  shows "run_loop skip ((w, Woken (MqttPolled (Ok Connected))) # inputs) s = (s, None)"
proof -
  let ?b = "(rn_bridge s)\<lparr>br_mqtt_connected := True\<rparr>"
  have "br_next_reconnect (fst (publish_complete_snapshot w ?b)) = br_next_reconnect (rn_bridge s)"
    using only_publishes_simps [OF publishes_complete_snapshot [of ?b w]] by simp
  moreover have "queued (rn_bridge s) c = queued ?b c" "snapshot_size ?b = snapshot_size (rn_bridge s)" for c
    by (simp_all add: queued_def snapshot_size_def)
  ultimately show ?thesis
    using assms(3-5) snapshot_queued [OF assms(1,2), of ?b]
    by (simp add: woken_by_def input_enabled_def handle_mqtt_result_def logged_def publishing_blocks_def
        instant_overflows_def Let_def)
qed

text \<open>So do 51 covers with the default capacity of 256 requests.\<close>

theorem fifty_one_covers_block:
  assumes "w \<in> reliable v" "documents v" "br_gateway (rn_bridge s) \<noteq> None" "\<not> instant_overflows (rn_bridge s)"
    "w_room w \<le> mc_request_capacity (MqttConfig_new server)"
    "51 \<le> length (filter is_controllable (map snd (br_cache (rn_bridge s))))"
  shows "run_loop skip ((w, Woken (MqttPolled (Ok Connected))) # inputs) s = (s, None)"
proof (rule large_snapshot_blocks [OF assms(1-4)])
  have "5 * length (filter is_controllable ns) \<le> sum_list (map (\<lambda>n. if is_controllable n then 5 else 1) ns)" for ns
    by (induction ns) simp_all
  from this [of "map snd (br_cache (rn_bridge s))"] show "w_room w < snapshot_size (rn_bridge s)"
    using assms(5,6) by (simp add: snapshot_size_def MqttConfig_new_def)
qed

end
