(* ===== verification/Bridge_Discovery.thy ===== *)
theory Bridge_Discovery
  imports Bridge_Inventory Bridge_Run
begin

text \<open>
  The Home Assistant configuration of the gateway device at the broker: a third view the bridge maintains.
\<close>

section \<open>What Home Assistant finds\<close>

text \<open>
  The device topic holds the description of the controllable nodes and the groups the bridge knows; without
  any it is cleared.
\<close>

definition discovery_shown :: "serde_device \<Rightarrow> bridge \<Rightarrow> bool" where
  "discovery_shown serde b \<longleftrightarrow>
     (case br_discovery b of
        None \<Rightarrow> True
      | Some d \<Rightarrow>
          (let cmps = components (br_topics b) d (map snd (br_cache b)) (map snd (br_groups b))
           in if cmps = [] then broker b (device_topic d) = None
              else \<exists>payload. device_to_vec serde (device_discovery (br_topics b) d cmps) = Ok payload
                     \<and> broker b (device_topic d) = Some payload))"

text \<open>An environment in which publications are taken and both serialisers answer with documents.\<close>

definition describes :: "to_vec \<times> serde_device \<Rightarrow> world set" where
  "describes = (\<lambda>(v, serde). reliable v \<inter> {w. w_serde w = serde})"

definition description_answers :: "to_vec \<times> serde_device \<Rightarrow> bool" where
  "description_answers = (\<lambda>(v, serde). documents v \<and> serialises serde
     \<and> (\<forall>d. device_to_vec serde d \<noteq> Ok []))"

section \<open>Publishing the discovery\<close>

lemma known_components_irrelevant:
  "components topics (d\<lparr>ha_known_components := k\<rparr>) nodes groups = components topics d nodes groups"
  "device_discovery topics (d\<lparr>ha_known_components := k\<rparr>) cmps = device_discovery topics d cmps"
  "device_topic (d\<lparr>ha_known_components := k\<rparr>) = device_topic d"
proof -
  have "unique_id (d\<lparr>ha_known_components := k\<rparr>) = unique_id d"
    "group_unique_id (d\<lparr>ha_known_components := k\<rparr>) = group_unique_id d"
    by (simp_all add: unique_id_def group_unique_id_def fun_eq_iff)
  then show "components topics (d\<lparr>ha_known_components := k\<rparr>) nodes groups = components topics d nodes groups"
    by (simp add: components_def node_component_def group_component_def)
qed (simp_all add: device_discovery_def device_topic_def device_identifier_def)

lemma broker_append:
  "broker (b\<lparr>br_mqtt := br_mqtt b @ map (\<lambda>p. (p, None)) ps\<rparr>) = retain_all ps (broker b)"
  by (simp add: broker_def filter_map comp_def retain_all_def)

lemma discovery_published_shown:
  assumes "w \<in> describes (v, serde)" "description_answers (v, serde)" "br_mqtt_connected b"
  shows "discovery_shown serde (fst (publish_hass_discovery w b))"
proof (cases "br_discovery b")
  case (Some d)
  have w: "w \<in> reliable v" "w_serde w = serde" using assms(1) by (simp_all add: describes_def)
  let ?cmps = "components (br_topics b) d (map snd (br_cache b)) (map snd (br_groups b))"
  obtain d' ps where p: "publications serde d (br_topics b) (map snd (br_cache b)) (map snd (br_groups b)) = (d', Ok ps)"
    using publications_serialised assms(2) by (metis (no_types, lifting) description_answers_def prod.case prod.collapse)
  then obtain payload removal where ps: "ps = (map (\<lambda>uid. retained (cover_topic d uid) (as_bytes MIGRATE)) (btree_keys ?cmps) @ removal)
       @ retained (device_topic d) payload # map clear (map (cover_topic d) (btree_keys ?cmps))"
    "if ?cmps = [] then payload = []
     else serialization_result (device_to_vec serde (device_discovery (br_topics b) d ?cmps)) = Ok payload"
    "d' = d\<lparr>ha_known_components := btree_keys ?cmps\<rparr>"
    by (rule publications_Ok) simp
  let ?c = "b\<lparr>br_mqtt := br_mqtt b @ map (\<lambda>p. (p, None)) ps\<rparr>"
  have c: "fst (publish_hass_discovery w b) = ?c\<lparr>br_discovery := Some d'\<rparr>"
    by (simp add: publish_hass_discovery_def Some assms(3) w(2) p step_then_def publish_results_reliable [OF w(1)])
  have "device_topic d \<notin> set (map (cover_topic d) (btree_keys ?cmps))"
    using cover_topic_not_device [of d] by (metis (no_types, lifting) imageE set_map)
  then have device: "broker ?c (device_topic d) = (if payload = [] then None else Some payload)"
    unfolding broker_append ps(1) by (simp only: retain_all_simps retain_all_clear retain_retained fun_upd_same if_False)
  have "?cmps \<noteq> [] \<Longrightarrow> device_to_vec serde (device_discovery (br_topics b) d ?cmps) = Ok payload \<and> payload \<noteq> []"
    using ps(2) assms(2)
    by (cases "device_to_vec serde (device_discovery (br_topics b) d ?cmps)") (auto simp: description_answers_def)
  moreover have "broker (?c\<lparr>br_discovery := Some d'\<rparr>) = broker ?c" by (rule broker_same) simp
  ultimately show ?thesis
    unfolding c using device ps(2,3) by (auto simp: discovery_shown_def known_components_irrelevant Let_def)
qed (simp add: publish_hass_discovery_def discovery_shown_def)

section \<open>What leaves the discovery alone\<close>

text \<open>Publications of the availability or of the status of a node neither touch the device topic nor the discovery.\<close>

lemma discovery_shown_quiet:
  assumes "only_publishes T b c" "T \<inter> discovery_topics = {}" "br_discovery c = br_discovery b" "discovery_shown serde b"
  shows "discovery_shown serde c"
proof -
  have "device_topic d \<in> discovery_topics" for d
    unfolding discovery_topics_def device_topic_def mem_Collect_eq by (metis append.assoc)
  then have "broker c (device_topic d) = broker b (device_topic d)" for d
    using broker_other [OF assms(1)] assms(2) by blast
  then show ?thesis using assms(4) only_publishes_simps [OF assms(1)]
    by (simp add: discovery_shown_def assms(3) Let_def split: option.splits)
qed

lemma state_not_discovery: "topic_state topics \<notin> discovery_topics"
  by (auto simp: topic_defs discovery_topics_def append_eq_append_conv2)

lemma status_publication_quiet:
  assumes "cache_inv (br_cache b)" "discovery_shown serde b"
  shows "discovery_shown serde (fst (publish_node_status w n b))"
proof (rule discovery_shown_quiet [OF publishes_node(2) [OF assms(1) order_refl] _ _ assms(2)])
  show "status_topics (br_topics b) n \<inter> discovery_topics = {}" using status_topics_apart(1) by blast
  have "br_discovery (fst (publish_results w r c)) = br_discovery c" for r c
    by (cases r) (simp_all add: publish_results_def step_then_def step_return_def br_publish_all_def split_beta)
  then show "br_discovery (fst (publish_node_status w n b)) = br_discovery b"
    by (simp add: publish_node_status_def split: option.split)
qed

text \<open>The description of a node depends on its identity, its name, its type and whether it can be controlled.\<close>

definition described_as :: "VeluxNode \<Rightarrow> NodeId \<times> string \<times> u8 list \<times> ActuatorType \<times> bool" where
  "described_as node =
     (vn_id node, vn_name node, vn_serial_number node, vn_actuator_type node, is_controllable node)"

lemma described_as_component:
  assumes "described_as node = described_as node'"
  shows "is_controllable node = is_controllable node'" "unique_id d node = unique_id d node'"
    "node_component topics d node = node_component topics d node'"
  using assms
  by (simp_all add: described_as_def node_component_def unique_id_def serial_number_hex_def)

lemma components_cong:
  assumes "map described_as nodes = map described_as nodes'"
  shows "components topics d nodes groups = components topics d nodes' groups"
proof -
  let ?f = "\<lambda>m node. btree_insert (unique_id d node) (node_component topics d node) m"
  have "foldl ?f m (filter is_controllable nodes) = foldl ?f m (filter is_controllable nodes')" for m
    using assms
  proof (induction nodes arbitrary: nodes' m)
    case (Cons node nodes)
    then obtain node' rest where n: "nodes' = node' # rest" "described_as node = described_as node'"
      "map described_as nodes = map described_as rest" by auto
    show ?case using Cons.IH [OF n(3)] described_as_component [OF n(2)] by (simp add: n(1))
  qed simp
  then show ?thesis by (simp add: components_def)
qed

lemma map_insert_same:
  assumes "btree_wf m" "btree_get m k = Some v'" "h v = h v'"
  shows "map (h \<circ> snd) (btree_insert k v m) = map (h \<circ> snd) m"
  using assms
proof (induction m)
  case (Cons e m)
  obtain a x where e: "e = (a, x)" by (rule prod.exhaust)
  have "\<not> k < a" if "k \<noteq> a"
  proof -
    have "k \<in> set (btree_keys m)" using Cons.prems(2) that e by (force dest: map_of_SomeD)
    then show ?thesis using Cons.prems(1) by (auto simp: e btree_wf_Cons)
  qed
  then show ?case using Cons by (cases "k = a") (auto simp: e btree_wf_Cons)
qed simp

definition keeps_description :: "(VeluxNode \<Rightarrow> VeluxNode \<times> bool) \<Rightarrow> bool" where
  "keeps_description f \<longleftrightarrow> (\<forall>node. described_as (fst (f node)) = described_as node)"

lemma keeps_description_updates:
  "keeps_description (\<lambda>node. apply_state_position node p source)"
  "keeps_description (\<lambda>node. apply_status node status source)"
  "keeps_description (\<lambda>node. apply_run_status node run)"
  "keeps_description (apply_remaining_time seconds)"
  "keeps_description (\<lambda>node. apply_command_confirmation node response session endpoint)"
  by (auto simp: keeps_description_def described_as_def apply_state_position_def apply_status_def apply_run_status_def
      apply_remaining_time_def apply_command_confirmation_def mark_command_accepted_def is_controllable_def Let_def
      split: StatusNotificationDetail.split CoverEndpoint.split)

lemma update_node_described:
  assumes "btree_wf cache" "keeps_description f"
  shows "map described_as (map snd (fst (update_node cache n f))) = map described_as (map snd cache)"
  using assms map_insert_same [of cache n _ described_as]
  by (auto simp: update_node_def split_beta keeps_description_def split: option.split)

lemma apply_response_described:
  assumes "btree_wf cache" "\<not> metadata_changed response"
  shows "map described_as (map snd (fst (apply_response cache response))) = map described_as (map snd cache)"
proof -
  note unchanged = keeps_description_updates [THEN update_node_described [OF assms(1)]]
  show ?thesis using assms(2) unchanged
    by (cases response) (simp_all add: apply_response_def metadata_changed_def)
qed

lemma discovery_shown_cache:
  assumes "discovery_shown serde b" "map described_as (map snd cache) = map described_as (map snd (br_cache b))"
  shows "discovery_shown serde (b\<lparr>br_cache := cache\<rparr>)"
proof -
  have "broker (b\<lparr>br_cache := cache\<rparr>) = broker b" by (rule broker_same) simp
  then show ?thesis
    using assms(1) components_cong [OF assms(2)] by (simp add: discovery_shown_def Let_def split: option.splits)
qed

section \<open>The view is maintained\<close>

lemma clear_group_Ok:
  assumes "w \<in> reliable v"
  shows "\<exists>c. clear_removed_groups w [g] b = (c, Ok ())"
  by (simp add: clear_removed_groups_def clear_removed_group_def step_then_def step_return_def br_publish_all_def
      publish_all_queued br_publish_reliable [OF assms] assms [unfolded reliable_def, simplified] split: option.split)

lemma apply_group_discovery:
  assumes "w \<in> describes (v, serde)" "description_answers (v, serde)" "br_mqtt_connected b" "groups_inv (br_groups b)"
    "discovery_shown serde b" "response_wf response"
  shows "discovery_shown serde (fst (apply_group_response w response b))"
proof -
  have w: "w \<in> reliable v" "documents v"
    using assms(1,2) by (simp_all add: describes_def description_answers_def)
  have listed: "\<exists>c. publish_group_inventory w (b\<lparr>br_groups := m\<rparr>) = (c, Ok ()) \<and> br_mqtt_connected c"
    if "groups_inv m" for m
    using group_inventory_published [OF w, of "b\<lparr>br_groups := m\<rparr>"] that assms(3) only_publishes_simps(9) by fastforce
  show ?thesis
  proof (cases "group_update_of (br_groups b) response")
    case (GroupSet g)
    obtain c where c: "publish_group_inventory w (b\<lparr>br_groups := btree_insert (gi_group_id g) g (br_groups b)\<rparr>) = (c, Ok ())"
        "br_mqtt_connected c"
      using listed groups_inv_update(1) [OF assms(4) group_update_wf [OF GroupSet assms(6)]] by blast
    obtain d where d: "publish_group_info w g c = (d, Ok ())" "br_mqtt_connected d"
      using group_info_published [OF w, of g c] c(2) only_publishes_simps(9) by metis
    show ?thesis
      using discovery_published_shown [OF assms(1,2) d(2)] c(1) d(1) assms(3)
      by (simp add: apply_group_response_def GroupSet step_then_def Let_def)
  next
    case (GroupGone k)
    show ?thesis
    proof (cases "btree_get (br_groups b) k")
      case (Some g)
      obtain c where c: "publish_group_inventory w (b\<lparr>br_groups := btree_remove k (br_groups b)\<rparr>) = (c, Ok ())"
          "br_mqtt_connected c"
        using listed groups_inv_update(2) [OF assms(4)] by blast
      obtain d where d: "clear_removed_groups w [g] c = (d, Ok ())" using clear_group_Ok [OF w(1)] by blast
      have "only_publishes UNIV c (fst (clear_removed_groups w [g] c))" by (rule publishes_clear_groups) simp_all
      then have "br_mqtt_connected d" using only_publishes_simps(9) d c(2) by (metis fst_conv)
      then show ?thesis
        using discovery_published_shown [OF assms(1,2)] c(1) d assms(3) Some
        by (simp add: apply_group_response_def GroupGone step_then_def Let_def)
    qed (simp add: apply_group_response_def GroupGone assms(5))
  qed (simp add: apply_group_response_def assms(5))
qed

lemma announce_discovery:
  assumes "w \<in> describes (v, serde)" "description_answers (v, serde)" "br_mqtt_connected b" "cache_inv (br_cache b)"
    "changed \<or> discovery_shown serde b" "added \<longrightarrow> changed"
  shows "discovery_shown serde (announce_update w added changed (Some n) b)"
proof -
  let ?c = "if added \<and> br_mqtt_connected b then logged (publish_node_inventory w) b else b"
  let ?d = "if changed then logged (publish_node_info w n) ?c else ?c"
  let ?e = "if changed then logged (publish_hass_discovery w) ?d else ?d"
  have c: "only_publishes UNIV b ?c" by (intro only_publishes_if publishing) simp_all
  have d: "only_publishes UNIV ?c ?d"
    by (intro only_publishes_if publishes_logged publishes_info_any only_publishes_refl)
  have "only_publishes UNIV ?d ?e" by (intro only_publishes_if publishing) simp_all
  note s = only_publishes_simps [OF only_publishes_trans [OF only_publishes_trans [OF c d] this]]
  have "br_mqtt_connected ?d" using only_publishes_simps(9) [OF only_publishes_trans [OF c d]] assms(3) by blast
  from discovery_published_shown [OF assms(1,2) this] assms(5,6) have shown: "discovery_shown serde ?e"
    by (cases changed) (simp_all add: logged_def)
  have "cache_inv (br_cache ?e)" unfolding s by (rule assms(4))
  from status_publication_quiet [OF this shown, of w n] shown show ?thesis
    unfolding announce_update_def Let_def option.case
    by (split option.split) (auto simp: logged_def split: if_splits)
qed

lemma discovery_shown_session:
  assumes "discovery_shown serde b" "session_step b c"
  shows "discovery_shown serde c"
proof -
  have "br_discovery c = br_discovery b" using assms(2) by (auto simp: session_step_def)
  then show ?thesis
    using assms(1) session_step_simps [OF assms(2)] broker_same [of c b]
    by (simp add: discovery_shown_def Let_def split: option.splits)
qed

lemma handle_response_discovery:
  assumes "w \<in> describes (v, serde)" "description_answers (v, serde)" "br_mqtt_connected b" "bridge_inv b"
    "discovery_shown serde b" "response_wf response"
  shows "discovery_shown serde (handle_response w response b)"
proof -
  let ?b = "br_release_finished response b"
  let ?c = "logged (apply_group_response w response) ?b"
  have step: "session_step b ?b"
    by (cases response) (simp_all add: br_release_finished_def session_step_ops(1) session_step_refl)
  have b: "discovery_shown serde ?b" "groups_inv (br_groups ?b)" "br_mqtt_connected ?b" "cache_inv (br_cache ?b)"
    using discovery_shown_session [OF assms(5) step] session_step_simps [OF step] assms(3,4)
    by (simp_all add: bridge_inv_def)
  have shown: "discovery_shown serde ?c"
    using apply_group_discovery [OF assms(1,2) b(3,2,1) assms(6)] by (simp add: logged_def)
  obtain m where "only_publishes UNIV (?b\<lparr>br_groups := m\<rparr>) ?c"
    using apply_group_publishes [of ?b UNIV w response] by (auto simp: logged_def)
  note c = only_publishes_simps [OF this]
  obtain cache updated where u: "apply_response (br_cache ?c) response = (cache, updated)" by (rule prod.exhaust)
  have inv: "cache_inv (br_cache ?c)" using b(4) c by simp
  from apply_response_faithful [OF inv assms(6)] have f: "faithful (br_cache ?c) (cache, updated)" by (simp only: u)
  have "discovery_shown serde (announce_update w (node_added (br_cache ?c) response) (metadata_changed response) updated
      (?c\<lparr>br_cache := cache\<rparr>))"
  proof (cases updated)
    case None
    then show ?thesis using f shown by (simp add: faithful_def announce_update_def)
  next
    case (Some n)
    have "metadata_changed response \<or> discovery_shown serde (?c\<lparr>br_cache := cache\<rparr>)"
      using apply_response_described [of "br_cache ?c" response] discovery_shown_cache [OF shown] inv u
      by (auto simp: cache_inv_def)
    moreover have "node_added (br_cache ?c) response \<longrightarrow> metadata_changed response"
      by (cases response) (simp_all add: node_added_def metadata_changed_def)
    ultimately show ?thesis
      using announce_discovery [OF assms(1,2), of "?c\<lparr>br_cache := cache\<rparr>"] f b(3) c Some by (simp add: faithful_def)
  qed
  then show ?thesis by (simp add: handle_response_eq Let_def u)
qed

lemma execute_cover_discovery:
  assumes "cache_inv (br_cache b)" "discovery_shown serde b" "br_gateway b = Some gw"
  shows "discovery_shown serde (fst (execute_cover_command w n action b))"
  using assms(3)
proof (cases rule: execute_cover_cases [where w = w and n = n and action = action])
  case moved
  then show ?thesis by (rule discovery_shown_session [OF assms(2)])
next
  case (accepted c response session endpoint)
  let ?f = "\<lambda>node. apply_command_confirmation node response session endpoint"
  have inv: "cache_inv (br_cache c)" "btree_wf (br_cache c)"
    using assms(1) session_step_simps [OF accepted(1)] by (simp_all add: cache_inv_def)
  have "discovery_shown serde (c\<lparr>br_cache := fst (update_node (br_cache c) n ?f)\<rparr>)"
    by (rule discovery_shown_cache [OF discovery_shown_session [OF assms(2) accepted(1)]
          update_node_described [OF inv(2) keeps_description_updates(5)]])
  then show ?thesis
    unfolding accepted(2) using faithful_update_node [OF inv(1) update_ok_confirmation]
    by (intro status_publication_quiet) (simp_all add: faithful_def)
qed

lemma snapshot_discovery:
  assumes "w \<in> describes (v, serde)" "description_answers (v, serde)" "br_mqtt_connected b" "cache_inv (br_cache b)"
    "groups_inv (br_groups b)"
  shows "discovery_shown serde (fst (publish_complete_snapshot w b))"
proof -
  have w: "w \<in> reliable v" "documents v" "serialises (w_serde w)"
    using assms(1,2) by (auto simp: describes_def description_answers_def)
  obtain e where e: "only_publishes UNIV b e"
      "publish_complete_snapshot w b = step_then (publish_hass_discovery w)
         (\<lambda>_ b. br_publish w (availability_publication (br_topics b) True) b) e"
    by (rule snapshot_before_discovery [OF w(1,2) assms(4,5)])
  obtain f where f: "publish_hass_discovery w e = (f, Ok ())"
    using discovery_published [OF w(1,3), of e] by (cases "publish_hass_discovery w e") simp
  have "discovery_shown serde f"
    using discovery_published_shown [OF assms(1,2), of e] only_publishes_simps(9) [OF e(1)] assms(3) f by simp
  then have "discovery_shown serde (fst (br_publish w (availability_publication (br_topics f) True) f))"
    using state_not_discovery
    by (intro discovery_shown_quiet [OF only_publishes_publish [of _ "{topic_state (br_topics f)}"]])
      (simp_all add: availability_publication_def br_publish_reliable [OF w(1)])
  then show ?thesis by (simp add: e(2) step_then_def f)
qed

interpretation discovery_view: maintained_view "\<lambda>v. discovery_shown (snd v)" describes description_answers
proof (unfold_locales, goal_cases)
  case (1 v b c)
  then show ?case by (rule discovery_shown_session)
next
  case (2 w v b)
  then show ?case by (cases v) (simp add: snapshot_discovery)
next
  case (3 w v b response)
  then show ?case by (cases v) (simp add: handle_response_discovery)
next
  case (4 w v b gw n action)
  then show ?case by (intro execute_cover_discovery) (simp_all add: bridge_inv_def)
qed

section \<open>Properties\<close>

lemma new_bridge_discovery:
  assumes "VeluxMqttBridge_new read_file now config = Ok (b, mqtt)" "bc_hass_discovery config"
  shows "discovery_identity b = Some (DEFAULT_DISCOVERY_PREFIX, trim (mc_client_id (bc_mqtt config)))"
proof -
  obtain c where c: "VeluxMqttBridgeConfig_validate config = (c, Ok ())"
      "br_discovery b = (if bc_hass_discovery c then Some (HomeAssistantDiscovery_new (mc_client_id (bc_mqtt c))) else None)"
    using assms(1) by (auto simp: VeluxMqttBridge_new_def outcome_iffs Let_def split: prod.splits)
  from c(1) have "bc_hass_discovery c = bc_hass_discovery config" "mc_client_id (bc_mqtt c) = trim (mc_client_id (bc_mqtt config))"
    by (auto simp: VeluxMqttBridgeConfig_validate_def MqttConfig_validate_def Let_def outcome_iffs split_beta
        split: if_splits)
  then show ?thesis using c(2) assms(2) by (simp add: discovery_identity_def HomeAssistantDiscovery_new_def)
qed

text \<open>
  C16. With the discovery enabled, an MQTT client that takes every publication and serialisers that answer,
  the Home Assistant configuration of the device is current in every state in which the bridge has a gateway
  and is connected to the broker: under the topic of the client it describes exactly the covers and groups
  the bridge knows, with their current names, and it is gone when there are none.
\<close>

theorem discovery_is_current:
  assumes "VeluxMqttBridge_new read_file now config = Ok (b0, mqtt)"
    "bc_reconnect_max_delay config \<le> DURATION_MAX" "bc_hass_discovery config" "description_answers (to_vec, serde)"
    "bridge_reaches (describes (to_vec, serde)) b0 b" "br_gateway b \<noteq> None" "br_mqtt_connected b"
  shows "\<exists>d cmps. br_discovery b = Some d \<and> ha_client_id d = trim (mc_client_id (bc_mqtt config))
    \<and> cmps = components (br_topics b) d (map snd (br_cache b)) (map snd (br_groups b))
    \<and> (if cmps = [] then broker b (device_topic d) = None
       else \<exists>payload. device_to_vec serde (device_discovery (br_topics b) d cmps) = Ok payload
         \<and> broker b (device_topic d) = Some payload)"
proof -
  have "discovery_identity b = Some (DEFAULT_DISCOVERY_PREFIX, trim (mc_client_id (bc_mqtt config)))"
    using reaches_discovery_identity [OF assms(5) bridge_inv_new [OF assms(1,2)]]
      new_bridge_discovery [OF assms(1,3)] by simp
  then obtain d where "br_discovery b = Some d" "ha_client_id d = trim (mc_client_id (bc_mqtt config))"
    by (auto simp: discovery_identity_def)
  moreover have "discovery_shown serde b"
    using discovery_view.reaches_view [OF assms(1,2,4,5)] assms(6,7) by (simp add: online_def)
  ultimately show ?thesis by (simp add: discovery_shown_def Let_def)
qed

theorem discovery_is_current_witness:
  "\<exists>b0 mqtt b d. VeluxMqttBridge_new (\<lambda>_. Ok []) 0 (example_config\<lparr>bc_hass_discovery := True\<rparr>) = Ok (b0, mqtt)
     \<and> br_discovery b = Some d
     \<and> (let cmps = components (br_topics b) d (map snd (br_cache b)) (map snd (br_groups b))
        in if cmps = [] then broker b (device_topic d) = None else broker b (device_topic d) = Some [123, 125])"
proof -
  obtain b0 mqtt where new: "VeluxMqttBridge_new (\<lambda>_. Ok []) 0 (example_config\<lparr>bc_hass_discovery := True\<rparr>) = Ok (b0, mqtt)"
    "br_gateway b0 = None" "\<not> br_setup b0" "br_next_reconnect b0 = 0" by (rule example_start)
  have world: "example_world \<in> describes (\<lambda>_. Ok [0x7B, 0x7D], example_serde)"
    using example_reliable(2) by (simp add: describes_def example_world_def)
  obtain b where run: "bridge_reaches (describes (\<lambda>_. Ok [0x7B, 0x7D], example_serde)) b0 b" "br_gateway b \<noteq> None"
    "br_mqtt_connected b" by (rule example_run [OF world new(2-)])
  have answers: "description_answers (\<lambda>_. Ok [0x7B, 0x7D], example_serde)"
    using example_reliable(1) by (simp add: description_answers_def serialises_def example_serde_def)
  have "bc_reconnect_max_delay (example_config\<lparr>bc_hass_discovery := True\<rparr>) \<le> DURATION_MAX"
    using example_delays(1) by simp
  from discovery_is_current [OF new(1) this _ answers run] obtain d where d: "br_discovery b = Some d"
    "let cmps = components (br_topics b) d (map snd (br_cache b)) (map snd (br_groups b))
     in if cmps = [] then broker b (device_topic d) = None else broker b (device_topic d) = Some [123, 125]"
    by (auto simp: Let_def example_serde_def split: if_splits)
  show ?thesis using new(1) d by blast
qed

end
