(* ===== verification/Tls.thy ===== *)
theory Tls
  imports Gateway_Setup
begin

text \<open>
  How a connection comes about (\<open>src/klf200/connection.rs\<close>: \<open>Klf200Client::connect\<close>, \<open>from_stream\<close>,
  \<open>build_tls_config\<close> and the two certificate verifiers; \<open>src/mqtt.rs\<close>: the verifier of the insecure MQTT
  transport; \<open>src/bridge.rs\<close>: the connector the bridge uses). Sockets, files, the PEM parser and rustls are
  not part of the repository: their answers are the fields of a record every definition takes.
\<close>

section \<open>Certificate verifiers\<close>

type_synonym certificate = "u8 list"

text \<open>A host name or address that rustls has checked, kept as its text.\<close>

type_synonym ServerName = string

text \<open>A signature of the handshake, as rustls hands it to a verifier, and the errors of a verifier.\<close>

record DigitallySignedStruct =
  dss_scheme :: u16
  dss_sig :: "u8 list"

datatype rustls_error = ApplicationVerificationFailure | OtherRustlsError string

text \<open>
  Rustls's trait \<open>ServerCertVerifier\<close> as the functions of an implementation: of the certificate of a server
  (with the intermediate certificates, the name of the server, a revocation response and the time), of a
  signature under TLS 1.2 and TLS 1.3, and the supported schemes.
\<close>

record ServerCertVerifier =
  verify_server_cert :: "certificate \<Rightarrow> certificate list \<Rightarrow> ServerName \<Rightarrow> u8 list \<Rightarrow> nat
    \<Rightarrow> (rustls_error, unit) outcome"
  verify_tls12_signature :: "u8 list \<Rightarrow> certificate \<Rightarrow> DigitallySignedStruct \<Rightarrow> (rustls_error, unit) outcome"
  verify_tls13_signature :: "u8 list \<Rightarrow> certificate \<Rightarrow> DigitallySignedStruct \<Rightarrow> (rustls_error, unit) outcome"
  supported_verify_schemes :: "u16 list"

record ClientConfig =
  cc_verifier :: ServerCertVerifier
  cc_client_auth :: bool

text \<open>The result of an operation under a timeout.\<close>

datatype 'a timed = TimedOut | InTime 'a

text \<open>
  The environment: opening a TCP connection under a timeout, the option that disables Nagle's algorithm,
  reading a file, the items the PEM parser yields for its bytes, the parsing of a server name, the provider
  of cryptography with its signature checks and schemes, and the TLS handshake under a timeout. Of an
  established stream it tells the certificate of the server, the message that was signed in the handshake,
  the signature, and whether the version of the protocol is 1.3. The types \<open>'c\<close> and \<open>'s\<close> are those of TCP
  streams and TLS streams.
\<close>

record ('p, 'c, 's) platform =
  pf_tcp_connect :: "nat \<Rightarrow> string \<Rightarrow> u16 \<Rightarrow> (string, 'c) outcome timed"
  pf_set_nodelay :: "'c \<Rightarrow> bool \<Rightarrow> (string, unit) outcome"
  pf_open :: "string \<Rightarrow> (string, u8 list) outcome"
  pf_pem_certs :: "u8 list \<Rightarrow> (string, certificate) outcome list"
  pf_server_name :: "string \<Rightarrow> (string, ServerName) outcome"
  pf_default_provider :: 'p
  pf_tls12_signature :: "u8 list \<Rightarrow> certificate \<Rightarrow> DigitallySignedStruct \<Rightarrow> 'p \<Rightarrow> (rustls_error, unit) outcome"
  pf_tls13_signature :: "u8 list \<Rightarrow> certificate \<Rightarrow> DigitallySignedStruct \<Rightarrow> 'p \<Rightarrow> (rustls_error, unit) outcome"
  pf_supported_schemes :: "'p \<Rightarrow> u16 list"
  pf_tls_connect :: "nat \<Rightarrow> ClientConfig \<Rightarrow> ServerName \<Rightarrow> 'c \<Rightarrow> (string, 's) outcome timed"
  pf_peer :: "'s \<Rightarrow> certificate"
  pf_signed :: "'s \<Rightarrow> u8 list"
  pf_signature :: "'s \<Rightarrow> DigitallySignedStruct"
  pf_tls13 :: "'s \<Rightarrow> bool"

text \<open>
  The three implementations. All of them leave the signatures to rustls, with the algorithms of their
  provider; only the pinned one looks at the certificate.
\<close>

definition PinnedServerCertificateVerification ::
  "('p, 'c, 's) platform \<Rightarrow> certificate list \<Rightarrow> 'p \<Rightarrow> ServerCertVerifier"
where
  "PinnedServerCertificateVerification pf certificates provider =
     \<lparr>verify_server_cert = (\<lambda>end_entity _ _ _ _.
        if \<exists>certificate \<in> set certificates. certificate = end_entity then Ok ()
        else Err ApplicationVerificationFailure),
      verify_tls12_signature = (\<lambda>message certificate digitally_signed.
        pf_tls12_signature pf message certificate digitally_signed provider),
      verify_tls13_signature = (\<lambda>message certificate digitally_signed.
        pf_tls13_signature pf message certificate digitally_signed provider),
      supported_verify_schemes = pf_supported_schemes pf provider\<rparr>"

definition SkipServerCertificateVerification :: "('p, 'c, 's) platform \<Rightarrow> 'p \<Rightarrow> ServerCertVerifier" where
  "SkipServerCertificateVerification pf provider =
     \<lparr>verify_server_cert = (\<lambda>_ _ _ _ _. Ok ()),
      verify_tls12_signature = (\<lambda>message certificate digitally_signed.
        pf_tls12_signature pf message certificate digitally_signed provider),
      verify_tls13_signature = (\<lambda>message certificate digitally_signed.
        pf_tls13_signature pf message certificate digitally_signed provider),
      supported_verify_schemes = pf_supported_schemes pf provider\<rparr>"

definition NoCertificateVerification :: "('p, 'c, 's) platform \<Rightarrow> 'p \<Rightarrow> ServerCertVerifier" where
  "NoCertificateVerification pf provider =
     \<lparr>verify_server_cert = (\<lambda>_ _ _ _ _. Ok ()),
      verify_tls12_signature = (\<lambda>message cert dss. pf_tls12_signature pf message cert dss provider),
      verify_tls13_signature = (\<lambda>message cert dss. pf_tls13_signature pf message cert dss provider),
      supported_verify_schemes = pf_supported_schemes pf provider\<rparr>"

section \<open>Connecting\<close>

text \<open>Collecting an iterator of results: the first error ends it.\<close>

fun collect_certs :: "(string, certificate) outcome list \<Rightarrow> (string, certificate list) outcome" where
  "collect_certs [] = Ok []"
| "collect_certs (item # items) = and_then item (\<lambda>c. map_ok (Cons c) (collect_certs items))"

definition build_tls_config ::
  "('p, 'c, 's) platform \<Rightarrow> string option \<Rightarrow> ClientConfig result"
where
  "build_tls_config pf certificate =
     (case certificate of
        Some path \<Rightarrow>
          and_then (map_err io_error (pf_open pf path)) (\<lambda>file.
          and_then (map_err io_error (collect_certs (pf_pem_certs pf file))) (\<lambda>certificates.
            if certificates = [] then Err EmptyCertificateFile
            else Ok \<lparr>cc_verifier =
                PinnedServerCertificateVerification pf certificates (pf_default_provider pf),
                cc_client_auth = False\<rparr>))
      | None \<Rightarrow>
          Ok \<lparr>cc_verifier = SkipServerCertificateVerification pf (pf_default_provider pf),
              cc_client_auth = False\<rparr>)"

text \<open>
  The client that \<open>from_stream\<close> returns: the capacities of its two channels, its two timeouts, and the stream
  and settings the spawned actor runs with.
\<close>

record 's Klf200Client =
  cl_command_capacity :: nat
  cl_event_capacity :: nat
  cl_notification_timeout :: nat
  cl_operation_timeout :: nat
  cl_stream :: 's
  cl_settings :: ConnectionSettings

definition from_stream :: "'s \<Rightarrow> ConnectionSettings \<Rightarrow> 's Klf200Client" where
  "from_stream stream settings =
     \<lparr>cl_command_capacity = max (command_buffer settings) 1, cl_event_capacity = max (event_buffer settings) 1,
      cl_notification_timeout = request_timeout settings, cl_operation_timeout = session_timeout settings,
      cl_stream = stream, cl_settings = settings\<rparr>"

definition within_timeout :: "(string \<Rightarrow> klf_error) \<Rightarrow> (string, 'a) outcome timed \<Rightarrow> 'a result" where
  "within_timeout to_error r =
     (case r of TimedOut \<Rightarrow> Err ConnectTimeout | InTime r \<Rightarrow> map_err to_error r)"

definition Klf200Client_connect ::
  "('p, 'c, 's) platform \<Rightarrow> Klf200Config \<Rightarrow> 's Klf200Client result"
where
  "Klf200Client_connect pf config =
     and_then (within_timeout io_error
       (pf_tcp_connect pf (kc_connect_timeout config) (kc_host config) (kc_port config))) (\<lambda>tcp_stream.
     and_then (map_err io_error (pf_set_nodelay pf tcp_stream True)) (\<lambda>_.
     and_then (build_tls_config pf (kc_certificate config)) (\<lambda>tls_config.
     and_then (map_err Tls (pf_server_name pf (kc_host config))) (\<lambda>server_name.
     and_then (within_timeout Tls
       (pf_tls_connect pf (kc_connect_timeout config) tls_config server_name tcp_stream)) (\<lambda>tls_stream.
       Ok (from_stream tls_stream (kc_connection config)))))))"

text \<open>
  The connector of the bridge: the client is used as a gateway. What its actor answers and delivers over
  the stream are arguments, as for every client.
\<close>

definition TlsGatewayConnector_connect ::
  "('p, 'c, 's) platform \<Rightarrow> ('s Klf200Client \<Rightarrow> calls \<Rightarrow> Request \<Rightarrow> Response result delivery)
     \<Rightarrow> ('s Klf200Client \<Rightarrow> calls \<Rightarrow> received list) \<Rightarrow> ('s Klf200Client \<Rightarrow> calls \<Rightarrow> unit result delivery)
     \<Rightarrow> Klf200Config \<Rightarrow> gateway result"
where
  "TlsGatewayConnector_connect pf actor events stopped config =
     map_ok (\<lambda>client. Klf200Client_gateway (actor client) (events client) (stopped client))
       (Klf200Client_connect pf config)"

text \<open>The TLS configuration of the MQTT transport when the validation of certificates is disabled.\<close>

definition insecure_tls_config :: "('p, 'c, 's) platform \<Rightarrow> 'p \<Rightarrow> ClientConfig" where
  "insecure_tls_config pf provider =
     \<lparr>cc_verifier = NoCertificateVerification pf provider, cc_client_auth = False\<rparr>"

section \<open>When connecting succeeds\<close>

lemma map_err_eq_Ok [simp]: "map_err f r = Ok x \<longleftrightarrow> r = Ok x"
  by (cases r) auto

lemma within_timeout_Ok [simp]: "within_timeout f r = Ok x \<longleftrightarrow> r = InTime (Ok x)"
  by (cases r) (simp_all add: within_timeout_def)

lemma collect_certs_Ok: "collect_certs items = Ok cs \<longleftrightarrow> items = map Ok cs"
proof (induction items arbitrary: cs)
  case (Cons item items)
  then show ?case by (cases cs) (auto simp: and_then_eq_Ok_iff map_ok_eq_Ok_iff)
qed auto

lemma build_tls_config_pinned:
  "build_tls_config pf (Some path) = Ok config \<longleftrightarrow>
     (\<exists>file cs. pf_open pf path = Ok file \<and> pf_pem_certs pf file = map Ok cs \<and> cs \<noteq> []
        \<and> config = \<lparr>cc_verifier = PinnedServerCertificateVerification pf cs (pf_default_provider pf),
             cc_client_auth = False\<rparr>)"
  by (auto simp: build_tls_config_def and_then_eq_Ok_iff collect_certs_Ok)

lemma connect_Ok:
  "Klf200Client_connect pf config = Ok client \<longleftrightarrow>
     (\<exists>tcp tls name stream.
        pf_tcp_connect pf (kc_connect_timeout config) (kc_host config) (kc_port config) = InTime (Ok tcp)
        \<and> pf_set_nodelay pf tcp True = Ok () \<and> build_tls_config pf (kc_certificate config) = Ok tls
        \<and> pf_server_name pf (kc_host config) = Ok name
        \<and> pf_tls_connect pf (kc_connect_timeout config) tls name tcp = InTime (Ok stream)
        \<and> client = from_stream stream (kc_connection config))"
  by (auto simp: Klf200Client_connect_def and_then_eq_Ok_iff)

section \<open>The contract of a verifier\<close>

text \<open>
  What rustls promises of a stream it returns: the verifier of the configuration accepted the certificate of
  the server, and it accepted the signature of the handshake under this certificate.
\<close>

definition signature_checked :: "('p, 'c, 's) platform \<Rightarrow> 's \<Rightarrow> 'p \<Rightarrow> bool" where
  "signature_checked pf stream provider \<longleftrightarrow>
     (if pf_tls13 pf stream then pf_tls13_signature pf else pf_tls12_signature pf)
       (pf_signed pf stream) (pf_peer pf stream) (pf_signature pf stream) provider = Ok ()"

definition handshake_verifies :: "('p, 'c, 's) platform \<Rightarrow> bool" where
  "handshake_verifies pf \<longleftrightarrow>
     (\<forall>limit config name tcp stream.
        pf_tls_connect pf limit config name tcp = InTime (Ok stream) \<longrightarrow>
          (\<exists>intermediates ocsp now.
             verify_server_cert (cc_verifier config) (pf_peer pf stream) intermediates name ocsp now = Ok ())
          \<and> (if pf_tls13 pf stream then verify_tls13_signature (cc_verifier config)
               else verify_tls12_signature (cc_verifier config))
              (pf_signed pf stream) (pf_peer pf stream) (pf_signature pf stream) = Ok ())"

text \<open>
  A verifier as its user sees it: the certificates it trusts, whatever the rest of the handshake says, and
  the provider whose algorithms check the signatures.
\<close>

locale certificate_policy =
  fixes pf :: "('p, 'c, 's) platform" and verifier :: ServerCertVerifier and trusted :: "certificate set" and provider :: 'p
  assumes accepts: "verify_server_cert verifier c intermediates name ocsp now = Ok () \<longleftrightarrow> c \<in> trusted"
    and signatures: "verify_tls12_signature verifier message c dss = pf_tls12_signature pf message c dss provider"
      "verify_tls13_signature verifier message c dss = pf_tls13_signature pf message c dss provider"
begin

lemma established:
  assumes "handshake_verifies pf" "cc_verifier config = verifier"
    "pf_tls_connect pf limit config name tcp = InTime (Ok stream)"
  shows "pf_peer pf stream \<in> trusted" "signature_checked pf stream provider"
proof -
  from assms have "(\<exists>intermediates ocsp now.
      verify_server_cert verifier (pf_peer pf stream) intermediates name ocsp now = Ok ())
    \<and> (if pf_tls13 pf stream then verify_tls13_signature verifier else verify_tls12_signature verifier)
        (pf_signed pf stream) (pf_peer pf stream) (pf_signature pf stream) = Ok ()"
    unfolding handshake_verifies_def by blast
  then show "pf_peer pf stream \<in> trusted" "signature_checked pf stream provider"
    by (auto simp: accepts signatures signature_checked_def split: if_splits)
qed

end

interpretation pinned: certificate_policy pf "PinnedServerCertificateVerification pf cs p" "set cs" p
  for pf cs p
  by unfold_locales (simp_all add: PinnedServerCertificateVerification_def)

interpretation skipped: certificate_policy pf "SkipServerCertificateVerification pf p" UNIV p
  for pf p
  by unfold_locales (simp_all add: SkipServerCertificateVerification_def)

interpretation unverified: certificate_policy pf "NoCertificateVerification pf p" UNIV p
  for pf p
  by unfold_locales (simp_all add: NoCertificateVerification_def)

text \<open>
  So even the insecure MQTT transport talks to a server that holds the key of the certificate it shows, but
  to any such server.
\<close>

lemma insecure_mqtt_peer:
  assumes "handshake_verifies pf" "pf_tls_connect pf limit (insecure_tls_config pf provider) name tcp = InTime (Ok stream)"
  shows "signature_checked pf stream provider"
  by (rule unverified.established(2) [OF assms(1) _ assms(2)]) (simp add: insecure_tls_config_def)

section \<open>Properties\<close>

lemma prepare_connected:
  assumes "prepare_gateway connection cancel password = (calls, r)" "calls \<noteq> []"
  obtains gw where "connection = Ok gw"
  using assms by (cases connection) (auto simp: prepare_gateway_def split: if_splits)

lemma connector_Ok:
  assumes "TlsGatewayConnector_connect pf actor events stopped config = Ok gw"
  obtains client where "Klf200Client_connect pf config = Ok client"
    "gw = Klf200Client_gateway (actor client) (events client) (stopped client)"
  using assms by (auto simp: TlsGatewayConnector_connect_def map_ok_eq_Ok_iff)

lemma connected_stream:
  assumes "handshake_verifies pf" "Klf200Client_connect pf config = Ok client"
  shows "signature_checked pf (cl_stream client) (pf_default_provider pf)
    \<and> (case kc_certificate config of
         None \<Rightarrow> True
       | Some path \<Rightarrow> \<exists>file cs. pf_open pf path = Ok file \<and> pf_pem_certs pf file = map Ok cs
           \<and> pf_peer pf (cl_stream client) \<in> set cs)"
proof -
  obtain tcp tls name stream where c: "build_tls_config pf (kc_certificate config) = Ok tls"
    "pf_tls_connect pf (kc_connect_timeout config) tls name tcp = InTime (Ok stream)"
    "client = from_stream stream (kc_connection config)"
    using assms(2) by (auto simp: connect_Ok)
  have stream: "cl_stream client = stream" using c(3) by (simp add: from_stream_def)
  show ?thesis
  proof (cases "kc_certificate config")
    case None
    then have "cc_verifier tls = SkipServerCertificateVerification pf (pf_default_provider pf)"
      using c(1) by (auto simp: build_tls_config_def)
    from skipped.established [OF assms(1) this c(2)] show ?thesis by (simp add: None stream)
  next
    case (Some path)
    then obtain bytes cs where f: "pf_open pf path = Ok bytes" "pf_pem_certs pf bytes = map Ok cs"
      "cc_verifier tls = PinnedServerCertificateVerification pf cs (pf_default_provider pf)"
      using c(1) by (auto simp: build_tls_config_pinned)
    from pinned.established [OF assms(1) f(3) c(2)] show ?thesis using f(1,2) by (auto simp: Some stream)
  qed
qed

text \<open>
  C15. Whatever is asked of a gateway during a set-up, the login with the password included, goes over a
  stream whose server signed the handshake with the key of its certificate; and when a certificate file is
  configured this certificate is, byte for byte, one of those in the file. So a file that cannot be read or
  parsed, or that holds no certificate, and a server with another certificate never receive the password.
\<close>

theorem password_only_to_pinned_gateway:
  assumes "handshake_verifies pf"
    "prepare_gateway (TlsGatewayConnector_connect pf actor events stopped config) cancel password = (calls, r)"
    "calls \<noteq> []"
  shows "\<exists>client. Klf200Client_connect pf config = Ok client
    \<and> signature_checked pf (cl_stream client) (pf_default_provider pf)
    \<and> (case kc_certificate config of
         None \<Rightarrow> True
       | Some path \<Rightarrow> \<exists>file cs. pf_open pf path = Ok file \<and> pf_pem_certs pf file = map Ok cs
           \<and> pf_peer pf (cl_stream client) \<in> set cs)"
proof -
  obtain gw where gw: "TlsGatewayConnector_connect pf actor events stopped config = Ok gw"
    using prepare_connected [OF assms(2,3)] .
  obtain client where "Klf200Client_connect pf config = Ok client" using connector_Ok [OF gw] .
  then show ?thesis using connected_stream [OF assms(1)] by blast
qed

text \<open>
  A server with the certificate \<open>[1, 2]\<close>, a file that holds this certificate and another, and a handshake that
  asks the verifier of its configuration; the certificates of a file are its bytes, two at a time.
\<close>

definition example_platform :: "(unit, nat, certificate) platform" where
  "example_platform =
     \<lparr>pf_tcp_connect = (\<lambda>_ _ _. InTime (Ok 0)), pf_set_nodelay = (\<lambda>_ _. Ok ()),
      pf_open = (\<lambda>path. if path = ''gateway.pem'' then Ok [9, 9, 1, 2] else Err ''not found''),
      pf_pem_certs = (\<lambda>file. [Ok (take 2 file), Ok (drop 2 file)]), pf_server_name = Ok,
      pf_default_provider = (),
      pf_tls12_signature = (\<lambda>message c dss _. if dss_sig dss = c @ message then Ok () else Err (OtherRustlsError [])),
      pf_tls13_signature = (\<lambda>message c dss _. if dss_sig dss = c @ message then Ok () else Err (OtherRustlsError [])),
      pf_supported_schemes = (\<lambda>_. [0x0403]),
      pf_tls_connect = (\<lambda>_ config name _.
        InTime (if verify_server_cert (cc_verifier config) [1, 2] [] name [] 0 = Ok ()
            \<and> verify_tls13_signature (cc_verifier config) [7] [1, 2]
                \<lparr>dss_scheme = 0x0403, dss_sig = [1, 2, 7]\<rparr> = Ok ()
          then Ok [1, 2] else Err ''invalid peer certificate'')),
      pf_peer = (\<lambda>s. s), pf_signed = (\<lambda>_. [7]), pf_signature = (\<lambda>s. \<lparr>dss_scheme = 0x0403, dss_sig = s @ [7]\<rparr>),
      pf_tls13 = (\<lambda>_. True)\<rparr>"

lemma example_platform_verifies: "handshake_verifies example_platform"
  by (auto simp: handshake_verifies_def example_platform_def split: if_splits)

lemma example_file:
  "pf_open example_platform ''gateway.pem'' = Ok [9, 9, 1, 2]"
  "pf_pem_certs example_platform [9, 9, 1, 2] = map Ok cs \<longleftrightarrow> cs = [[9, 9], [1, 2]]"
  by (auto simp: example_platform_def map_eq_Cons_conv Cons_eq_map_conv)

lemma example_connects:
  "\<exists>client. Klf200Client_connect example_platform
     ((Klf200Config_new host)\<lparr>kc_certificate := Some ''gateway.pem''\<rparr>) = Ok client"
proof -
  define verifier where "verifier = PinnedServerCertificateVerification example_platform [[9, 9], [1, 2]] ()"
  have v: "verify_server_cert verifier [1, 2] [] host [] 0 = Ok ()"
    "verify_tls13_signature verifier [7] [1, 2] \<lparr>dss_scheme = 0x0403, dss_sig = [1, 2, 7]\<rparr> = Ok ()"
    by (simp_all add: verifier_def PinnedServerCertificateVerification_def example_platform_def)
  have "build_tls_config example_platform (Some ''gateway.pem'') = Ok \<lparr>cc_verifier = verifier, cc_client_auth = False\<rparr>"
    unfolding build_tls_config_pinned verifier_def example_file
    by (auto simp: example_file)
  then show ?thesis
    by (auto simp: connect_Ok Klf200Config_new_def) (simp add: example_platform_def v)
qed

theorem password_only_to_pinned_gateway_witness:
  "let config = (Klf200Config_new ''klf'')\<lparr>kc_certificate := Some ''gateway.pem''\<rparr>
   in fst (prepare_gateway (TlsGatewayConnector_connect example_platform (\<lambda>_ _ _. ChannelClosed) (\<lambda>_ _. [])
          (\<lambda>_ _. ChannelClosed) config) NotCancelled ''secret'') \<noteq> []
      \<and> (\<exists>client. Klf200Client_connect example_platform config = Ok client
           \<and> pf_peer example_platform (cl_stream client) \<in> {[9, 9], [1, 2]})"
proof -
  let ?config = "(Klf200Config_new ''klf'')\<lparr>kc_certificate := Some ''gateway.pem''\<rparr>"
  let ?connection = "TlsGatewayConnector_connect example_platform (\<lambda>_ _ _. ChannelClosed) (\<lambda>_ _. [])
    (\<lambda>_ _. ChannelClosed) ?config"
  obtain client where client: "Klf200Client_connect example_platform ?config = Ok client"
    using example_connects by blast
  obtain calls r where p: "prepare_gateway ?connection NotCancelled ''secret'' = (calls, r)"
    by (cases "prepare_gateway ?connection NotCancelled ''secret''")
  have "calls \<noteq> []"
    using p client by (auto simp: prepare_gateway_def TlsGatewayConnector_connect_def initialize_gateway_def
        Klf200Client_gateway_def login_def send_def send_unlocked_def password_enter_def
        encode_fixed_string_def as_bytes_def step_then_call)
  with password_only_to_pinned_gateway [OF example_platform_verifies p] p show ?thesis
    by (auto simp: Let_def example_file)
qed

end
