(* ===== verification/Debug_Format.thy ===== *)
theory Debug_Format
  imports Tls
begin

text \<open>
  The hand-written \<open>Debug\<close> implementations (\<open>src/klf200/frame.rs\<close>, \<open>command.rs\<close>, \<open>response.rs\<close>,
  \<open>connection.rs\<close>, \<open>src/mqtt.rs\<close>), which keep passwords out of logs and error texts. The implementations the
  compiler derives for the other types, and those of the standard library for strings, paths and durations
  and of \<open>bytes\<close> for byte strings, are arguments.
\<close>

section \<open>Formatters\<close>

text \<open>\<open>debug_struct\<close>, \<open>debug_tuple\<close> and \<open>finish_non_exhaustive\<close> of the standard formatter, in one line.\<close>

fun separated :: "string list \<Rightarrow> string" where
  "separated [] = []"
| "separated [s] = s"
| "separated (s # t # ss) = s @ '', '' @ separated (t # ss)"

definition debug_struct :: "string \<Rightarrow> (string \<times> string) list \<Rightarrow> string" where
  "debug_struct name entries =
     name @ (if entries = [] then [] else '' { '' @ separated (map (\<lambda>(f, v). f @ '': '' @ v) entries) @ '' }'')"

definition debug_tuple :: "string \<Rightarrow> string list \<Rightarrow> string" where
  "debug_tuple name entries = name @ (if entries = [] then [] else ''('' @ separated entries @ '')'')"

definition debug_non_exhaustive :: "string \<Rightarrow> string" where
  "debug_non_exhaustive name = name @ '' { .. }''"

record formats =
  fm_str :: "string \<Rightarrow> string"
  fm_path :: "string option \<Rightarrow> string"
  fm_duration :: "nat \<Rightarrow> string"
  fm_bytes :: "u8 list \<Rightarrow> string"
  fm_network :: "NetworkSetup \<Rightarrow> string"
  fm_timestamp :: "ProtocolTimestamp \<Rightarrow> string"
  fm_configuration :: "ConfigurationRequest \<Rightarrow> string"
  fm_node_group :: "NodeGroupRequest \<Rightarrow> string"
  fm_extension :: "CommandExtensionRequest \<Rightarrow> string"
  fm_scene :: "SceneContactRequest \<Rightarrow> string"
  fm_log :: "ActivationLogRequest \<Rightarrow> string"
  fm_command_request :: "CommandRequest \<Rightarrow> string"
  fm_target :: "CommandTarget \<Rightarrow> string"
  fm_status_type :: "StatusRequestType \<Rightarrow> string"
  fm_response :: "Response \<Rightarrow> string"

definition bool_debug :: "bool \<Rightarrow> string" where
  "bool_debug b = (if b then ''true'' else ''false'')"

text \<open>The derived implementations of the identifiers.\<close>

definition CommandId_debug :: "CommandId \<Rightarrow> string" where
  "CommandId_debug c = debug_tuple ''CommandId'' [nat_display (unat (raw c))]"

definition NodeId_debug :: "NodeId \<Rightarrow> string" where
  "NodeId_debug n = debug_tuple ''NodeId'' [nat_display (unat (node_id_get n))]"

definition SessionId_debug :: "SessionId \<Rightarrow> string" where
  "SessionId_debug s = debug_tuple ''SessionId'' [nat_display (unat (session_id_get s))]"

section \<open>The implementations\<close>

definition Frame_debug :: "formats \<Rightarrow> Frame \<Rightarrow> string" where
  "Frame_debug fm f =
     debug_struct ''Frame''
       [(''protocol_id'', nat_display (unat (frame_protocol_id f))), (''command'', CommandId_debug (frame_command f)),
        (''payload'',
          if frame_command f \<in> {GW_PASSWORD_ENTER_REQ, GW_PASSWORD_CHANGE_REQ, GW_PASSWORD_CHANGE_NTF}
          then fm_str fm ''[REDACTED]'' else fm_bytes fm (frame_payload f))]"

primrec Request_debug :: "formats \<Rightarrow> Request \<Rightarrow> string" where
  "Request_debug fm (PasswordEnter _) = ''PasswordEnter([REDACTED])''"
| "Request_debug fm (PasswordChange _ _) = ''PasswordChange([REDACTED])''"
| "Request_debug fm (Raw command payload) =
     debug_struct ''Raw'' [(''command'', CommandId_debug command), (''payload_length'', nat_display (length payload))]"
| "Request_debug fm Reboot = ''Reboot''"
| "Request_debug fm SetFactoryDefault = ''SetFactoryDefault''"
| "Request_debug fm GetVersion = ''GetVersion''"
| "Request_debug fm GetProtocolVersion = ''GetProtocolVersion''"
| "Request_debug fm GetState = ''GetState''"
| "Request_debug fm LeaveLearnState = ''LeaveLearnState''"
| "Request_debug fm GetNetworkSetup = ''GetNetworkSetup''"
| "Request_debug fm (SetNetworkSetup network) = debug_tuple ''SetNetworkSetup'' [fm_network fm network]"
| "Request_debug fm (SetUtc timestamp) = debug_tuple ''SetUtc'' [fm_timestamp fm timestamp]"
| "Request_debug fm (SetTimeZone time_zone) = debug_tuple ''SetTimeZone'' [fm_str fm time_zone]"
| "Request_debug fm GetLocalTime = ''GetLocalTime''"
| "Request_debug fm (Configuration request) = debug_tuple ''Configuration'' [fm_configuration fm request]"
| "Request_debug fm (NodeGroup request) = debug_tuple ''NodeGroup'' [fm_node_group fm request]"
| "Request_debug fm (CommandExtension request) = debug_tuple ''CommandExtension'' [fm_extension fm request]"
| "Request_debug fm (SceneContact request) = debug_tuple ''SceneContact'' [fm_scene fm request]"
| "Request_debug fm (ActivationLog request) = debug_tuple ''ActivationLog'' [fm_log fm request]"
| "Request_debug fm GetAllNodesInformation = ''GetAllNodesInformation''"
| "Request_debug fm HouseStatusMonitorEnable = ''HouseStatusMonitorEnable''"
| "Request_debug fm HouseStatusMonitorDisable = ''HouseStatusMonitorDisable''"
| "Request_debug fm (GetNodeInformation node_id) = debug_tuple ''GetNodeInformation'' [NodeId_debug node_id]"
| "Request_debug fm (CommandSend command target) =
     debug_struct ''CommandSend''
       [(''command'', fm_command_request fm command), (''target'', fm_target fm target)]"
| "Request_debug fm (StatusRequest session target status_type) =
     debug_struct ''StatusRequest''
       [(''session_id'', SessionId_debug session), (''target'', fm_target fm target),
        (''status_type'', fm_status_type fm status_type)]"

definition PasswordChangedNotification_debug :: "PasswordChangedNotification \<Rightarrow> string" where
  "PasswordChangedNotification_debug n = ''PasswordChangedNotification([REDACTED])''"

text \<open>The derived implementation of \<open>Response\<close>, which uses the one of the notification.\<close>

definition Response_debug :: "formats \<Rightarrow> Response \<Rightarrow> string" where
  "Response_debug fm response =
     (case response of
        PasswordChangedNotification n \<Rightarrow>
          debug_tuple ''PasswordChangedNotification'' [PasswordChangedNotification_debug n]
      | _ \<Rightarrow> fm_response fm response)"

definition Klf200Client_debug :: "'s Klf200Client \<Rightarrow> string" where
  "Klf200Client_debug client = debug_non_exhaustive ''Klf200Client''"

definition MqttConfig_debug :: "formats \<Rightarrow> MqttConfig \<Rightarrow> string" where
  "MqttConfig_debug fm config =
     debug_struct ''MqttConfig''
       [(''server'', fm_str fm (mc_server config)), (''port'', nat_display (unat (mc_port config))),
        (''ca_cert'', fm_path fm (mc_ca_cert config)), (''insecure'', bool_debug (mc_insecure config)),
        (''client_id'', fm_str fm (mc_client_id config)),
        (''user_configured'', bool_debug (mc_user config \<noteq> [])), (''password'', fm_str fm ''[REDACTED]''),
        (''base_topic'', fm_str fm (mc_base_topic config)), (''keep_alive'', fm_duration fm (mc_keep_alive config)),
        (''request_capacity'', nat_display (mc_request_capacity config))]"

section \<open>What a text may depend on\<close>

text \<open>
  A rendering that depends on the public part of a value only. A log of such values is then determined by
  their public parts, whatever the secrets in them.
\<close>

locale redaction =
  fixes render :: "'a \<Rightarrow> string" and public :: "'a \<Rightarrow> 'b"
  assumes determined: "public x = public y \<Longrightarrow> render x = render y"
begin

lemma logs_agree:
  assumes "map public xs = map public ys"
  shows "map render xs = map render ys"
proof (rule nth_equalityI)
  have len: "length xs = length ys" using assms by (rule map_eq_imp_length_eq)
  then show "length (map render xs) = length (map render ys)" by simp
  fix i assume i: "i < length (map render xs)"
  have "public (xs ! i) = public (ys ! i)" using arg_cong [OF assms, of "\<lambda>zs. zs ! i"] i len by simp
  from determined [OF this] show "map render xs ! i = map render ys ! i" using i len by simp
qed

end

definition password_commands :: "CommandId set" where
  "password_commands = {GW_PASSWORD_ENTER_REQ, GW_PASSWORD_CHANGE_REQ, GW_PASSWORD_CHANGE_NTF}"

definition Frame_public :: "Frame \<Rightarrow> u8 \<times> CommandId \<times> u8 list option" where
  "Frame_public f = (frame_protocol_id f, frame_command f,
     if frame_command f \<in> password_commands then None else Some (frame_payload f))"

definition Request_public :: "Request \<Rightarrow> Request" where
  "Request_public r =
     (case r of
        PasswordEnter _ \<Rightarrow> PasswordEnter []
      | PasswordChange _ _ \<Rightarrow> PasswordChange [] []
      | Raw command payload \<Rightarrow> Raw command (replicate (length payload) 0)
      | _ \<Rightarrow> r)"

definition MqttConfig_public :: "MqttConfig \<Rightarrow> MqttConfig" where
  "MqttConfig_public config = config\<lparr>mc_password := [], mc_user := (if mc_user config = [] then [] else ''user'')\<rparr>"

interpretation frame_log: redaction "Frame_debug fm" Frame_public for fm
  by unfold_locales (auto simp: Frame_public_def Frame_debug_def password_commands_def split: if_splits)

lemma Request_public_inversions:
  "Request_public r = PasswordEnter p \<Longrightarrow> \<exists>q. r = PasswordEnter q"
  "Request_public r = PasswordChange p q \<Longrightarrow> \<exists>p' q'. r = PasswordChange p' q'"
  "Request_public r = Raw c bytes \<Longrightarrow> \<exists>payload. r = Raw c payload \<and> length payload = length bytes"
  by (cases r; force simp: Request_public_def)+

lemma Request_public_same:
  "Request_public r = r \<or> (\<exists>p. r = PasswordEnter p) \<or> (\<exists>p q. r = PasswordChange p q) \<or> (\<exists>c p. r = Raw c p)"
  by (cases r) (simp_all add: Request_public_def)

lemma Request_public_cases:
  assumes "Request_public r = Request_public r'"
  shows "r = r' \<or> (\<exists>p p'. r = PasswordEnter p \<and> r' = PasswordEnter p')
    \<or> (\<exists>p q p' q'. r = PasswordChange p q \<and> r' = PasswordChange p' q')
    \<or> (\<exists>c p p'. r = Raw c p \<and> r' = Raw c p' \<and> length p = length p')"
proof -
  have eq: "Request_public r' = Request_public r" using assms by (rule sym)
  show ?thesis
    using Request_public_same [of r]
  proof (elim disjE exE)
    fix p assume "r = PasswordEnter p"
    then show ?thesis using Request_public_inversions(1) [of r' "[]"] eq by (auto simp: Request_public_def)
  next
    fix p q assume "r = PasswordChange p q"
    then show ?thesis using Request_public_inversions(2) [of r' "[]" "[]"] eq by (auto simp: Request_public_def)
  next
    fix c p assume "r = Raw c p"
    then show ?thesis
      using Request_public_inversions(3) [of r' c "replicate (length p) 0"] eq by (auto simp: Request_public_def)
  next
    assume r: "Request_public r = r"
    then have "Request_public r' = r" using eq by simp
    then show ?thesis using Request_public_same [of r'] r by (auto simp: Request_public_def)
  qed
qed

interpretation request_log: redaction "Request_debug fm" Request_public for fm
  by unfold_locales (auto dest!: Request_public_cases)

interpretation mqtt_config_log: redaction "MqttConfig_debug fm" MqttConfig_public for fm
proof unfold_locales
  fix x y assume eq: "MqttConfig_public x = MqttConfig_public y"
  have "mc_server x = mc_server y" "mc_port x = mc_port y" "mc_ca_cert x = mc_ca_cert y"
    "mc_insecure x = mc_insecure y" "mc_client_id x = mc_client_id y" "mc_base_topic x = mc_base_topic y"
    "mc_keep_alive x = mc_keep_alive y" "mc_request_capacity x = mc_request_capacity y"
    "mc_user x = [] \<longleftrightarrow> mc_user y = []"
    using eq [THEN arg_cong, of mc_server] eq [THEN arg_cong, of mc_port] eq [THEN arg_cong, of mc_ca_cert]
      eq [THEN arg_cong, of mc_insecure] eq [THEN arg_cong, of mc_client_id] eq [THEN arg_cong, of mc_base_topic]
      eq [THEN arg_cong, of mc_keep_alive] eq [THEN arg_cong, of mc_request_capacity] eq [THEN arg_cong, of mc_user]
    by (auto simp: MqttConfig_public_def split: if_splits)
  then show "MqttConfig_debug fm x = MqttConfig_debug fm y" by (simp add: MqttConfig_debug_def)
qed

section \<open>Properties\<close>

text \<open>Everything a password notification decodes to reads the same.\<close>

lemma notification_redacted:
  assumes "Response_decode (Frame_new GW_PASSWORD_CHANGE_NTF p) = Ok r"
  shows "Response_debug fm r = ''PasswordChangedNotification(PasswordChangedNotification([REDACTED]))''"
  using assms
  by (auto simp: Response_decode_def decode_core_def decode_gateway_def Frame_new_def and_then_eq_Ok_iff
      Response_debug_def PasswordChangedNotification_debug_def debug_tuple_def split: if_splits)

lemma encoded_frame_public:
  assumes "Request_public r = Request_public r'" "Request_encode r = Ok f" "Request_encode r' = Ok f'"
    "\<And>c p. r = Raw c p \<Longrightarrow> c \<in> password_commands"
  shows "Frame_public f = Frame_public f'"
  using Request_public_cases [OF assms(1)] assms(2-4)
  by (auto simp: Request_encode_def and_then_eq_Ok_iff Frame_public_def Frame_new_def password_commands_def)

text \<open>
  What an error of a password request can tell of a password: whether it contains a NUL byte, and
  otherwise its length.
\<close>

definition password_outline :: "string \<Rightarrow> bool \<times> nat" where
  "password_outline password = (0 \<in> set (as_bytes password), length password)"

lemma encode_fixed_string_outline:
  assumes "password_outline s = password_outline s'"
  shows "encode_fixed_string n s = Err e \<longleftrightarrow> encode_fixed_string n s' = Err e"
  using assms by (auto simp: password_outline_def encode_fixed_string_def Let_def)

lemma encode_fixed_string_outline_Ok:
  assumes "password_outline s = password_outline s'"
  shows "(\<exists>p. encode_fixed_string n s = Ok p) \<longleftrightarrow> (\<exists>p. encode_fixed_string n s' = Ok p)"
  using assms by (auto simp: password_outline_def encode_fixed_string_def Let_def)

lemma password_errors_outline:
  assumes "password_outline s = password_outline s'" "password_outline t = password_outline t'"
  shows "password_enter s = Err e \<longleftrightarrow> password_enter s' = Err e"
    and "password_change s t = Err e \<longleftrightarrow> password_change s' t' = Err e"
  using encode_fixed_string_outline [OF assms(1)] encode_fixed_string_outline [OF assms(2)]
    encode_fixed_string_outline_Ok [OF assms(1)]
  by (auto simp: password_enter_def password_change_def and_then_eq_Err_iff)

text \<open>
  C28. The Debug output of what holds a password does not depend on it: two sequences of requests that
  differ only in their passwords, or in the bytes of raw payloads, read the same, and so do the frames they
  are encoded to, raw requests that are not of a password command apart; two notifications of a changed
  password read the same; and so do two MQTT configurations that differ only in the password and in the name
  of the user. The errors of building a password request tell of the passwords only whether they contain a
  NUL byte and how long they are: a password that is too long is named with its length.
\<close>

theorem passwords_are_redacted:
  assumes "map Request_public rs = map Request_public rs'" "MqttConfig_public config = MqttConfig_public config'"
  shows "map (Request_debug fm) rs = map (Request_debug fm) rs'
    \<and> (\<forall>i < length rs. \<forall>f f'. Request_encode (rs ! i) = Ok f \<longrightarrow> Request_encode (rs' ! i) = Ok f' \<longrightarrow>
         (\<forall>c p. rs ! i = Raw c p \<longrightarrow> c \<in> password_commands) \<longrightarrow> Frame_debug fm f = Frame_debug fm f')
    \<and> (\<forall>p p' a a'. Response_decode (Frame_new GW_PASSWORD_CHANGE_NTF p) = Ok a \<longrightarrow>
         Response_decode (Frame_new GW_PASSWORD_CHANGE_NTF p') = Ok a' \<longrightarrow> Response_debug fm a = Response_debug fm a')
    \<and> MqttConfig_debug fm config = MqttConfig_debug fm config'
    \<and> (\<forall>s s' t t' e. password_outline s = password_outline s' \<and> password_outline t = password_outline t' \<longrightarrow>
         (password_enter s = Err e \<longleftrightarrow> password_enter s' = Err e)
         \<and> (password_change s t = Err e \<longleftrightarrow> password_change s' t' = Err e))"
proof (intro conjI allI impI)
  show "map (Request_debug fm) rs = map (Request_debug fm) rs'" by (rule request_log.logs_agree [OF assms(1)])
  show "MqttConfig_debug fm config = MqttConfig_debug fm config'" by (rule mqtt_config_log.determined [OF assms(2)])
next
  fix i f f' assume i: "i < length rs" "Request_encode (rs ! i) = Ok f" "Request_encode (rs' ! i) = Ok f'"
    "\<forall>c p. rs ! i = Raw c p \<longrightarrow> c \<in> password_commands"
  have "length rs' = length rs" using map_eq_imp_length_eq [OF assms(1)] by simp
  then have "Request_public (rs ! i) = Request_public (rs' ! i)"
    using arg_cong [OF assms(1), of "\<lambda>xs. xs ! i"] i(1) by simp
  from encoded_frame_public [OF this i(2,3)] i(4) show "Frame_debug fm f = Frame_debug fm f'"
    by (intro frame_log.determined) blast
next
  fix s s' t t' :: string and e
  assume same: "password_outline s = password_outline s' \<and> password_outline t = password_outline t'"
  show "password_enter s = Err e \<longleftrightarrow> password_enter s' = Err e"
    by (rule password_errors_outline(1) [OF conjunct1 [OF same] conjunct2 [OF same]])
  show "password_change s t = Err e \<longleftrightarrow> password_change s' t' = Err e"
    by (rule password_errors_outline(2) [OF conjunct1 [OF same] conjunct2 [OF same]])
qed (simp add: notification_redacted)

theorem passwords_are_redacted_witness:
  "\<forall>fm e. Request_debug fm (PasswordEnter ''secret'') = Request_debug fm (PasswordEnter ''other'')
   \<and> MqttConfig_debug fm ((MqttConfig_new ''broker'')\<lparr>mc_user := ''a'', mc_password := ''x''\<rparr>) =
     MqttConfig_debug fm ((MqttConfig_new ''broker'')\<lparr>mc_user := ''b'', mc_password := ''y''\<rparr>)
   \<and> (password_enter (replicate 32 CHR ''a'') = Err e \<longleftrightarrow> password_enter (replicate 32 CHR ''b'') = Err e)"
  using passwords_are_redacted [of "[PasswordEnter ''secret'']" "[PasswordEnter ''other'']"
      "(MqttConfig_new ''broker'')\<lparr>mc_user := ''a'', mc_password := ''x''\<rparr>"
      "(MqttConfig_new ''broker'')\<lparr>mc_user := ''b'', mc_password := ''y''\<rparr>"]
  by (simp add: MqttConfig_public_def Request_public_def password_outline_def as_bytes_def)

end
