(* ===== verification/Cli.thy ===== *)
theory Cli
  imports Bridge
begin

text \<open>
  The command line (\<open>src/bin/velux2mqtt.rs\<close>): the options as the argument parser delivers them, their
  validation, and the configuration of the bridge that is built from them. Durations are milliseconds.
\<close>

record Cli =
  cli_klf_host :: string
  cli_klf_port :: u16
  cli_klf_password :: string
  cli_klf_heartbeat_interval :: nat
  cli_status_refresh_interval :: nat
  cli_certificate :: "string option"
  cli_klf_reboot_on_shutdown :: bool
  cli_klf_reboot_reconnect_delay :: nat
  cli_mqtt_addr :: string
  cli_mqtt_port :: u16
  cli_mqtt_ca_cert :: "string option"
  cli_mqtt_insecure :: bool
  cli_mqtt_user :: string
  cli_mqtt_pass :: string
  cli_mqtt_client_id :: string
  cli_mqtt_base_topic :: string
  cli_hass_discovery :: bool

text \<open>The values of the options that are not given.\<close>

definition Cli_defaults :: "string \<Rightarrow> string \<Rightarrow> string \<Rightarrow> Cli" where
  "Cli_defaults klf_host klf_password mqtt_addr =
     \<lparr>cli_klf_host = klf_host, cli_klf_port = 51200, cli_klf_password = klf_password,
      cli_klf_heartbeat_interval = 30, cli_status_refresh_interval = 300, cli_certificate = None,
      cli_klf_reboot_on_shutdown = False, cli_klf_reboot_reconnect_delay = 30,
      cli_mqtt_addr = mqtt_addr, cli_mqtt_port = 1883, cli_mqtt_ca_cert = None,
      cli_mqtt_insecure = False, cli_mqtt_user = [], cli_mqtt_pass = [],
      cli_mqtt_client_id = ''velux2mqtt'', cli_mqtt_base_topic = ''velux'', cli_hass_discovery = False\<rparr>"

text \<open>\<open>std::fs::metadata\<close> is an argument: the text of its error, or nothing.\<close>

definition Cli_validate :: "(string \<Rightarrow> string option) \<Rightarrow> Cli \<Rightarrow> (bridge_error, unit) outcome" where
  "Cli_validate metadata cli =
     (if trim (cli_klf_host cli) = [] then Err (Bail ''KLF host cannot be empty'')
      else if cli_klf_password cli = [] then Err (Bail ''KLF password cannot be empty'')
      else if cli_klf_heartbeat_interval cli = 0 then
        Err (Bail ''KLF heartbeat interval must be greater than zero'')
      else if cli_status_refresh_interval cli = 0 then
        Err (Bail ''status refresh interval must be greater than zero'')
      else if cli_klf_reboot_reconnect_delay cli = 0 then
        Err (Bail ''KLF reboot reconnect delay must be greater than zero'')
      else if trim (cli_mqtt_addr cli) = [] then Err (Bail ''MQTT address cannot be empty'')
      else if trim (cli_mqtt_client_id cli) = [] then Err (Bail ''MQTT client ID cannot be empty'')
      else if trim_matches CHR ''/'' (cli_mqtt_base_topic cli) = [] then
        Err (Bail ''MQTT base topic cannot be empty'')
      else
        (case cli_certificate cli of
           None \<Rightarrow> Ok ()
         | Some path \<Rightarrow>
             (case metadata path of
                None \<Rightarrow> Ok ()
              | Some message \<Rightarrow>
                  Err (Context (''cannot read KLF certificate at '' @ path) (Bail message)))))"

definition Cli_bridge_config :: "Cli \<Rightarrow> VeluxMqttBridgeConfig" where
  "Cli_bridge_config cli =
     (let klf = (Klf200Config_new (cli_klf_host cli))
            \<lparr>kc_port := cli_klf_port cli, kc_certificate := cli_certificate cli\<rparr>;
          mqtt = (MqttConfig_new (cli_mqtt_addr cli))
            \<lparr>mc_port := cli_mqtt_port cli, mc_ca_cert := cli_mqtt_ca_cert cli,
             mc_insecure := cli_mqtt_insecure cli, mc_user := cli_mqtt_user cli,
             mc_password := cli_mqtt_pass cli, mc_client_id := cli_mqtt_client_id cli,
             mc_base_topic := cli_mqtt_base_topic cli\<rparr>
      in (VeluxMqttBridgeConfig_new klf (cli_klf_password cli) mqtt)
           \<lparr>bc_hass_discovery := cli_hass_discovery cli,
            bc_reboot_on_shutdown := cli_klf_reboot_on_shutdown cli,
            bc_reboot_reconnect_delay := 1000 * cli_klf_reboot_reconnect_delay cli,
            bc_heartbeat_interval := 1000 * cli_klf_heartbeat_interval cli,
            bc_status_refresh_interval := 1000 * cli_status_refresh_interval cli\<rparr>)"

text \<open>What starts the bridge: the options are validated before anything is built from them.\<close>

definition main_start ::
  "(string \<Rightarrow> string option) \<Rightarrow> (string \<Rightarrow> (string, u8 list) outcome) \<Rightarrow> nat \<Rightarrow> Cli
     \<Rightarrow> (bridge_error, bridge \<times> MqttOptions \<times> TopicLayout) outcome"
where
  "main_start metadata read_file now cli =
     and_then (Cli_validate metadata cli) (\<lambda>_. VeluxMqttBridge_new read_file now (Cli_bridge_config cli))"

section \<open>Properties\<close>

text \<open>
  Options that pass the validation of the command line give a configuration that the bridge accepts,
  with two exceptions: the two TLS options of MQTT given together, which the argument parser rules out,
  and a base topic that has an empty level or a wildcard.
\<close>

theorem accepted_options_configure:
  assumes "Cli_validate metadata cli = Ok ()"
  shows "snd (VeluxMqttBridgeConfig_validate (Cli_bridge_config cli)) = Ok () \<longleftrightarrow>
     \<not> (cli_mqtt_ca_cert cli \<noteq> None \<and> cli_mqtt_insecure cli)
     \<and> (\<exists>topics. TopicLayout_new (trim_matches CHR ''/'' (trim (cli_mqtt_base_topic cli))) = Ok topics)"
proof -
  have ok: "trim (cli_klf_host cli) \<noteq> []" "cli_klf_password cli \<noteq> []" "0 < cli_klf_heartbeat_interval cli"
    "0 < cli_status_refresh_interval cli" "0 < cli_klf_reboot_reconnect_delay cli"
    "trim (cli_mqtt_addr cli) \<noteq> []" "trim (cli_mqtt_client_id cli) \<noteq> []"
    using assms by (auto simp: Cli_validate_def split: if_splits)
  have layout: "map_err MqttFailure (and_then r (\<lambda>_. Ok ())) = Ok () \<longleftrightarrow> (\<exists>t. r = Ok t)" for r :: "(MqttError, TopicLayout) outcome"
    by (cases r) simp_all
  from ok show ?thesis
    by (auto simp: layout VeluxMqttBridgeConfig_validate_def MqttConfig_validate_def Cli_bridge_config_def
        VeluxMqttBridgeConfig_new_def Klf200Config_new_def MqttConfig_new_def ConnectionSettings_default_def
        outcome_iffs Let_def)
qed

theorem accepted_options_configure_witness:
  "snd (VeluxMqttBridgeConfig_validate (Cli_bridge_config (Cli_defaults ''klf'' ''pw'' ''broker''))) = Ok ()"
proof -
  let ?cli = "Cli_defaults ''klf'' ''pw'' ''broker''"
  note eval = trim_def whitespace_def trim_leading.simps trim_matches_def
  have "Cli_validate (\<lambda>_. None) ?cli = Ok ()"
    by (simp add: Cli_validate_def Cli_defaults_def eval)
  moreover have "TopicLayout_new (trim_matches CHR ''/'' (trim (cli_mqtt_base_topic ?cli))) =
      Ok \<lparr>tl_base = ''velux''\<rparr>"
    by (simp add: TopicLayout_new_def Cli_defaults_def eval)
  ultimately show ?thesis
    using accepted_options_configure [of "\<lambda>_. None" ?cli] by (simp add: Cli_defaults_def)
qed

end
