(* ===== verification/Program.thy ===== *)
theory Program
  imports Cli Bridge_Run
begin

text \<open>
  The whole program (\<open>src/bin/velux2mqtt.rs\<close>, \<open>main\<close>, and \<open>src/bridge.rs\<close>, \<open>run\<close> and \<open>shutdown_signal\<close>): the options
  are validated, the bridge is built from them and runs until a signal of the process ends it.
\<close>

section \<open>Signals\<close>

text \<open>What ends the wait for a signal: \<open>ctrl_c\<close> resolves, or the handler of SIGTERM, which is registered first.\<close>

datatype signal = CtrlC "(string, unit) outcome" | Terminate

definition shutdown_signal :: "(string, unit) outcome \<Rightarrow> signal \<Rightarrow> (bridge_error, unit) outcome" where
  "shutdown_signal registered received =
     and_then (map_err (\<lambda>message. Context ''failed to listen for SIGTERM'' (Bail message)) registered) (\<lambda>_.
       case received of
         CtrlC r \<Rightarrow> map_err (\<lambda>message. Context ''failed to listen for Ctrl+C'' (Bail message)) r
       | Terminate \<Rightarrow> Ok ())"

section \<open>The run\<close>

text \<open>What happens to the process: a signal, or something that wakes the bridge.\<close>

datatype occurrence = Signalled signal | Occurred bridge_input

definition loop_inputs :: "(string, unit) outcome \<Rightarrow> (world \<times> occurrence) list \<Rightarrow> (world \<times> loop_input) list" where
  "loop_inputs registered occurrences =
     map (\<lambda>(w, i). (w, case i of
       Signalled s \<Rightarrow> ShutdownSignal (shutdown_signal registered s)
     | Occurred input \<Rightarrow> Woken input)) occurrences"

definition VeluxMqttBridge_run ::
  "(nat \<Rightarrow> nat \<Rightarrow> nat \<Rightarrow> nat) \<Rightarrow> nat \<Rightarrow> (string, unit) outcome \<Rightarrow> (world \<times> occurrence) list \<Rightarrow> world
     \<Rightarrow> (bridge_error, PreparedGateway) outcome \<Rightarrow> (MqttError, unit) outcome \<Rightarrow> bridge
     \<Rightarrow> (bridge \<times> calls \<times> (bridge_error, unit) outcome) option"
where
  "VeluxMqttBridge_run skip now registered occurrences =
     run_until skip now (loop_inputs registered occurrences)"

text \<open>
  \<open>main\<close>: what it leaves of the bridge, if there was one, and the value it returns. It is absent while the
  program still runs.
\<close>

definition velux2mqtt_main ::
  "(string \<Rightarrow> string option) \<Rightarrow> (string \<Rightarrow> (string, u8 list) outcome) \<Rightarrow> (nat \<Rightarrow> nat \<Rightarrow> nat \<Rightarrow> nat) \<Rightarrow> nat \<Rightarrow> nat
     \<Rightarrow> (string, unit) outcome \<Rightarrow> (world \<times> occurrence) list \<Rightarrow> world
     \<Rightarrow> (bridge_error, PreparedGateway) outcome \<Rightarrow> (MqttError, unit) outcome \<Rightarrow> Cli
     \<Rightarrow> ((bridge \<times> calls) option \<times> (bridge_error, unit) outcome) option"
where
  "velux2mqtt_main metadata read_file skip now start registered occurrences w task disconnected cli =
     (case main_start metadata read_file now cli of
        Err e \<Rightarrow> Some (None, Err e)
      | Panic \<Rightarrow> Some (None, Panic)
      | Ok (b, mqtt) \<Rightarrow>
          map_option (\<lambda>(b, calls, r). (Some (b, calls), r))
            (VeluxMqttBridge_run skip start registered occurrences w task disconnected b))"

section \<open>The options in the bridge\<close>

lemma main_start_config:
  assumes "main_start metadata read_file now cli = Ok (b, mqtt)"
  shows "bc_heartbeat_interval (br_config b) = 1000 * cli_klf_heartbeat_interval cli"
    "bc_status_refresh_interval (br_config b) = 1000 * cli_status_refresh_interval cli"
    "VeluxMqttBridge_new read_file now (Cli_bridge_config cli) = Ok (b, mqtt)"
    "bc_reboot_reconnect_delay (Cli_bridge_config cli) = 1000 * cli_klf_reboot_reconnect_delay cli"
    "bc_reconnect_max_delay (Cli_bridge_config cli) = 60000"
  using assms
  by (auto simp: main_start_def VeluxMqttBridge_new_def VeluxMqttBridgeConfig_validate_def Cli_bridge_config_def
      VeluxMqttBridgeConfig_new_def outcome_iffs Let_def split_beta split: if_splits prod.splits)

lemma loop_inputs_from:
  assumes "\<And>w i. (w, i) \<in> set occurrences \<Longrightarrow> w \<in> W \<and> (case i of Occurred input \<Rightarrow> genuine input | _ \<Rightarrow> True)"
  shows "inputs_from W (loop_inputs registered occurrences)"
  unfolding inputs_from_def loop_inputs_def set_map
proof (clarsimp)
  fix w i assume "(w, i) \<in> set occurrences"
  from assms [OF this] show "w \<in> W \<and> (case case i of Signalled s \<Rightarrow> ShutdownSignal (shutdown_signal registered s)
      | Occurred input \<Rightarrow> Woken input of ShutdownSignal r \<Rightarrow> True | Woken input \<Rightarrow> genuine input)"
    by (cases i) simp_all
qed

lemma signal_in_loop_inputs:
  "(w, ShutdownSignal r) \<in> set (loop_inputs registered occurrences) \<longleftrightarrow>
     (\<exists>s. (w, Signalled s) \<in> set occurrences \<and> r = shutdown_signal registered s)"
  by (force simp: loop_inputs_def split: occurrence.splits)

section \<open>Properties\<close>

text \<open>
  C12. A program whose options were accepted ends when it is told to, if all its times are instants: if up to a
  time \<open>T\<close>, the last one of the run, the heartbeat, the refresh interval, the delay after a reboot and the longest
  delay of the back-off (75 seconds with its jitter) end before the last instant, and if what the handlers
  publish finds room in the request channel of the MQTT client. After whatever happened before a signal, \<open>main\<close>
  then returns and has not panicked; the bridge it leaves behind has no gateway and no set-up; a broker it is
  connected to retains that it is offline; and the only error it can return is that of the MQTT disconnect.
\<close>

theorem program_ends_offline:
  assumes "main_start metadata read_file now cli = Ok (b0, mqtt)" "now \<le> T" "start \<le> T"
    "T + 1000 * max 75 (max (cli_klf_reboot_reconnect_delay cli)
       (max (cli_klf_heartbeat_interval cli) (cli_status_refresh_interval cli))) \<le> INSTANT_MAX"
    "\<And>v i. (v, i) \<in> set occurrences \<Longrightarrow> v \<in> reliable to_vec \<inter> until T
       \<and> (case i of Occurred input \<Rightarrow> genuine input | Signalled s \<Rightarrow> s \<in> {Terminate, CtrlC (Ok ())})"
    "\<And>st. start_running start b0 = Ok st \<Longrightarrow> never_blocks skip (loop_inputs (Ok ()) occurrences) st"
    "w \<in> reliable to_vec" "2 \<le> w_room w" "(w', Signalled s) \<in> set occurrences"
  shows "\<exists>b calls r. velux2mqtt_main metadata read_file skip now start (Ok ()) occurrences w task disconnected cli =
       Some (Some (b, calls), r)
     \<and> br_gateway b = None \<and> \<not> br_setup b
     \<and> (br_mqtt_connected b \<longrightarrow> broker b (topic_state (br_topics b)) = Some (as_bytes OFFLINE_PAYLOAD))
     \<and> r = (if br_mqtt_connected b then map_err MqttFailure disconnected else Ok ())"
proof -
  let ?inputs = "loop_inputs (Ok ()) occurrences"
  note cli = main_start_config [OF assms(1)]
  have inputs: "inputs_from (reliable to_vec \<inter> until T) ?inputs"
  proof (rule loop_inputs_from)
    show "v \<in> reliable to_vec \<inter> until T \<and> (case i of Occurred input \<Rightarrow> genuine input | _ \<Rightarrow> True)"
      if "(v, i) \<in> set occurrences" for v i
      using assms(5) [OF that] by (cases i) simp_all
  qed
  have ok: "shutdown_signal (Ok ()) s = Ok ()" if "(v, Signalled s) \<in> set occurrences" for v s
    using assms(5) [OF that] by (auto simp: shutdown_signal_def)
  have overflow: "\<not> instant_overflows b" if "bridge_reaches (reliable to_vec \<inter> until T) b0 b" for b
    by (rule never_overflows [OF cli(3) _ assms(2) Int_lower2 _ that]) (use assms(4) in \<open>simp_all add: cli(4,5) DURATION_MAX_def\<close>)
  have range: "start + max (bc_heartbeat_interval (br_config b0)) (bc_status_refresh_interval (br_config b0)) \<le> INSTANT_MAX"
    using assms(3,4) by (simp add: cli(1,2) nat_mult_max_right)
  have told: "(w', ShutdownSignal (Ok ())) \<in> set ?inputs"
    using assms(9) ok by (auto simp: signal_in_loop_inputs)
  have only: "r = Ok ()" if "(v, ShutdownSignal r) \<in> set ?inputs" for v r
    using that ok by (auto simp: signal_in_loop_inputs)
  have "\<exists>b c calls r. bridge_reaches (reliable to_vec \<inter> until T) b0 b
    \<and> run_until skip start ?inputs w task disconnected b0 = Some (c, calls, r)
    \<and> br_gateway c = None \<and> \<not> br_setup c
    \<and> (br_mqtt_connected c \<longrightarrow> broker c (topic_state (br_topics c)) = Some (as_bytes OFFLINE_PAYLOAD))
    \<and> (br_gateway b \<noteq> None \<longrightarrow> br_calls c = br_calls b @ [CallShutdown (bc_reboot_on_shutdown (br_config b))])
    \<and> r = (if br_mqtt_connected c then map_err MqttFailure disconnected else Ok ())"
    by (rule run_ends_offline [OF cli(3) Int_lower1 inputs assms(7,8) overflow range assms(6) told])
      (assumption | rule only)+
  then obtain c calls r where "run_until skip start ?inputs w task disconnected b0 = Some (c, calls, r)"
    "br_gateway c = None" "\<not> br_setup c"
    "br_mqtt_connected c \<longrightarrow> broker c (topic_state (br_topics c)) = Some (as_bytes OFFLINE_PAYLOAD)"
    "r = (if br_mqtt_connected c then map_err MqttFailure disconnected else Ok ())" by blast
  then show ?thesis
    by (intro exI [of _ c] exI [of _ calls] exI [of _ r]) (simp add: velux2mqtt_main_def assms(1) VeluxMqttBridge_run_def)
qed

text \<open>The default options, a connection to the broker, and SIGTERM.\<close>

definition example_cli :: "nat \<Rightarrow> Cli" where
  "example_cli interval = (Cli_defaults ''klf'' ''pw'' ''broker'')\<lparr>cli_klf_heartbeat_interval := interval\<rparr>"

lemma example_cli_starts:
  assumes "0 < interval"
  obtains b0 mqtt where "main_start (\<lambda>_. None) (\<lambda>_. Ok []) 0 (example_cli interval) = Ok (b0, mqtt)"
proof -
  let ?config = "example_config\<lparr>bc_heartbeat_interval := 1000 * interval\<rparr>"
  have valid: "Cli_validate (\<lambda>_. None) (example_cli interval) = Ok ()"
    using assms by (simp add: Cli_validate_def example_cli_def Cli_defaults_def trim_def whitespace_def
        trim_leading.simps trim_matches_def)
  have config: "Cli_bridge_config (example_cli interval) = ?config"
    by (simp add: Cli_bridge_config_def example_cli_def Cli_defaults_def example_config_def Klf200Config_new_def
        VeluxMqttBridgeConfig_new_def MqttConfig_new_def DEFAULT_STATUS_REFRESH_def DEFAULT_KLF_PORT_def Let_def)
  have mqtt: "bc_mqtt ?config = MqttConfig_new ''broker''"
    by (simp add: example_config_def VeluxMqttBridgeConfig_new_def)
  have bridge: "VeluxMqttBridgeConfig_validate ?config = (?config, Ok ())"
    using assms by (simp add: VeluxMqttBridgeConfig_validate_def example_config_def VeluxMqttBridgeConfig_new_def
        example_mqtt_valid Klf200Config_new_def trim_def whitespace_def trim_leading.simps
        DEFAULT_STATUS_REFRESH_def ConnectionSettings_default_def Let_def)
  have "transport (\<lambda>_. Ok []) (MqttConfig_new ''broker'') = Ok TransportTcp"
    by (simp add: transport_def MqttConfig_new_def)
  then obtain connection where "MqttConnection_new (\<lambda>_. Ok []) (MqttConfig_new ''broker'') = Ok connection"
    by (simp add: MqttConnection_new_def example_mqtt_valid)
  then have "\<exists>b0 mqtt. VeluxMqttBridge_new (\<lambda>_. Ok []) 0 ?config = Ok (b0, mqtt)"
    by (simp add: VeluxMqttBridge_new_def bridge example_mqtt_valid mqtt)
  then show thesis using that by (auto simp: main_start_def valid config)
qed

theorem program_ends_offline_witness:
  "\<exists>b calls. velux2mqtt_main (\<lambda>_. None) (\<lambda>_. Ok []) (\<lambda>deadline now period. deadline + period) 0 0 (Ok ())
       [(example_world, Occurred (MqttPolled (Ok Connected))), (example_world, Signalled Terminate)]
       example_world Panic (Ok ()) (example_cli 30) = Some (Some (b, calls), Ok ())
     \<and> br_gateway b = None"
proof -
  let ?cli = "example_cli 30"
  let ?occurrences = "[(example_world, Occurred (MqttPolled (Ok Connected))), (example_world, Signalled Terminate)]"
  let ?skip = "\<lambda>deadline now period. deadline + period"
  obtain b0 mqtt where started: "main_start (\<lambda>_. None) (\<lambda>_. Ok []) 0 ?cli = Ok (b0, mqtt)" by (rule example_cli_starts [of 30]) simp
  have gateway: "br_gateway b0 = None" using new_bridge_idle [OF main_start_config(3) [OF started]] by simp
  have range: "0 + 1000 * max 75 (max (cli_klf_reboot_reconnect_delay ?cli)
      (max (cli_klf_heartbeat_interval ?cli) (cli_status_refresh_interval ?cli))) \<le> INSTANT_MAX"
    by (simp add: example_cli_def Cli_defaults_def INSTANT_MAX_def)
  have "example_world \<in> until 0" by (simp add: until_def example_world_def)
  then have all: "v \<in> reliable (\<lambda>_. Ok [0x7B, 0x7D]) \<inter> until 0
      \<and> (case i of Occurred input \<Rightarrow> genuine input | Signalled s \<Rightarrow> s \<in> {Terminate, CtrlC (Ok ())})"
    if "(v, i) \<in> set ?occurrences" for v i
    using that by (auto simp: example_reliable(2) genuine_def)
  have room: "never_blocks ?skip (loop_inputs (Ok ()) ?occurrences) st" if "start_running 0 b0 = Ok st" for st
  proof -
    have "rn_bridge st = b0" using that by (auto simp: start_running_def and_then_eq_Ok_iff)
    then show ?thesis
      by (simp add: loop_inputs_def handle_mqtt_result_def gateway publishing_blocks_def queued_def Let_def
          publish_availability_def br_publish_def publish_def example_world_def)
  qed
  have places: "2 \<le> w_room example_world" by (simp add: example_world_def)
  have told: "(example_world, Signalled Terminate) \<in> set ?occurrences" by simp
  from program_ends_offline [OF started le0 le0 range all room example_reliable(2) places told] show ?thesis
    by (fastforce split: if_splits)
qed

text \<open>
  C32. The intervals given on the command line are accepted up to the largest 64-bit number, but the program
  panics when it starts its timers if the heartbeat or the refresh interval ends after the last instant.
\<close>

theorem huge_interval_panics:
  assumes "main_start metadata read_file now cli = Ok (b0, mqtt)"
    "INSTANT_MAX < start + 1000 * max (cli_klf_heartbeat_interval cli) (cli_status_refresh_interval cli)"
  shows "velux2mqtt_main metadata read_file skip now start registered occurrences w task disconnected cli =
    Some (Some (b0, []), Panic)"
proof -
  note cli = main_start_config [OF assms(1)]
  have "start_running start b0 = Panic"
    using start_running_Panic [OF cli(3)] assms(2) by (simp add: cli(1,2) nat_mult_max_right)
  then show ?thesis by (simp add: velux2mqtt_main_def assms(1) VeluxMqttBridge_run_def run_until_def)
qed

theorem huge_interval_panics_witness:
  "\<exists>b0. velux2mqtt_main (\<lambda>_. None) (\<lambda>_. Ok []) (\<lambda>deadline now period. deadline + period) 0 0 (Ok ()) []
     example_world Panic (Ok ()) (example_cli (2 ^ 63)) = Some (Some (b0, []), Panic)"
proof -
  obtain b0 mqtt where started: "main_start (\<lambda>_. None) (\<lambda>_. Ok []) 0 (example_cli (2 ^ 63)) = Ok (b0, mqtt)"
    by (rule example_cli_starts [of "2 ^ 63"]) simp
  have "INSTANT_MAX < 0 + 1000 * max (cli_klf_heartbeat_interval (example_cli (2 ^ 63)))
      (cli_status_refresh_interval (example_cli (2 ^ 63)))"
    by (simp add: example_cli_def Cli_defaults_def INSTANT_MAX_def)
  from huge_interval_panics [OF started this] show ?thesis by blast
qed

end
