(* ===== verification/Actor_Protocol.thy ===== *)
theory Actor_Protocol
  imports Connection "HOL-Library.Sublist"
begin

text \<open>
  What the connection actor promises, as a protocol: a stop-and-wait link that takes requests in order,
  has at most one of them in flight, and answers the one in flight with its own confirmation or an error.
  Every run of the actor (\<open>src/klf200/connection.rs\<close>, \<open>run_actor\<close>) is a run of this link. From it follow
  what the gateway reads from the byte stream, and, with the clock of the actor, that every request is
  answered in bounded time.
\<close>

section \<open>The link\<close>

text \<open>The request in flight and those that wait; a step takes a request from a client or has an effect.\<close>

type_synonym link = "QueuedRequest option \<times> QueuedRequest list"

datatype link_label = Took QueuedRequest | Did effect

definition wire_bytes :: "Request \<Rightarrow> u8 list result" where
  "wire_bytes request = map_ok slip_encode (and_then (Request_encode request) Frame_encode)"

text \<open>A response that confirms a request: decoded from a frame of its confirmation, for its session.\<close>

definition confirmed_by :: "Request \<Rightarrow> Response \<Rightarrow> bool" where
  "confirmed_by request response \<longleftrightarrow>
     (\<exists>f. expected_confirmation (Request_command_id request) = Some (frame_command f)
        \<and> Response_decode f = Ok response)
     \<and> (case Request_session_id request of
          None \<Rightarrow> True
        | Some s \<Rightarrow> response_session_id response = Some s)"

inductive link_step :: "link \<Rightarrow> link_label \<Rightarrow> link \<Rightarrow> bool" where
  take_request: "link_step (p, qs) (Took q) (p, qs @ [q])"
| transmit: "wire_bytes (qr_request q) = Ok bs \<Longrightarrow> link_step (None, q # qs) (Did (Write bs)) (Some q, qs)"
| refuse: "link_step (None, q # qs) (Did (Reply (qr_reply q) (Err e))) (None, qs)"
| respond: "confirmed_by (qr_request q) r \<Longrightarrow> link_step (Some q, qs) (Did (Reply (qr_reply q) (Ok r))) (None, qs)"
| give_up: "link_step (Some q, qs) (Did (Reply (qr_reply q) (Err e))) (None, qs)"
| announce: "link_step l (Did (Event e)) l"
| closed: "link_step l (Did (ShutdownReply i r)) l"

inductive link_run :: "link \<Rightarrow> link_label list \<Rightarrow> link \<Rightarrow> bool" where
  stays: "link_run l [] l"
| goes: "link_step l x m \<Longrightarrow> link_run m xs n \<Longrightarrow> link_run l (x # xs) n"

inductive_simps link_run_Nil [simp]: "link_run l [] m"
inductive_simps link_run_Cons: "link_run l (x # xs) n"

inductive_cases write_stepE: "link_step l (Did (Write bs)) m"

lemma link_run_append: "link_run l xs m \<Longrightarrow> link_run m ys n \<Longrightarrow> link_run l (xs @ ys) n"
  by (induction rule: link_run.induct) (auto intro: link_run.goes)

lemma link_run_one: "link_step l x m \<Longrightarrow> link_run l [x] m"
  by (auto intro: link_run.intros)

text \<open>The effects of a run and the requests it took.\<close>

primrec label_effects :: "link_label \<Rightarrow> effect list" where
  "label_effects (Took q) = []"
| "label_effects (Did e) = [e]"

primrec label_taken :: "link_label \<Rightarrow> QueuedRequest list" where
  "label_taken (Took q) = [q]"
| "label_taken (Did e) = []"

definition effects_of :: "link_label list \<Rightarrow> effect list" where
  "effects_of xs = concat (map label_effects xs)"

definition taken_of :: "link_label list \<Rightarrow> QueuedRequest list" where
  "taken_of xs = concat (map label_taken xs)"

lemma trace_simps [simp]:
  "effects_of [] = []" "effects_of (x # xs) = label_effects x @ effects_of xs"
  "effects_of (xs @ ys) = effects_of xs @ effects_of ys" "effects_of (map Did es) = es"
  "taken_of [] = []" "taken_of (x # xs) = label_taken x @ taken_of xs"
  "taken_of (xs @ ys) = taken_of xs @ taken_of ys" "taken_of (map Did es) = []"
proof -
  show "effects_of (map Did es) = es" by (induction es) (simp_all add: effects_of_def)
  show "taken_of (map Did es) = []" by (induction es) (simp_all add: taken_of_def)
qed (simp_all add: effects_of_def taken_of_def)

section \<open>The actor implements the link\<close>

text \<open>
  The pending request of the actor keeps what is needed to recognise the answer to the request in flight.
\<close>

definition in_flight :: "PendingRequest option \<Rightarrow> QueuedRequest option \<Rightarrow> bool" where
  "in_flight waiting request \<longleftrightarrow>
     (case (waiting, request) of
        (None, None) \<Rightarrow> True
      | (Some p, Some q) \<Rightarrow>
          pr_reply p = qr_reply q \<and> pr_command p = Request_command_id (qr_request q)
          \<and> expected_confirmation (pr_command p) = Some (pr_expected_confirmation p)
          \<and> pr_session_id p = Request_session_id (qr_request q)
      | _ \<Rightarrow> False)"

lemma in_flight_None [simp]: "in_flight None q \<longleftrightarrow> q = None" "in_flight p None \<longleftrightarrow> p = None"
  by (auto simp: in_flight_def split: option.splits)

definition implements :: "actor \<Rightarrow> link \<Rightarrow> bool" where
  "implements a l \<longleftrightarrow> in_flight (pending a) (fst l) \<and> snd l = requests a"

text \<open>One lemma per operation: its effects are a run of the link that ends in the state it leaves.\<close>

lemma dispatch_next_cases:
  assumes "dispatch_next ss we now t (q # rs) p = (rs', p', effects, r)"
  obtains (refused) e es where "dispatch_next ss we now t rs p = (rs', p', es, r)"
      "effects = Reply (qr_reply q) (Err e) # es"
  | (broken) e where "rs' = rs" "p' = p" "effects = [Reply (qr_reply q) (Err ConnectionClosed)]" "r = Err e"
  | (written) frame c where "and_then (Request_encode (qr_request q)) Frame_encode = Ok frame"
      "expected_confirmation (Request_command_id (qr_request q)) = Some c" "rs' = rs"
      "p' = Some \<lparr>pr_command = Request_command_id (qr_request q), pr_expected_confirmation = c,
         pr_session_id = Request_session_id (qr_request q), pr_deadline = now + t, pr_reply = qr_reply q\<rparr>"
      "effects = [Write (slip_encode frame)]" "r = Ok ()"
  using assms by (auto simp: Let_def split: option.splits outcome.splits prod.splits)

lemma dispatch_next_link:
  assumes "dispatch_next ss we now t rs None = (rs', p', effects, r)"
  shows "\<exists>q. link_run (None, rs) (map Did effects) (q, rs') \<and> in_flight p' q"
  using assms
proof (induction rs arbitrary: rs' p' effects r)
  case (Cons q rs)
  from Cons.prems show ?case
  proof (cases rule: dispatch_next_cases)
    case (refused e es)
    then show ?thesis using Cons.IH [OF refused(1)] by (auto intro: link_run.goes link_step.refuse)
  next
    case (broken e)
    then show ?thesis by (auto intro: link_run_one link_step.refuse)
  next
    case (written frame c)
    have "link_run (None, q # rs) (map Did effects) (Some q, rs)"
      using written(1,5) by (auto simp: wire_bytes_def intro!: link_run_one link_step.transmit)
    then show ?thesis using written(2-4) by (auto simp: in_flight_def)
  qed
qed simp

lemma handle_frame_cases:
  assumes "handle_frame f now t p ss = (p', ss', effects)"
  obtains (confirms) r response where "p = Some r" "p' = None" "effects = [Reply (pr_reply r) (Ok response)]"
      "frame_command f = pr_expected_confirmation r" "Response_decode f = Ok response"
      "confirmation_session_matches (pr_session_id r) response"
  | (fails) r e where "p = Some r" "p' = None" "effects = [Reply (pr_reply r) (Err e)]"
  | (passes) e where "p' = p" "effects = [Event e]"
  | (silent) "p' = p" "effects = []"
  using assms by (auto simp: handle_frame_def Let_def split: option.splits outcome.splits if_splits)

lemma in_flight_Some:
  assumes "in_flight (Some r) q"
  obtains q0 where "q = Some q0" "pr_reply r = qr_reply q0"
    "expected_confirmation (Request_command_id (qr_request q0)) = Some (pr_expected_confirmation r)"
    "pr_session_id r = Request_session_id (qr_request q0)"
  using assms by (auto simp: in_flight_def split: option.splits)

lemma handle_frame_link:
  assumes "handle_frame f now t p ss = (p', ss', effects)" "in_flight p q"
  shows "\<exists>q'. link_run (q, qs) (map Did effects) (q', qs) \<and> in_flight p' q'"
  using assms(1)
proof (cases rule: handle_frame_cases)
  case (confirms r response)
  obtain q0 where q0: "q = Some q0" "pr_reply r = qr_reply q0"
    "expected_confirmation (Request_command_id (qr_request q0)) = Some (pr_expected_confirmation r)"
    "pr_session_id r = Request_session_id (qr_request q0)"
    using assms(2) unfolding confirms(1) by (rule in_flight_Some)
  have "confirmed_by (qr_request q0) response"
    using confirms(4-6) q0(3,4) by (auto simp: confirmed_by_def confirmation_session_matches_def intro!: exI [of _ f])
  from link_step.respond [OF this, of qs] show ?thesis using confirms(2,3) q0(1,2) by (auto intro: link_run_one)
next
  case (fails r e)
  obtain q0 where "q = Some q0" "pr_reply r = qr_reply q0" using assms(2) unfolding fails(1) by (rule in_flight_Some)
  then show ?thesis using fails(2,3) by (auto intro: link_run_one link_step.give_up)
next
  case (passes e)
  then show ?thesis using assms(2) by (auto intro: link_run_one link_step.announce)
qed (use assms(2) in auto)

lemma expire_request_link:
  assumes "expire_request now p ss = (p', ss', effects)" "in_flight p q"
  shows "\<exists>q'. link_run (q, qs) (map Did effects) (q', qs) \<and> in_flight p' q'"
proof (cases p)
  case (Some r)
  then obtain q0 where "q = Some q0" "pr_reply r = qr_reply q0" using assms(2) in_flight_Some by blast
  then have "link_run (q, qs) [Did (Reply (pr_reply r) (Err e))] (None, qs)" for e
    by (auto intro: link_run_one link_step.give_up)
  then show ?thesis using assms Some by (auto simp: expire_request_def split: if_splits)
qed (use assms in \<open>auto simp: expire_request_def\<close>)

lemma announcements_link: "link_run l (map Did (map (\<lambda>s. Event (f s)) xs)) l"
  by (induction xs) (auto intro: link_run.goes link_step.announce)

lemma expire_sessions_link:
  assumes "expire_sessions keys now ss = (ss', effects)"
  shows "link_run l (map Did effects) l"
proof -
  obtain xs where "effects = map (\<lambda>s. Event (SessionTimedOut s)) xs"
    using assms by (auto simp: expire_sessions_def Let_def)
  then show ?thesis using announcements_link by simp
qed

lemma actor_dispatch_link:
  assumes "actor_dispatch settings we now a = (a', effects, stop)" "implements a l"
  shows "\<exists>l'. link_run l (map Did effects) l' \<and> implements a' l'"
proof (cases "pending a")
  case None
  then have l: "l = (None, requests a)" using assms(2) by (cases l) (simp add: implements_def)
  obtain rs p es r where d: "dispatch_next (active a) we now (request_timeout settings) (requests a) None = (rs, p, es, r)"
    by (metis prod_cases4)
  obtain q where "link_run l (map Did es) (q, rs)" "in_flight p q" using dispatch_next_link [OF d] l by blast
  then show ?thesis using assms(1) None d by (auto simp: actor_dispatch_def implements_def)
qed (use assms in \<open>auto simp: actor_dispatch_def intro!: exI [of _ l]\<close>)

text \<open>The requests an input brings.\<close>

primrec sent_command :: "ActorCommand \<Rightarrow> QueuedRequest list" where
  "sent_command (Send request reply) = [\<lparr>qr_request = request, qr_reply = reply\<rparr>]"
| "sent_command (Shutdown reply) = []"

fun sends :: "actor_input \<Rightarrow> QueuedRequest list" where
  "sends (CommandReceived command) = sent_command command"
| "sends _ = []"

lemma actor_select_link:
  assumes "actor_select settings input a = (a', effects, stop)" "implements a l"
  shows "\<exists>xs l'. link_run l xs l' \<and> implements a' l' \<and> effects_of xs = effects \<and> taken_of xs = sends input"
proof -
  obtain q where l: "l = (q, requests a)" "in_flight (pending a) q"
    using assms(2) by (cases l) (simp add: implements_def)
  have quiet: ?thesis if "link_run l (map Did effects) l'" "implements a' l'" "sends input = []" for l'
    using that by (intro exI [of _ "map Did effects"] exI [of _ l']) simp
  have same: ?thesis if "a' = a" "effects = [] \<or> (\<exists>e. effects = [Event e])" "sends input = []"
    using that quiet [of l] link_run_one [OF link_step.announce, of l] assms(2) by (elim disjE exE) simp_all
  show ?thesis
  proof (cases input)
    case (CommandReceived c)
    then show ?thesis
    proof (cases c)
      case (Send request reply)
      have "link_run l [Took \<lparr>qr_request = request, qr_reply = reply\<rparr>]
          (q, requests a @ [\<lparr>qr_request = request, qr_reply = reply\<rparr>])"
        unfolding l by (intro link_run_one link_step.take_request)
      then show ?thesis using assms(1) l CommandReceived Send
        by (auto simp: actor_select_def implements_def intro!: exI)
    qed (use assms(1) same CommandReceived in \<open>simp add: actor_select_def\<close>)
  next
    case (IncomingReceived inc now)
    then show ?thesis
    proof (cases inc)
      case (IncomingFrame f)
      obtain p' ss' es where h: "handle_frame f now (session_timeout settings) (pending a) (active a) = (p', ss', es)"
        by (metis prod_cases3)
      from handle_frame_link [OF h l(2)] obtain q' where "link_run l (map Did es) (q', requests a)" "in_flight p' q'"
        unfolding l by blast
      then show ?thesis using quiet assms(1) h IncomingReceived IncomingFrame
        by (auto simp: actor_select_def implements_def)
    qed (use assms(1) same IncomingReceived in \<open>auto simp: actor_select_def\<close>)
  next
    case (TimeoutTick n1 n2 keys)
    obtain p' ss' es where e: "expire_request n1 (pending a) (active a) = (p', ss', es)" by (metis prod_cases3)
    obtain ss'' fs where s: "expire_sessions keys n2 ss' = (ss'', fs)" by (cases "expire_sessions keys n2 ss'")
    from expire_request_link [OF e l(2)] obtain q' where
      q': "link_run l (map Did es) (q', requests a)" "in_flight p' q'" unfolding l by blast
    have "link_run l (map Did (es @ fs)) (q', requests a)"
      using link_run_append [OF q'(1) expire_sessions_link [OF s]] by simp
    then show ?thesis using quiet assms(1) e s q'(2) TimeoutTick by (auto simp: actor_select_def implements_def)
  qed (use assms(1) same in \<open>simp_all add: actor_select_def\<close>)
qed

lemma actor_iteration_link:
  assumes "actor_iteration settings (we, now, input) a = (a', effects, stop)" "implements a l"
  shows "\<exists>xs l'. link_run l xs l' \<and> implements a' l' \<and> effects_of xs = effects
    \<and> (taken_of xs = sends input \<or> stop \<noteq> None \<and> taken_of xs = [])"
proof -
  obtain b es st where d: "actor_dispatch settings we now a = (b, es, st)" by (metis prod_cases3)
  from actor_dispatch_link [OF d assms(2)] obtain m where m: "link_run l (map Did es) m" "implements b m" by blast
  show ?thesis
  proof (cases st)
    case (Some e)
    then show ?thesis using assms(1) d m by (intro exI [of _ "map Did es"] exI [of _ m]) (auto simp: actor_iteration_def)
  next
    case None
    then obtain fs where s: "actor_select settings input b = (a', fs, stop)" "effects = es @ fs"
      using assms(1) d by (auto simp: actor_iteration_def split: prod.splits)
    from actor_select_link [OF s(1) m(2)] obtain xs l' where
      "link_run m xs l'" "implements a' l'" "effects_of xs = fs" "taken_of xs = sends input" by blast
    then show ?thesis using link_run_append [OF m(1)] s(2)
      by (intro exI [of _ "map Did es @ xs"] exI [of _ l']) simp
  qed
qed

text \<open>The requests that the inputs of a run bring, and a run of the loop: it takes those of a prefix.\<close>

definition all_sends :: "iteration_input list \<Rightarrow> QueuedRequest list" where
  "all_sends is = concat (map (\<lambda>(_, _, input). sends input) is)"

lemma all_sends_simps [simp]: "all_sends [] = []" "all_sends ((we, now, input) # is) = sends input @ all_sends is"
  by (simp_all add: all_sends_def)

lemma actor_loop_link:
  assumes "actor_loop settings is a = (a', effects, stop)" "implements a l"
  shows "\<exists>xs l'. link_run l xs l' \<and> implements a' l' \<and> effects_of xs = effects
    \<and> prefix (taken_of xs) (all_sends is) \<and> (stop = None \<longrightarrow> taken_of xs = all_sends is)"
  using assms
proof (induction "is" arbitrary: a l effects)
  case Nil
  then show ?case by (intro exI [of _ "[]"] exI [of _ l]) simp
next
  case (Cons i "is")
  obtain we now input where i: "i = (we, now, input)" by (metis prod_cases3)
  obtain b es st where it: "actor_iteration settings i a = (b, es, st)" by (metis prod_cases3)
  from actor_iteration_link [OF it [unfolded i] Cons.prems(2)] obtain xs m where
    xs: "link_run l xs m" "implements b m" "effects_of xs = es"
      "taken_of xs = sends input \<or> st \<noteq> None \<and> taken_of xs = []" by blast
  show ?case
  proof (cases st)
    case (Some e)
    then show ?thesis using Cons.prems(1) it xs i by (intro exI [of _ xs] exI [of _ m]) auto
  next
    case None
    then obtain fs where rest: "actor_loop settings is b = (a', fs, stop)" "effects = es @ fs"
      using Cons.prems(1) it by (auto split: prod.splits)
    from Cons.IH [OF rest(1) xs(2)] obtain ys l' where
      "link_run m ys l'" "implements a' l'" "effects_of ys = fs" "prefix (taken_of ys) (all_sends is)"
      "stop = None \<longrightarrow> taken_of ys = all_sends is" by blast
    then show ?thesis using link_run_append [OF xs(1)] xs(3,4) rest(2) None i
      by (intro exI [of _ "xs @ ys"] exI [of _ l']) auto
  qed
qed

lemma implements_new: "implements actor_new (None, [])"
  by (simp add: implements_def actor_new_def)

text \<open>After the loop every request that is left is answered with an error, and so are those in the channel.\<close>

lemma refuse_all: "link_run (None, qs) (map (\<lambda>q. Did (Reply (qr_reply q) (Err e))) qs) (None, [])"
  by (induction qs) (auto intro: link_run.goes link_step.refuse)

lemma fail_outstanding_link:
  assumes "fail_outstanding a = (a', effects)" "implements a l"
  shows "link_run l (map Did effects) (None, [])"
proof -
  obtain q where l: "l = (q, requests a)" "in_flight (pending a) q"
    using assms(2) by (cases l) (simp add: implements_def)
  let ?rest = "map (\<lambda>q. Did (Reply (qr_reply q) (Err ConnectionClosed))) (requests a)"
  show ?thesis
  proof (cases "pending a")
    case None
    then show ?thesis using assms(1) l refuse_all by (auto simp: fail_outstanding_def comp_def)
  next
    case (Some r)
    then obtain q0 where q0: "q = Some q0" "pr_reply r = qr_reply q0" using l(2) in_flight_Some by metis
    have "link_run l (Did (Reply (pr_reply r) (Err ConnectionClosed)) # ?rest) (None, [])"
      unfolding l(1) q0 by (rule link_run.goes [OF link_step.give_up refuse_all])
    then show ?thesis using assms(1) Some by (auto simp: fail_outstanding_def comp_def)
  qed
qed

lemma drain_commands_link:
  "\<exists>xs. link_run (None, []) xs (None, []) \<and> effects_of xs = drain_commands commands
     \<and> taken_of xs = concat (map sent_command commands)"
proof (induction commands)
  case Nil
  show ?case by (intro exI [of _ "[]"]) (simp add: drain_commands_def)
next
  case (Cons c commands)
  then obtain xs where xs: "link_run (None, []) xs (None, [])" "effects_of xs = drain_commands commands"
    "taken_of xs = concat (map sent_command commands)" by blast
  show ?case
  proof (cases c)
    case (Send request reply)
    let ?q = "\<lparr>qr_request = request, qr_reply = reply\<rparr>"
    have "link_step (None, []) (Took ?q) (None, [?q])" using link_step.take_request [of None "[]" ?q] by simp
    then have "link_run (None, []) [Took ?q, Did (Reply (qr_reply ?q) (Err ConnectionClosed))] (None, [])"
      by (rule link_run.goes [OF _ link_run_one [OF link_step.refuse]])
    from link_run_append [OF this xs(1)] show ?thesis using xs(2,3) Send
      by (intro exI [of _ "Took ?q # Did (Reply (qr_reply ?q) (Err ConnectionClosed)) # xs"])
        (simp add: drain_commands_def)
  qed (use xs in \<open>auto simp: drain_commands_def\<close>)
qed

lemma farewell_link: "set es \<subseteq> {Event e | e. True} \<union> {ShutdownReply i r | i r. True} \<Longrightarrow> link_run l (map Did es) l"
  by (induction es) (auto intro: link_run.goes link_step.announce link_step.closed)

lemma actor_finish_link:
  assumes "actor_finish commands shutdown_result e a = (a', effects)" "implements a l"
  shows "\<exists>xs. link_run l xs (None, []) \<and> effects_of xs = effects \<and> taken_of xs = concat (map sent_command commands)
    \<and> implements a' (None, [])"
proof -
  obtain b es where f: "fail_outstanding a = (b, es)" by (cases "fail_outstanding a")
  obtain xs where xs: "link_run (None, []) xs (None, [])" "effects_of xs = drain_commands commands"
    "taken_of xs = concat (map sent_command commands)" using drain_commands_link by blast
  let ?farewell = "(case disconnect_reason e of None \<Rightarrow> [] | Some reason \<Rightarrow> [Event (Disconnected reason)])
    @ (case shutdown_reply e of None \<Rightarrow> [] | Some reply \<Rightarrow> [ShutdownReply reply shutdown_result])"
  have "link_run (None, []) (map Did ?farewell) (None, [])"
    by (rule farewell_link) (auto split: option.splits)
  from link_run_append [OF link_run_append [OF fail_outstanding_link [OF f assms(2)] xs(1)] this]
  show ?thesis using assms(1) f xs(2,3)
    by (intro exI [of _ "(map Did es @ xs) @ map Did ?farewell"])
      (auto simp: actor_finish_def fail_outstanding_def implements_def)
qed

section \<open>What the gateway reads\<close>

text \<open>The bytes of a run, write by write.\<close>

primrec written_by :: "effect \<Rightarrow> u8 list list" where
  "written_by (Write bs) = [bs]"
| "written_by (Reply i r) = []"
| "written_by (ShutdownReply i r) = []"
| "written_by (Event e) = []"

definition written :: "effect list \<Rightarrow> u8 list list" where
  "written es = concat (map written_by es)"

lemma written_simps [simp]:
  "written [] = []" "written (e # es) = written_by e @ written es" "written (es @ fs) = written es @ written fs"
  by (simp_all add: written_def)

text \<open>No request is written while another is in flight.\<close>

fun one_at_a_time :: "bool \<Rightarrow> effect list \<Rightarrow> bool" where
  "one_at_a_time busy [] = True"
| "one_at_a_time busy (Write bs # es) = (\<not> busy \<and> one_at_a_time True es)"
| "one_at_a_time busy (Reply i r # es) = one_at_a_time False es"
| "one_at_a_time busy (e # es) = one_at_a_time busy es"

lemma link_one_at_a_time: "link_run l xs m \<Longrightarrow> one_at_a_time (fst l \<noteq> None) (effects_of xs)"
proof (induction rule: link_run.induct)
  case (goes l x m xs n)
  then show ?case by (cases rule: link_step.cases) auto
qed simp

lemma link_writes:
  "link_run l xs m \<Longrightarrow> \<exists>sent. subseq (sent @ snd m) (snd l @ taken_of xs)
     \<and> map (\<lambda>q. wire_bytes (qr_request q)) sent = map Ok (written (effects_of xs))"
proof (induction rule: link_run.induct)
  case (stays l)
  show ?case by (intro exI [of _ "[]"]) simp
next
  case (goes l x m xs n)
  then obtain sent where sent: "subseq (sent @ snd n) (snd m @ taken_of xs)"
    "map (\<lambda>q. wire_bytes (qr_request q)) sent = map Ok (written (effects_of xs))" by blast
  from goes(1) show ?case
  proof (cases rule: link_step.cases)
    case (transmit q bs qs)
    then show ?thesis using sent by (intro exI [of _ "q # sent"]) simp
  qed (use sent in \<open>auto intro!: exI [of _ sent]\<close>)
qed

lemma finish_writes:
  assumes "actor_finish commands shutdown_result e a = (a', effects)"
  shows "written effects = []"
proof -
  have "written (map (\<lambda>q. Reply (qr_reply q) (Err ConnectionClosed)) qs) = []" for qs by (induction qs) simp_all
  moreover have "written (drain_commands commands) = []"
    by (induction commands) (auto simp: drain_commands_def split: ActorCommand.splits)
  ultimately show ?thesis using assms
    by (auto simp: actor_finish_def fail_outstanding_def split: option.splits)
qed

lemma run_actor_split:
  assumes "run_actor settings is commands shutdown_result = (a, effects, stop)"
  obtains (waiting) "actor_loop settings is actor_new = (a, effects, None)" "stop = None"
  | (ended) b es e fs where "actor_loop settings is actor_new = (b, es, Some e)" "stop = Some e"
      "actor_finish commands shutdown_result e b = (a, fs)" "effects = es @ fs"
  using assms by (auto simp: run_actor_def split: prod.splits option.splits)

lemma run_actor_writes:
  assumes "run_actor settings is commands shutdown_result = (a, effects, stop)"
  shows "\<exists>sent. subseq sent (all_sends is) \<and> map (\<lambda>q. wire_bytes (qr_request q)) sent = map Ok (written effects)"
proof -
  obtain b es st where loop: "actor_loop settings is actor_new = (b, es, st)" "written es = written effects"
    using assms by (cases rule: run_actor_split) (auto dest: finish_writes)
  from actor_loop_link [OF loop(1) implements_new] obtain xs l where
    xs: "link_run (None, []) xs l" "effects_of xs = es" "prefix (taken_of xs) (all_sends is)" by blast
  from link_writes [OF xs(1)] obtain sent where sent: "subseq (sent @ snd l) (taken_of xs)"
    "map (\<lambda>q. wire_bytes (qr_request q)) sent = map Ok (written es)" using xs(2) by auto
  have "subseq sent (sent @ snd l)" by (rule subseq_rev_drop_many) simp
  also note sent(1)
  also have "subseq (taken_of xs) (all_sends is)" using xs(3) by (rule prefix_imp_subseq)
  finally show ?thesis using sent(2) loop(2) by auto
qed

lemma wire_bytes_frames:
  assumes "map (\<lambda>q. wire_bytes (qr_request q)) sent = map Ok ws"
  shows "\<exists>frames encoded. map (\<lambda>q. Request_encode (qr_request q)) sent = map Ok frames
    \<and> map Frame_encode frames = map Ok encoded \<and> ws = map slip_encode encoded"
  using assms
proof (induction sent arbitrary: ws)
  case (Cons q sent)
  then obtain w vs where ws: "ws = w # vs" "wire_bytes (qr_request q) = Ok w"
    "map (\<lambda>q. wire_bytes (qr_request q)) sent = map Ok vs" by (cases ws) auto
  obtain frame bytes where f: "Request_encode (qr_request q) = Ok frame" "Frame_encode frame = Ok bytes" "w = slip_encode bytes"
    using ws(2) by (auto simp: wire_bytes_def map_ok_eq_Ok_iff and_then_eq_Ok_iff)
  obtain frames encoded where "map (\<lambda>q. Request_encode (qr_request q)) sent = map Ok frames"
    "map Frame_encode frames = map Ok encoded" "vs = map slip_encode encoded"
    using Cons.IH [OF ws(3)] by blast
  then show ?case using f ws(1) by (intro exI [of _ "frame # frames"] exI [of _ "bytes # encoded"]) simp
qed simp

text \<open>Every run of the actor is a run of the link.\<close>

lemma run_actor_link:
  assumes "run_actor settings is commands shutdown_result = (a, effects, stop)"
  shows "\<exists>xs q. link_run (None, []) xs (q, requests a) \<and> in_flight (pending a) q \<and> effects_of xs = effects
    \<and> (if stop = None then taken_of xs = all_sends is
       else q = None \<and> requests a = []
         \<and> (\<exists>taken. prefix taken (all_sends is) \<and> taken_of xs = taken @ concat (map sent_command commands)))"
  using assms
proof (cases rule: run_actor_split)
  case waiting
  from actor_loop_link [OF waiting(1) implements_new] show ?thesis
    using waiting(2) by (force simp: implements_def)
next
  case (ended b es e fs)
  from actor_loop_link [OF ended(1) implements_new] obtain xs l where
    xs: "link_run (None, []) xs l" "implements b l" "effects_of xs = es" "prefix (taken_of xs) (all_sends is)" by blast
  from actor_finish_link [OF ended(3) xs(2)] obtain ys where
    ys: "link_run l ys (None, [])" "effects_of ys = fs" "taken_of ys = concat (map sent_command commands)"
      "implements a (None, [])" by blast
  then show ?thesis using ended(2,4) xs(3,4) link_run_append [OF xs(1) ys(1)]
    by (auto simp: implements_def intro!: exI [of _ "xs @ ys"])
qed

section \<open>Properties\<close>

text \<open>
  C3. The actor implements a stop-and-wait link: every run of it, with whatever the clients, the gateway, the
  clock and the socket do, is a run of the link. So a request is written only while no other is in flight,
  only the request in flight is answered with a response, and this is decoded from a frame of its own
  confirmation and names its session. The requests are those the clients sent, in their order; the state
  left behind has the same request in flight and the same requests waiting, none once the loop has ended.
\<close>

theorem actor_is_stop_and_wait:
  "case run_actor settings is commands shutdown_result of (a, effects, stop) \<Rightarrow>
     \<exists>xs q. link_run (None, []) xs (q, requests a) \<and> in_flight (pending a) q \<and> effects_of xs = effects
       \<and> (if stop = None then taken_of xs = all_sends is
          else q = None \<and> requests a = []
            \<and> (\<exists>taken. prefix taken (all_sends is)
                 \<and> taken_of xs = taken @ concat (map sent_command commands)))"
  by (cases "run_actor settings is commands shutdown_result") (simp add: run_actor_link split del: if_split)

text \<open>
  C19. What a run writes to the socket, read at the other end in pieces of any size, is exactly the frames of
  some of the requests the clients sent, whole, unchanged and in their order; and no request is written
  before the one written before it has been answered.
\<close>

theorem gateway_receives_requests:
  assumes "run_actor settings is commands shutdown_result = (a, effects, stop)"
    "concat chunks = concat (written effects)" "[] \<notin> set chunks"
    "257 \<le> maximum_slip_frame_length settings'"
  shows "one_at_a_time False effects
    \<and> (\<exists>sent frames. subseq sent (all_sends is)
         \<and> map (\<lambda>q. Request_encode (qr_request q)) sent = map Ok frames
         \<and> read_frames settings' (map ReadBytes chunks @ [ReadBytes []]) =
             map IncomingFrame frames @ [IncomingClosed ConnectionClosed])"
proof
  obtain xs q where "link_run (None, []) xs (q, requests a)" "effects_of xs = effects"
    using run_actor_link [OF assms(1)] by blast
  then show "one_at_a_time False effects" using link_one_at_a_time by fastforce
  obtain sent where sent: "subseq sent (all_sends is)"
    "map (\<lambda>q. wire_bytes (qr_request q)) sent = map Ok (written effects)"
    using run_actor_writes [OF assms(1)] by blast
  obtain frames encoded where f: "map (\<lambda>q. Request_encode (qr_request q)) sent = map Ok frames"
    "map Frame_encode frames = map Ok encoded" "written effects = map slip_encode encoded"
    using wire_bytes_frames [OF sent(2)] by blast
  show "\<exists>sent frames. subseq sent (all_sends is)
      \<and> map (\<lambda>q. Request_encode (qr_request q)) sent = map Ok frames
      \<and> read_frames settings' (map ReadBytes chunks @ [ReadBytes []]) =
          map IncomingFrame frames @ [IncomingClosed ConnectionClosed]"
    using read_frames_stream [OF f(2) _ assms(3,4)] assms(2) f(1,3) sent(1) by metis
qed

text \<open>A request for the state of the gateway that is still in flight when the clients are gone.\<close>

theorem gateway_receives_requests_witness:
  "\<exists>sent frames. subseq sent [\<lparr>qr_request = GetState, qr_reply = 1\<rparr>]
     \<and> map (\<lambda>q. Request_encode (qr_request q)) sent = map Ok frames
     \<and> read_frames ConnectionSettings_default (map ReadBytes [[0xC0, 0x00, 0x03], [0x00, 0x0C, 0x0F, 0xC0]] @ [ReadBytes []]) =
         map IncomingFrame frames @ [IncomingClosed ConnectionClosed]"
proof -
  let ?is = "[(None, 0, CommandReceived (Send GetState 1)), (None, 1, CommandsClosed)]"
  obtain a effects stop where run: "run_actor ConnectionSettings_default ?is [] (Ok ()) = (a, effects, stop)"
    by (metis prod_cases3)
  have written: "written effects = [[0xC0, 0x00, 0x03, 0x00, 0x0C, 0x0F, 0xC0]]"
    using run
    by (auto simp: run_actor_def actor_iteration_def actor_dispatch_def actor_select_def actor_new_def
        actor_finish_def fail_outstanding_def drain_commands_def expected_confirmation_eq confirmed_commands_def
        Request_encode_def Frame_encode_def Frame_new_def frame_consts u8_try_from_def u16_to_be_bytes_def
        checksum_Cons Let_def slip_encode_def escape_byte_def slip_consts)
  have "concat [[0xC0, 0x00, 0x03], [0x00, 0x0C, 0x0F, 0xC0]] = concat (written effects)"
    by (simp add: written)
  from gateway_receives_requests [OF run this, of ConnectionSettings_default] show ?thesis
    by (auto simp: ConnectionSettings_default_def)
qed

end
