(* ===== verification/Actor_Progress.thy ===== *)
theory Actor_Progress
  imports Actor_Protocol
begin

text \<open>
  Every request is answered in bounded time. The clock of a run is that of its dispatches; a period is a
  stretch of iterations that lasts at least the request timeout and ends with a tick of the timer. In each
  period the oldest outstanding request is answered, so one with \<open>k\<close> requests before it is answered within
  \<open>k + 1\<close> periods, whatever the gateway and the socket do.
\<close>

section \<open>Clocks and deadlines\<close>

fun clocked :: "nat \<Rightarrow> iteration_input list \<Rightarrow> bool" where
  "clocked t [] = True"
| "clocked t ((write_error, now, input) # is) = (t \<le> now \<and> clocked now is)"

fun clock_after :: "nat \<Rightarrow> iteration_input list \<Rightarrow> nat" where
  "clock_after t [] = t"
| "clock_after t ((write_error, now, input) # is) = clock_after now is"

lemma clocked_append [simp]: "clocked t (is @ js) \<longleftrightarrow> clocked t is \<and> clocked (clock_after t is) js"
  by (induction t "is" rule: clocked.induct) auto

lemma clock_after_mono: "clocked t is \<Longrightarrow> t \<le> clock_after t is"
  by (induction t "is" rule: clocked.induct) auto

text \<open>The deadline of the pending request is within one timeout of a time not before its dispatch.\<close>

definition due_by :: "nat \<Rightarrow> actor \<Rightarrow> bool" where
  "due_by t a \<longleftrightarrow> (case pending a of None \<Rightarrow> True | Some r \<Rightarrow> pr_deadline r \<le> t)"

lemma due_by_mono: "due_by t a \<Longrightarrow> t \<le> u \<Longrightarrow> due_by u a"
  by (auto simp: due_by_def split: option.splits)

lemma dispatch_next_due:
  assumes "dispatch_next ss we now t rs None = (rs', p', effects, r)"
  shows "case p' of None \<Rightarrow> True | Some q \<Rightarrow> pr_deadline q = now + t"
  using assms
proof (induction rs arbitrary: rs' p' effects r)
  case (Cons q rs)
  from Cons.prems show ?case
    by (cases rule: dispatch_next_cases) (auto dest: Cons.IH)
qed simp

lemma actor_dispatch_due:
  assumes "actor_dispatch settings we now a = (a', effects, stop)" "due_by (now + request_timeout settings) a"
  shows "due_by (now + request_timeout settings) a'"
  using assms by (auto simp: actor_dispatch_def due_by_def dest!: dispatch_next_due split: option.splits prod.splits)

text \<open>A select leaves the pending request as it is, or answers it.\<close>

lemma actor_select_pending:
  assumes "actor_select settings input a = (a', effects, stop)"
  shows "pending a' = pending a \<or> pending a' = None \<and> replies effects \<noteq> []"
proof (cases input)
  case (CommandReceived c)
  then show ?thesis using assms by (cases c) (auto simp: actor_select_def)
next
  case (IncomingReceived inc now)
  then show ?thesis
  proof (cases inc)
    case (IncomingFrame f)
    obtain p' ss' es where h: "handle_frame f now (session_timeout settings) (pending a) (active a) = (p', ss', es)"
      by (metis prod_cases3)
    then have "p' = pending a \<or> p' = None \<and> replies es \<noteq> []" by (cases rule: handle_frame_cases) auto
    then show ?thesis using assms h IncomingReceived IncomingFrame by (auto simp: actor_select_def)
  qed (use assms IncomingReceived in \<open>auto simp: actor_select_def\<close>)
next
  case (TimeoutTick n1 n2 keys)
  then show ?thesis using assms
    by (auto simp: actor_select_def expire_request_def Let_def split: prod.splits option.splits if_splits)
qed (use assms in \<open>auto simp: actor_select_def\<close>)

text \<open>What an iteration that does not leave the loop consists of.\<close>

lemma actor_iteration_goes_on:
  assumes "actor_iteration settings (we, now, input) a = (a', effects, None)"
  obtains b es fs where "actor_dispatch settings we now a = (b, es, None)"
    "actor_select settings input b = (a', fs, None)" "effects = es @ fs"
  using assms by (auto simp: actor_iteration_def split: prod.splits option.splits)

lemma actor_loop_Cons_goes_on:
  assumes "actor_loop settings (i # is) a = (a', effects, None)"
  obtains b es fs where "actor_iteration settings i a = (b, es, None)" "actor_loop settings is b = (a', fs, None)"
    "effects = es @ fs"
  using assms by (auto split: prod.splits option.splits)

lemma actor_loop_goes_on:
  assumes "actor_loop settings (is @ js) a = (a', effects, None)"
  shows "\<exists>b es fs. actor_loop settings is a = (b, es, None) \<and> actor_loop settings js b = (a', fs, None)
    \<and> effects = es @ fs"
  using assms
proof (induction "is" arbitrary: a effects)
  case (Cons i "is")
  obtain b es fs where b: "actor_iteration settings i a = (b, es, None)"
    "actor_loop settings (is @ js) b = (a', fs, None)" "effects = es @ fs"
    using actor_loop_Cons_goes_on [OF Cons.prems [unfolded append_Cons]] .
  from Cons.IH [OF b(2)] b(1,3) show ?case by auto
qed simp

lemma actor_loop_append:
  assumes "actor_loop settings is a = (b, es, None)" "actor_loop settings js b = (c, fs, stop)"
  shows "actor_loop settings (is @ js) a = (c, es @ fs, stop)"
  using assms
proof (induction "is" arbitrary: a es)
  case (Cons i "is")
  obtain d gs hs where d: "actor_iteration settings i a = (d, gs, None)" "actor_loop settings is d = (b, hs, None)"
    "es = gs @ hs" using actor_loop_Cons_goes_on [OF Cons.prems(1)] .
  from Cons.IH [OF d(2) Cons.prems(2)] d(1,3) show ?case by simp
qed simp

lemma actor_iteration_due:
  assumes "actor_iteration settings (we, now, input) a = (a', effects, None)"
    "due_by (now + request_timeout settings) a"
  shows "due_by (now + request_timeout settings) a'"
proof -
  obtain b es fs where b: "actor_dispatch settings we now a = (b, es, None)"
    "actor_select settings input b = (a', fs, None)" "effects = es @ fs" using actor_iteration_goes_on [OF assms(1)] .
  from actor_dispatch_due [OF b(1) assms(2)] actor_select_pending [OF b(2)] show ?thesis
    by (auto simp: due_by_def)
qed

lemma actor_loop_due:
  assumes "actor_loop settings is a = (a', effects, None)" "clocked t is" "due_by (t + request_timeout settings) a"
  shows "due_by (clock_after t is + request_timeout settings) a'"
  using assms
proof (induction "is" arbitrary: a t effects)
  case (Cons i "is")
  obtain we now input where i: "i = (we, now, input)" by (metis prod_cases3)
  obtain b es fs where it: "actor_iteration settings (we, now, input) a = (b, es, None)"
    and b: "actor_loop settings is b = (a', fs, None)"
    using actor_loop_Cons_goes_on [OF Cons.prems(1) [unfolded i]] .
  have "due_by (now + request_timeout settings) a"
    using due_by_mono [OF Cons.prems(3)] Cons.prems(2) i by simp
  from Cons.IH [OF b _ actor_iteration_due [OF it this]] show ?case using Cons.prems(2) i by simp
qed simp

section \<open>Progress in a period\<close>

definition period :: "nat \<Rightarrow> iteration_input list \<Rightarrow> bool" where
  "period timeout is \<longleftrightarrow>
     (case is of
        [] \<Rightarrow> False
      | (_, start, _) # _ \<Rightarrow>
          (case last is of
             (_, _, TimeoutTick now _ _) \<Rightarrow> start + timeout \<le> now
           | _ \<Rightarrow> False))"

lemma actor_dispatch_sends:
  assumes "actor_dispatch settings we now a = (a', effects, None)" "replies effects = []" "outstanding a \<noteq> []"
  shows "pending a' \<noteq> None"
proof (cases "pending a")
  case None
  obtain rs p es r where d: "dispatch_next (active a) we now (request_timeout settings) (requests a) None = (rs, p, es, r)"
    by (metis prod_cases4)
  have "r \<noteq> Panic" using dispatch_next_not_Panic [OF d] .
  then have r: "r = Ok ()" "effects = es" "pending a' = p" "requests a' = rs"
    using assms(1) None d by (auto simp: actor_dispatch_def split: outcome.splits)
  obtain q qs where q: "requests a = q # qs" using assms(3) None by (cases "requests a") (auto simp: outstanding_def)
  show ?thesis using d assms(2) r unfolding q
    by (cases rule: dispatch_next_cases) auto
qed (use assms(1) in \<open>simp add: actor_dispatch_def\<close>)

lemma actor_iteration_keeps:
  assumes "actor_iteration settings (we, now, input) a = (a', effects, None)" "replies effects = []"
    "pending a = Some r"
  shows "pending a' = Some r"
proof -
  obtain b es fs where b: "actor_dispatch settings we now a = (b, es, None)"
    "actor_select settings input b = (a', fs, None)" "effects = es @ fs"
    using actor_iteration_goes_on [OF assms(1)] .
  have "b = a" using b(1) assms(3) by (simp add: actor_dispatch_def)
  then show ?thesis using actor_select_pending [OF b(2)] b(3) assms(2,3) by auto
qed

lemma actor_loop_keeps:
  assumes "actor_loop settings is a = (a', effects, None)" "replies effects = []" "pending a = Some r"
  shows "pending a' = Some r"
  using assms
proof (induction "is" arbitrary: a effects)
  case (Cons i "is")
  obtain we now input where i: "i = (we, now, input)" by (metis prod_cases3)
  obtain b es fs where b: "actor_iteration settings (we, now, input) a = (b, es, None)"
    "actor_loop settings is b = (a', fs, None)" "effects = es @ fs"
    using actor_loop_Cons_goes_on [OF Cons.prems(1) [unfolded i]] .
  from actor_iteration_keeps [OF b(1) _ Cons.prems(3)] show ?case
    using Cons.IH [OF b(2)] b(3) Cons.prems(2) by simp
qed simp

lemma reply_in_replies: "Reply i r \<in> set effects \<Longrightarrow> i \<in> set (replies effects)"
  by (induction effects) auto

text \<open>Whatever is pending when a tick comes after its deadline is answered by this tick.\<close>

lemma late_tick_answers:
  assumes "actor_select settings (TimeoutTick n1 n2 keys) a = (a', effects, stop)" "pending a = Some r" "due_by n1 a"
  shows "replies effects \<noteq> []"
  using actor_select_tick_expires(2) [OF assms(2) _ assms(1)] assms(2,3) reply_in_replies
  by (fastforce simp: due_by_def)

lemma period_cases:
  assumes "period timeout is"
  obtains (one) we start n1 n2 keys where "is = [(we, start, TimeoutTick n1 n2 keys)]" "start + timeout \<le> n1"
  | (more) we start input js we' now n1 n2 keys where
      "is = (we, start, input) # js @ [(we', now, TimeoutTick n1 n2 keys)]" "start + timeout \<le> n1"
proof (cases "is" rule: rev_cases)
  case (snoc js i)
  then show thesis using assms that
    by (cases js) (auto simp: period_def split: prod.splits actor_input.splits)
qed (use assms in \<open>simp add: period_def\<close>)

lemma period_answers:
  assumes "actor_loop settings is a = (a', effects, None)" "clocked t is"
    "due_by (t + request_timeout settings) a" "period (request_timeout settings) is" "outstanding a \<noteq> []"
  shows "replies effects \<noteq> []"
proof
  assume silent: "replies effects = []"
  have started: "pending b \<noteq> None \<and> due_by (start + request_timeout settings) b"
    if "actor_dispatch settings we start a = (b, es, None)" "replies es = []" "t \<le> start" for we start b es
    using actor_dispatch_sends [OF that(1,2) assms(5)]
      actor_dispatch_due [OF that(1) due_by_mono [OF assms(3)]] that(3) by simp
  from assms(4) show False
  proof (cases rule: period_cases)
    case (one we start n1 n2 keys)
    obtain b0 gs hs where "actor_iteration settings (we, start, TimeoutTick n1 n2 keys) a = (b0, gs, None)"
      "actor_loop settings [] b0 = (a', hs, None)" "effects = gs @ hs"
      using actor_loop_Cons_goes_on [OF assms(1) [unfolded one(1)]] .
    then have it: "actor_iteration settings (we, start, TimeoutTick n1 n2 keys) a = (a', effects, None)" by simp
    obtain b es fs where b: "actor_dispatch settings we start a = (b, es, None)"
      "actor_select settings (TimeoutTick n1 n2 keys) b = (a', fs, None)" "effects = es @ fs"
      using actor_iteration_goes_on [OF it] .
    then have "pending b \<noteq> None" "due_by n1 b"
      using started [OF b(1)] due_by_mono one silent assms(2) by auto
    then show False using late_tick_answers [OF b(2)] b(3) silent by auto
  next
    case (more we start input js we' now n1 n2 keys)
    obtain b0 es rest where b0: "actor_iteration settings (we, start, input) a = (b0, es, None)"
      "actor_loop settings (js @ [(we', now, TimeoutTick n1 n2 keys)]) b0 = (a', rest, None)" "effects = es @ rest"
      using actor_loop_Cons_goes_on [OF assms(1) [unfolded more(1)]] .
    obtain b ds fs where b: "actor_dispatch settings we start a = (b, ds, None)"
      "actor_select settings input b = (b0, fs, None)" "es = ds @ fs" using actor_iteration_goes_on [OF b0(1)] .
    obtain c gs hs where c: "actor_loop settings js b0 = (c, gs, None)"
      "actor_loop settings [(we', now, TimeoutTick n1 n2 keys)] c = (a', hs, None)" "rest = gs @ hs"
      using actor_loop_goes_on [OF b0(2)] by blast
    have quiet: "replies ds = []" "replies fs = []" "replies gs = []" "replies hs = []"
      using silent b0(3) b(3) c(3) by simp_all
    obtain r where r: "pending b = Some r" "pr_deadline r \<le> n1"
      using started [OF b(1) quiet(1)] assms(2) more by (auto simp: due_by_def)
    have "pending c = Some r"
      using actor_loop_keeps [OF c(1) quiet(3)] actor_select_pending [OF b(2)] quiet(2) r(1) by auto
    moreover from this obtain ks where "actor_select settings (TimeoutTick n1 n2 keys) c = (a', ks, None)" "hs = ks"
      using c(2) by (auto simp: actor_iteration_def actor_dispatch_def split: prod.splits option.splits)
    ultimately show False using late_tick_answers r(2) quiet(4) by (fastforce simp: due_by_def)
  qed
qed

lemma periods_answer:
  assumes "actor_loop settings (concat periods) a = (a', effects, None)" "clocked t (concat periods)"
    "due_by (t + request_timeout settings) a" "list_all (period (request_timeout settings)) periods"
  shows "min (length (outstanding a)) (length periods) \<le> length (replies effects)"
  using assms
proof (induction periods arbitrary: a t effects)
  case (Cons p periods)
  obtain b es fs where b: "actor_loop settings p a = (b, es, None)"
    "actor_loop settings (concat periods) b = (a', fs, None)" "effects = es @ fs"
    using actor_loop_goes_on [OF Cons.prems(1) [unfolded concat.simps]] by blast
  have "due_by (clock_after t p + request_timeout settings) b"
    using actor_loop_due [OF b(1) _ Cons.prems(3)] Cons.prems(2) by simp
  then have rest: "min (length (outstanding b)) (length periods) \<le> length (replies fs)"
    using Cons.IH [OF b(2), of "clock_after t p"] Cons.prems(2,4) by simp
  have "length (outstanding a) \<le> length (replies es) + length (outstanding b)"
    using arg_cong [OF actor_loop_order [OF b(1)], of length] by simp
  moreover have "outstanding a = [] \<or> replies es \<noteq> []"
    using period_answers [OF b(1) _ Cons.prems(3)] Cons.prems(2,4) by auto
  then have "outstanding a = [] \<or> 1 \<le> length (replies es)" by (cases "replies es") auto
  ultimately show ?case using rest b(3) by auto
qed simp

section \<open>Properties\<close>

text \<open>
  C4. Every request is answered in bounded time. Consider a state of the loop and a request with \<open>k\<close>
  outstanding requests before it. However the run goes on, whatever arrives from the gateway, whether or
  not the socket works and whatever the clients ask for next: once more than \<open>k\<close> periods have passed, each
  of them at least as long as the request timeout and ended by a tick, the request has been answered.
\<close>

theorem every_request_is_answered:
  assumes "actor_loop settings is actor_new = (a, before, None)" "k < length (outstanding a)"
    "clocked 0 (is @ concat periods)" "list_all (period (request_timeout settings)) periods" "k < length periods"
    "run_actor settings (is @ concat periods) commands shutdown_result = (b, effects, stop)"
  shows "\<exists>after. effects = before @ after \<and> outstanding a ! k \<in> set (replies after)"
proof -
  have due: "due_by (clock_after 0 is + request_timeout settings) a"
    using actor_loop_due [OF assms(1), of 0] assms(3) by (simp add: due_by_def actor_new_def)
  obtain c es st where loop: "actor_loop settings (concat periods) a = (c, es, st)" by (metis prod_cases3)
  have whole: "actor_loop settings (is @ concat periods) actor_new = (c, before @ es, st)"
    by (rule actor_loop_append [OF assms(1) loop])
  note order = actor_loop_order [OF loop]
  show ?thesis
  proof (cases st)
    case None
    have "k < length (replies es)"
      using periods_answer [OF loop [unfolded None] _ due assms(4)] assms(2,3,5) by simp
    then have "outstanding a ! k = replies es ! k"
      using arg_cong [OF order, of "\<lambda>xs. xs ! k"] assms(2) by (simp add: nth_append)
    then show ?thesis using assms(6) whole None \<open>k < length (replies es)\<close> by (auto simp: run_actor_def)
  next
    case (Some e)
    obtain d fs where f: "actor_finish commands shutdown_result e c = (d, fs)"
      by (cases "actor_finish commands shutdown_result e c")
    have "set (outstanding a) \<subseteq> set (replies (es @ fs))"
      using arg_cong [OF order, of set] actor_finish_order [OF f] by auto
    then have "outstanding a ! k \<in> set (replies (es @ fs))" using assms(2) nth_mem by blast
    then show ?thesis using assms(6) whole Some f by (intro exI [of _ "es @ fs"]) (auto simp: run_actor_def)
  qed
qed

text \<open>A request to a gateway that never answers.\<close>

theorem every_request_is_answered_witness:
  "7 \<in> set (replies (fst (snd (run_actor ConnectionSettings_default
     [(None, 3, CommandReceived (Send GetState 7)), (None, 4, TimeoutTick 5004 5004 [])] [] (Ok ())))))"
proof -
  let ?is = "[(None, 3, CommandReceived (Send GetState 7))]"
  let ?periods = "[[(None, 4, TimeoutTick 5004 5004 [])]]"
  obtain a where a: "actor_loop ConnectionSettings_default ?is actor_new = (a, [], None)" "outstanding a = [7]"
    by (simp add: actor_iteration_def actor_dispatch_def actor_select_def actor_new_def outstanding_def)
  obtain b effects stop where run: "run_actor ConnectionSettings_default (?is @ concat ?periods) [] (Ok ()) = (b, effects, stop)"
    by (metis prod_cases3)
  have "list_all (period (request_timeout ConnectionSettings_default)) ?periods" "clocked 0 (?is @ concat ?periods)"
    by (simp_all add: period_def ConnectionSettings_default_def)
  from every_request_is_answered [OF a(1) _ this(2,1) _ run, of 0] a(2) run show ?thesis by auto
qed

end
