(* ===== verification/Actor_Exchange.thy ===== *)
theory Actor_Exchange
  imports Actor_Protocol
begin

text \<open>
  A whole exchange over the wire: the frame codec, SLIP, the reader task, the actor and the decoder of
  responses together. A client sends a request to an idle connection; the gateway sends notifications and
  then the confirmation; the bytes arrive in pieces of any size.
\<close>

section \<open>The inputs of an exchange\<close>

text \<open>What the reader task delivers, taken by the loop at given instants.\<close>

definition deliveries :: "Incoming list \<Rightarrow> nat list \<Rightarrow> iteration_input list" where
  "deliveries incoming instants =
     map (\<lambda>(delivered, now). (None, now, IncomingReceived delivered now)) (zip incoming instants)"

lemma deliveries_simps [simp]:
  "deliveries [] instants = []" "deliveries incoming [] = []"
  "deliveries (i # incoming) (now # instants) = (None, now, IncomingReceived i now) # deliveries incoming instants"
  by (simp_all add: deliveries_def)

lemma read_frames_open:
  assumes "map Frame_encode frames = map Ok encoded" "concat chunks = concat (map slip_encode encoded)"
    "[] \<notin> set chunks" "257 \<le> maximum_slip_frame_length settings"
  shows "read_frames settings (map ReadBytes chunks) = map IncomingFrame frames"
proof -
  let ?m = "max (maximum_slip_frame_length settings) 1"
  have "bs \<noteq> [] \<and> length bs \<le> ?m" if "bs \<in> set encoded" for bs
    using encoded_stream_bounds [OF assms(1) that] assms(4) by simp
  then show ?thesis
    using push_new_stream [of encoded ?m] decoded_incoming_stream [OF assms(1)] read_loop_chunks [OF assms(3), of _ "[]"]
    by (simp add: read_frames_def assms(2))
qed

text \<open>A frame that is passed on as a notification while another confirmation is awaited.\<close>

definition notifies :: "CommandId \<Rightarrow> Frame \<Rightarrow> Response \<Rightarrow> bool" where
  "notifies confirmation f response \<longleftrightarrow> frame_command f \<noteq> confirmation \<and> kind (frame_command f) = NotificationKind
     \<and> Response_decode f = Ok response"

lemma notification_passed:
  assumes "pending a = Some p" "notifies (pr_expected_confirmation p) f response"
  obtains ss where "actor_iteration settings (we, t, IncomingReceived (IncomingFrame f) now) a =
    (a\<lparr>active := ss\<rparr>, [Event (Notification response)], None)"
  using assms
  by (cases a) (auto simp: actor_iteration_def actor_dispatch_def actor_select_def handle_frame_def notifies_def)

lemma notifications_passed:
  assumes "pending a = Some p" "list_all2 (notifies (pr_expected_confirmation p)) frames responses"
    "length instants = length frames"
  shows "\<exists>ss. actor_loop settings (deliveries (map IncomingFrame frames) instants @ is) a =
    (case actor_loop settings is (a\<lparr>active := ss\<rparr>) of
       (b, effects, stop) \<Rightarrow> (b, map (\<lambda>r. Event (Notification r)) responses @ effects, stop))"
  using assms(2,1,3)
proof (induction arbitrary: a instants rule: list_all2_induct)
  case Nil
  show ?case by (intro exI [of _ "active a"]) (simp split: prod.splits)
next
  case (Cons f frames r responses)
  obtain now later where instants: "instants = now # later" "length later = length frames"
    using Cons.prems(2) by (cases instants) auto
  obtain ss where it: "actor_iteration settings (None, now, IncomingReceived (IncomingFrame f) now) a =
      (a\<lparr>active := ss\<rparr>, [Event (Notification r)], None)"
    using notification_passed [OF Cons.prems(1) Cons.hyps(1)] .
  obtain ss' where "actor_loop settings (deliveries (map IncomingFrame frames) later @ is) (a\<lparr>active := ss\<rparr>) =
      (case actor_loop settings is (a\<lparr>active := ss'\<rparr>) of
         (b, effects, stop) \<Rightarrow> (b, map (\<lambda>r. Event (Notification r)) responses @ effects, stop))"
    using Cons.IH [of "a\<lparr>active := ss\<rparr>" later] Cons.prems(1) instants(2) by auto
  then show ?case using it instants(1) by (intro exI [of _ ss']) (simp split: prod.splits)
qed

lemma request_dispatched:
  assumes "wire_bytes request = Ok bs" "expected_confirmation (Request_command_id request) = Some c"
  shows "actor_dispatch settings None now \<lparr>requests = [\<lparr>qr_request = request, qr_reply = i\<rparr>], pending = None, active = (\<lambda>_. None)\<rparr> =
    (\<lparr>requests = [], pending = Some \<lparr>pr_command = Request_command_id request, pr_expected_confirmation = c,
        pr_session_id = Request_session_id request, pr_deadline = now + request_timeout settings, pr_reply = i\<rparr>,
      active = (\<lambda>_. None)\<rparr>, [Write bs], None)"
  using assms
  by (cases "Request_session_id request")
    (auto simp: actor_dispatch_def wire_bytes_def map_ok_eq_Ok_iff and_then_eq_Ok_iff Let_def)

text \<open>An actor with a request in its queue behaves as one that has it in flight, once it is written.\<close>

lemma actor_loop_after_dispatch:
  assumes "actor_dispatch settings None now a = (b, effects, None)" "pending b \<noteq> None"
  shows "actor_loop settings ((None, now, input) # is) a =
    (case actor_loop settings ((None, now, input) # is) b of (c, effects', stop) \<Rightarrow> (c, effects @ effects', stop))"
proof -
  have "actor_dispatch settings None now b = (b, [], None)" using assms(2) by (auto simp: actor_dispatch_def)
  then show ?thesis using assms(1) by (simp add: actor_iteration_def split: prod.splits option.splits)
qed

lemma confirmation_answers:
  assumes "pending a = Some p" "frame_command f = pr_expected_confirmation p" "Response_decode f = Ok response"
    "confirmation_session_matches (pr_session_id p) response"
  shows "\<exists>b. actor_loop settings [(None, now, IncomingReceived (IncomingFrame f) now)] a =
    (b, [Reply (pr_reply p) (Ok response)], None) \<and> pending b = None \<and> requests b = requests a"
  using assms
  by (simp add: actor_iteration_def actor_dispatch_def actor_select_def handle_frame_confirms)

section \<open>Properties\<close>

text \<open>
  C18. A request to an idle connection whose gateway confirms it is answered with the confirmation, over
  bytes on both sides: the actor writes exactly the encoded request, announces the notifications that come
  first in their order, and answers the client with the response that the confirmation decodes to, however
  the bytes of the gateway are cut into reads; afterwards the connection is idle again.
\<close>

theorem request_answered_over_wire:
  assumes "wire_bytes request = Ok bs" "expected_confirmation (Request_command_id request) = Some (frame_command f)"
    "Response_decode f = Ok response" "confirmation_session_matches (Request_session_id request) response"
    "list_all2 (notifies (frame_command f)) others announced"
    "map Frame_encode (others @ [f]) = map Ok encoded"
    "concat chunks = concat (map slip_encode encoded)" "[] \<notin> set chunks"
    "257 \<le> maximum_slip_frame_length settings" "length instants = Suc (length others)"
  shows "\<exists>a. actor_loop settings ((None, start, CommandReceived (Send request i))
        # deliveries (read_frames settings (map ReadBytes chunks)) instants) actor_new =
      (a, Write bs # map (\<lambda>r. Event (Notification r)) announced @ [Reply i (Ok response)], None)
    \<and> pending a = None \<and> requests a = []"
proof -
  obtain now later where instants: "instants = now # later" "length later = length others"
    using assms(10) by (cases instants) auto
  let ?p = "\<lparr>pr_command = Request_command_id request, pr_expected_confirmation = frame_command f,
      pr_session_id = Request_session_id request, pr_deadline = now + request_timeout settings, pr_reply = i\<rparr>"
  let ?queued = "\<lparr>requests = [\<lparr>qr_request = request, qr_reply = i\<rparr>], pending = None, active = (\<lambda>_. None)\<rparr>"
  let ?sent = "\<lparr>requests = [], pending = Some ?p, active = (\<lambda>_. None)\<rparr>"
  let ?rest = "deliveries (map IncomingFrame (others @ [f])) instants"
  obtain times last_time where times: "instants = times @ [last_time]" "length times = length others"
    using assms(10) by (cases instants rule: rev_cases) auto
  have split: "?rest = deliveries (map IncomingFrame others) times
      @ [(None, last_time, IncomingReceived (IncomingFrame f) last_time)]"
    by (simp add: deliveries_def times)
  have first: "\<exists>input js. ?rest = (None, now, input) # js"
    unfolding instants(1) by (cases others) simp_all
  have taken: "actor_loop settings ((None, start, CommandReceived (Send request i)) # ?rest) actor_new =
      actor_loop settings ?rest ?queued"
    by (simp add: actor_iteration_def actor_dispatch_def actor_select_def actor_new_def split: prod.splits)
  have written: "actor_loop settings ?rest ?queued =
      (case actor_loop settings ?rest ?sent of (c, effects, stop) \<Rightarrow> (c, [Write bs] @ effects, stop))"
    using first actor_loop_after_dispatch [OF request_dispatched [OF assms(1,2), of settings now i]] by auto
  have sent: "pending ?sent = Some ?p" by simp
  have others: "list_all2 (notifies (pr_expected_confirmation ?p)) others announced" using assms(5) by simp
  obtain ss where passed: "actor_loop settings ?rest ?sent =
      (case actor_loop settings [(None, last_time, IncomingReceived (IncomingFrame f) last_time)] (?sent\<lparr>active := ss\<rparr>) of
         (b, effects, stop) \<Rightarrow> (b, map (\<lambda>r. Event (Notification r)) announced @ effects, stop))"
    using notifications_passed [OF sent others times(2), of settings
        "[(None, last_time, IncomingReceived (IncomingFrame f) last_time)]"] unfolding split by blast
  obtain b where "actor_loop settings [(None, last_time, IncomingReceived (IncomingFrame f) last_time)] (?sent\<lparr>active := ss\<rparr>) =
      (b, [Reply i (Ok response)], None)" "pending b = None" "requests b = []"
    using confirmation_answers [of "?sent\<lparr>active := ss\<rparr>" ?p f response settings last_time] assms(3,4) by auto
  then show ?thesis
    unfolding read_frames_open [OF assms(6-9)] taken written passed by simp
qed

text \<open>A reboot that the gateway confirms, in two reads.\<close>

theorem request_answered_over_wire_witness:
  "\<exists>a. actor_loop ConnectionSettings_default ((None, 0, CommandReceived (Send Reboot 4))
        # deliveries (read_frames ConnectionSettings_default
            (map ReadBytes [[0xC0, 0x00, 0x03], [0x00, 0x02, 0x01, 0xC0]])) [5]) actor_new =
      (a, [Write [0xC0, 0x00, 0x03, 0x00, 0x01, 0x02, 0xC0], Reply 4 (Ok (Acknowledgement GW_REBOOT_CFM))], None)
    \<and> pending a = None \<and> requests a = []"
proof -
  note wire = Frame_encode_def Frame_new_def frame_consts u8_try_from_def u16_to_be_bytes_def checksum_Cons Let_def
    slip_encode_def escape_byte_def slip_consts
  have "wire_bytes Reboot = Ok [0xC0, 0x00, 0x03, 0x00, 0x01, 0x02, 0xC0]"
    by (simp add: wire_bytes_def Request_encode_def wire)
  moreover have "expected_confirmation (Request_command_id Reboot) = Some (frame_command (Frame_new GW_REBOOT_CFM []))"
    by (simp add: expected_confirmation_eq confirmed_commands_def Frame_new_def)
  moreover have "Response_decode (Frame_new GW_REBOOT_CFM []) = Ok (Acknowledgement GW_REBOOT_CFM)"
    by (simp add: Frame_new_def Response_decode_def decode_core_def)
  moreover have "confirmation_session_matches (Request_session_id Reboot) (Acknowledgement GW_REBOOT_CFM)"
    by (simp add: confirmation_session_matches_def)
  moreover have "map Frame_encode ([] @ [Frame_new GW_REBOOT_CFM []]) = map Ok [[0x00, 0x03, 0x00, 0x02, 0x01]]"
    by (simp add: wire)
  moreover have "concat [[0xC0, 0x00, 0x03], [0x00, 0x02, 0x01, 0xC0]] =
      concat (map slip_encode [[0x00, 0x03, 0x00, 0x02, 0x01]])" by (simp add: wire)
  ultimately show ?thesis
    using request_answered_over_wire [where others = "[]" and announced = "[]" and instants = "[5]"
        and settings = ConnectionSettings_default and start = 0 and i = 4
        and chunks = "[[0xC0, 0x00, 0x03], [0x00, 0x02, 0x01, 0xC0]]"
        and encoded = "[[0x00, 0x03, 0x00, 0x02, 0x01]]" and request = Reboot]
    by (simp add: ConnectionSettings_default_def)
qed

end
