(* ===== verification/Spec2Isabelle.thy ===== *)
theory Spec2Isabelle
  imports Bridge_Discovery Debug_Format Program Actor_Progress Actor_Exchange
begin

text \<open>
  A verification library for velux2mqtt, a bridge between a VELUX KLF 200 gateway and an MQTT broker.

  \<^bold>\<open>The program.\<close> The gateway speaks a request/confirmation/notification protocol in frames with a
  checksum, escaped by SLIP, over TLS. One actor task owns the connection: it reads frames, dispatches one
  request at a time, matches confirmations by command and session, passes notifications on and expires
  requests and sessions. A client offers typed operations over the actor. The bridge sets a gateway up,
  keeps a cache of its nodes and groups, publishes their state as retained MQTT messages and Home Assistant
  discovery, turns MQTT messages into commands, and reconnects with a back-off.

  \<^bold>\<open>Theories and sources\<close> (paths under \<open>src/\<close>), in the order of their imports:
  \<^item> \<open>Prelude\<close>: outcomes (value, error, panic) of fallible code, the machine integers, byte access that
    panics out of range, shared lemmas and collections. \<open>Rust_Str\<close> and \<open>Rust_Collections\<close>: the parts of
    the Rust library the sources use on strings (UTF-8 bytes, trimming, splitting, decimal text) and on
    \<open>BTreeMap\<close> (a sorted association list), with the map laws as a locale.
  \<^item> \<open>Command_Id\<close> (\<open>klf200/command_id.rs\<close>), \<open>Klf_Error\<close> and \<open>Klf_Display\<close> (\<open>klf200/error.rs\<close>),
    \<open>Slip\<close> (\<open>klf200/slip.rs\<close>), \<open>Frame\<close> (\<open>klf200/frame.rs\<close>), \<open>Klf_Types\<close> (\<open>klf200/types.rs\<close>: identifiers,
    positions, bit sets, session allocator), \<open>Command\<close> (\<open>klf200/command.rs\<close>: every request and its
    payload), \<open>Response_Data\<close> and \<open>Response\<close> (\<open>klf200/response.rs\<close>: every response and its decoder).
  \<^item> \<open>Connection\<close> (\<open>klf200/connection.rs\<close>): the reader task, \<open>dispatch_next\<close>, \<open>handle_frame\<close>, the
    timeouts and the loop of the actor as a function of the events it receives. \<open>Client\<close>: the operations
    of \<open>Klf200Client\<close> as functions of what the actor answers and the event channel delivers.
  \<^item> \<open>Actor_Protocol\<close>: the contract of the actor as an abstract stop-and-wait link, a step relation with labels,
    and the simulation that makes every run of the actor a run of the link. \<open>Actor_Progress\<close>: the clock of the
    actor and the bounded wait of every request. \<open>Actor_Exchange\<close>: codec, SLIP, reader, actor and decoder
    together, in one exchange over bytes.
  \<^item> \<open>Velux_Node\<close> (\<open>veluxnode.rs\<close>): nodes, cover states and actions, and the node cache.
  \<^item> \<open>Mqtt\<close> (\<open>mqtt.rs\<close>): configuration, topics, command parsing, publications, the client; and the retained
    messages of a broker as the MQTT specification defines them.
  \<^item> \<open>Hass_Discovery\<close> (\<open>hassdiscovery.rs\<close>): components, discovery and removal messages.
  \<^item> \<open>Gateway_Setup\<close> (\<open>bridge.rs\<close>, from \<open>prepare_gateway\<close> on): the gateway interface as a record of functions
    of the calls made before, its implementation by the client, the initialisation of a connection, its
    cancellation and the back-off.
  \<^item> \<open>Tls\<close> (\<open>klf200/connection.rs\<close>: \<open>Klf200Client::connect\<close>, \<open>from_stream\<close>, \<open>build_tls_config\<close> and the two
    verifiers; \<open>mqtt.rs\<close>: \<open>NoCertificateVerification\<close>; \<open>bridge.rs\<close>: \<open>TlsGatewayConnector\<close>): how a connection
    comes about and which servers it accepts.
  \<^item> \<open>Debug_Format\<close>: the hand-written \<open>Debug\<close> implementations of frames, requests, password notifications, the
    client and the MQTT configuration.
  \<^item> \<open>Bridge\<close> (\<open>bridge.rs\<close>, \<open>VeluxMqttBridge\<close>): a record with the fields of the structure, one definition per
    method, and \<open>bridge_select\<close> for the branches of \<open>run_until\<close> with their guards in \<open>input_enabled\<close>. The
    publications and the calls of the gateway are kept in the state in their order.
  \<^item> \<open>Bridge_Invariant\<close> and \<open>Bridge_Sync\<close>: the states the loop reaches, as an inductive relation over enabled
    inputs that come from decoded frames and real set-ups, and what holds of all of them: the invariant, and
    that the retained status refines the cache.
  \<^item> \<open>Bridge_Inventory\<close> and \<open>Bridge_Discovery\<close>: the same refinement for the inventories and information
    documents, and for the Home Assistant description.
  \<^item> \<open>Bridge_Run\<close> (\<open>bridge.rs\<close>, \<open>run_until\<close> and \<open>configured_interval\<close>): the loop with its timers from start to
    shutdown, over the list of events that wake it, and the futures the branches of its select wait for.
  \<^item> \<open>Cli\<close> (\<open>bin/velux2mqtt.rs\<close>): options, their validation and the configuration built from them. \<open>Program\<close>
    (\<open>main\<close>, \<open>run\<close> and \<open>shutdown_signal\<close>): the process from its options to the value it returns.
  This theory holds what spans all of them: the way of an MQTT message to a frame on the wire.

  \<^bold>\<open>Interfaces\<close> are locales, interpreted on the definitions of the model: sorted maps and identifier pools,
  bit sets, a gateway whose answers are decoded frames (\<open>klf_gateway\<close>, for the set-up) and one whose answers
  confirm their requests (\<open>confirming_gateway\<close>, for the sessions; provided by \<open>handle_frame\<close>), a certificate
  verifier (\<open>certificate_policy\<close>, provided by the three verifiers), a rendering that hides secrets (\<open>redaction\<close>),
  and a view of the bridge that its publications maintain (\<open>maintained_view\<close>: the laws are asked of single
  steps, and the client lemma carries the view to every reachable state with both connections; provided by
  the status topics, the inventories and the discovery).

  \<^bold>\<open>What is shown.\<close> Wire format: frames and SLIP round trips, damage detection,
  resynchronisation, decoding that never panics and yields well-formed values, lengths and places of every
  payload. Actor: it implements a stop-and-wait link; requests are answered once, in order and after a bounded
  wait, an answer is a confirmation of its own request, the gateway reads exactly the requests that were sent,
  and a request that the gateway confirms is answered over bytes in both directions. Nodes: notifications change
  one node, reconciliation is exact. MQTT: which messages are commands, topics do not collide, discovery
  describes every cover. Set-up and shutdown: a gateway is completely set up or shut down, and with a configured
  certificate file the password goes only to a server whose certificate is in the file. Bridge: its invariant on
  every reachable state, sessions follow what the gateway accepted, the retained status, inventories and
  discovery refine the cache (only the time stamp in the information of a node may be an older one), the
  availability is honest, a lost gateway is set up again after a bounded wait, heartbeats are paced, the program
  ends when it is signalled (if its times are instants and its publications find room) and leaves the broker
  with offline and no gateway open, and a message on the topic of a cover becomes the one frame that moves this cover. Where the program fails: intervals or a delay after a
  reboot beyond the last instant make it panic, a snapshot larger than the request channel of the MQTT client (51
  covers with its default capacity) makes it wait for ever, some base topics separate its topics from its
  subscriptions, and the topics of nodes that disappear without a broker stay. Logs: the \<open>Debug\<close> output does not
  depend on passwords, and the errors of password requests tell of them at most a NUL byte and the length.

  \<^bold>\<open>Environment, bounds and fuel.\<close> What the sockets, channels, the MQTT client and the
  serialisers deliver are arguments, so a theorem holds for every behaviour of them; a property that needs more
  says so (a client that queues every publication, a serialiser that answers, a TLS handshake that asks the
  verifier it was given). Durations and instants are natural numbers of milliseconds; the overflow of an instant,
  which panics, is modelled where the timers start and where the time of the next reconnection is computed, since
  the options of the command line can reach both (\<open>INSTANT_MAX\<close>, \<open>instant_overflows\<close>): the handlers keep the sum, and
  the run ends with the panic. It is not modelled for the deadlines of the actor, whose durations no option sets. The
  saturation of the back-off is modelled. The request channel of the MQTT client is bounded and not emptied while a
  handler runs: each handler is given the room it finds (\<open>w_room\<close>), and the run stops for ever at one that publishes
  more (\<open>publishing_blocks\<close>). The theorems on reachable states are about handlers that got to their end. A write of
  the actor that fails is one that wrote nothing; the part of a frame it may have left on the stream is followed by
  nothing. Loops are structural in their inputs; the search of the session allocator has the 65535 steps of the source, and a lemma shows that they
  find a free identifier whenever there is one.

  \<^bold>\<open>Not modelled:\<close> the insides of DNS, TCP, rustls and the PEM parser (their answers are the record \<open>platform\<close>),
  the tokio scheduler (the select of a loop takes any enabled branch; the tick that follows a late one is an
  argument), the delivery of process signals, logging, the derived \<open>Debug\<close> implementations of data types, the
  argument parser, the module declarations, and the unit tests within the sources.
\<close>

section \<open>From an MQTT message to a frame\<close>

lemma command_frame:
  assumes "r = CommandSend \<lparr>cr_session_id = session, cr_main_parameter = endpoint_parameter endpoint\<rparr>
      (CommandTarget [n])"
  obtains f bytes where "Request_encode r = Ok f" "Frame_encode f = Ok bytes" "Frame_decode bytes = Ok f"
    "frame_command f = GW_COMMAND_SEND_REQ" "take 2 (frame_payload f) = u16_to_be_bytes (session_id_get session)"
    "take 2 (drop 41 (frame_payload f)) = [1, node_id_get n]"
    "take 2 (drop 7 (frame_payload f)) =
       (case endpoint of EndpointOpen \<Rightarrow> [0, 0] | EndpointClosed \<Rightarrow> [0xC8, 0])"
proof -
  obtain p where p: "Request_payload r = Ok p" by (simp add: assms)
  have wf: "request_wf r" "typed r" by (simp_all add: assms target_valid_def typed_def)
  let ?f = "Frame_new (Request_command_id r) p"
  have "length p \<le> 99" using request_lengths_bound Request_payload_length [OF wf(2,1) p] by blast
  then have enc: "Frame_encode ?f = Ok (frame_bytes ?f)"
    by (simp add: Frame_encode_Ok_iff Frame_new_def KLF_PROTOCOL_ID_def)
  have "take 2 p = u16_to_be_bytes (session_id_get session)"
    using Request_session_bytes [OF wf(1) p] assms by simp
  moreover have "take 21 (drop 41 p) = target_field [n]"
    using Request_target_bytes [OF wf(1) p] assms by simp
  then have "take 2 (take 21 (drop 41 p)) = take 2 (target_field [n])" by simp
  then have "take 2 (drop 41 p) = [1, node_id_get n]" by (simp add: target_field_def)
  moreover have "take 2 (drop 7 p) = (case endpoint of EndpointOpen \<Rightarrow> [0, 0] | EndpointClosed \<Rightarrow> [0xC8, 0])"
    using p by (cases endpoint) (auto simp: assms encode_command_send_def Let_def u8_try_from_def wire_simps
        u16_to_be_bytes_def FULLY_OPEN_def FULLY_CLOSED_def)
  ultimately show thesis
    using that [OF _ enc Frame_decode_encode [OF enc]] p assms
    by (simp add: Request_encode_def Frame_new_def)
qed

lemma ignored_message:
  "im_retained message \<or> br_gateway b = None \<Longrightarrow> handle_mqtt_message w message b = b"
  by (auto simp: handle_mqtt_message_def parse_command_def Let_def split: outcome.split)

lemma sent_command:
  assumes "cache_inv (br_cache b)" "br_gateway b = Some gw" "btree_get (br_cache b) n = Some node"
    "is_controllable node" "resolve_action node action = Ok endpoint"
    "allocate (br_session_ids b) = (ids, Ok session)"
  shows "br_calls (fst (execute_cover_command w n action b)) = br_calls b @
    [CallSend (CommandSend \<lparr>cr_session_id = session, cr_main_parameter = endpoint_parameter endpoint\<rparr>
       (CommandTarget [n]))]"
proof -
  have n: "vn_id node = n" using assms(1,3) by (simp add: cache_inv_def)
  let ?request = "CommandSend \<lparr>cr_session_id = session, cr_main_parameter = endpoint_parameter endpoint\<rparr>
      (CommandTarget [n])"
  have al: "br_allocate b = (b\<lparr>br_session_ids := ids\<rparr>, Ok session)"
    using assms(6) by (simp add: br_allocate_def)
  have request: "command_request node session action = Ok ?request"
    using assms(4,5) n by (simp add: command_request_eq)
  have kept: "br_calls (fst (publish_node_status w n d)) = br_calls d" for d
    using only_publishes_simps [OF publishes_status_any [of d w n]] by simp
  note eq = execute_cover_command_def assms(2,3,5) step_then_def br_gateway_result_def br_send_eq al request
  show ?thesis
    by (cases "gw_send gw (br_calls b) ?request")
      (simp_all add: eq kept br_release_def split: option.splits)
qed

text \<open>
  C2. A message on the control topic of a cover becomes exactly one request to the gateway: the command
  frame with the session that was allocated for it, the one node of the topic and the end position the
  action resolves to; a retained message, or any message while there is no gateway, changes nothing.
\<close>

theorem mqtt_message_becomes_frame:
  assumes "VeluxMqttBridge_new read_file now config = Ok (b0, mqtt)"
    "bc_reconnect_max_delay config \<le> DURATION_MAX" "bridge_reaches W b0 b"
    "btree_get (br_cache b) n = Some node" "is_controllable node"
    "im_topic message = node_command (br_topics b) n"
    "node_action (trim (im_payload message)) = Ok action" "resolve_action node action = Ok endpoint"
    "allocate (br_session_ids b) = (ids, Ok session)"
  shows "if im_retained message \<or> br_gateway b = None then handle_mqtt_message w message b = b
    else \<exists>request f bytes.
      br_calls (handle_mqtt_message w message b) = br_calls b @ [CallSend request]
      \<and> Request_encode request = Ok f \<and> Frame_encode f = Ok bytes \<and> Frame_decode bytes = Ok f
      \<and> frame_command f = GW_COMMAND_SEND_REQ
      \<and> take 2 (frame_payload f) = u16_to_be_bytes (session_id_get session)
      \<and> take 2 (drop 41 (frame_payload f)) = [1, node_id_get n]
      \<and> take 2 (drop 7 (frame_payload f)) =
          (case endpoint of EndpointOpen \<Rightarrow> [0, 0] | EndpointClosed \<Rightarrow> [0xC8, 0])"
proof (cases "im_retained message \<or> br_gateway b = None")
  case True
  then show ?thesis using ignored_message by simp
next
  case False
  then obtain gw where gw: "br_gateway b = Some gw" by blast
  have "parse_command (br_topics b) message = Ok (NodeCmd \<lparr>nc_node = n, nc_action = action\<rparr>)"
    using parse_own_node_topic [OF _ assms(6)] False assms(7) by blast
  then have handled: "handle_mqtt_message w message b = fst (execute_cover_command w n action b)"
    using gw by (simp add: handle_mqtt_message_def logged_def)
  have "cache_inv (br_cache b)"
    using bridge_reaches_inv [OF assms(3) bridge_inv_new [OF assms(1,2)]] by (simp add: bridge_inv_def)
  note sent = sent_command [OF this gw assms(4,5,8,9), of w]
  show ?thesis
    using False sent unfolding handled by (simp only: if_False) (metis command_frame [OF refl])
qed

theorem mqtt_message_becomes_frame_witness:
  "\<exists>b message request. im_payload message = ''OPEN''
     \<and> br_calls (handle_mqtt_message example_world message b) = br_calls b @ [CallSend request]
     \<and> (\<exists>f. Request_encode request = Ok f \<and> take 2 (drop 41 (frame_payload f)) = [1, 3])"
proof -
  obtain b0 mqtt where new: "VeluxMqttBridge_new (\<lambda>_. Ok []) 0 example_config = Ok (b0, mqtt)"
    "br_gateway b0 = None" "\<not> br_setup b0" "br_next_reconnect b0 = 0" by (rule example_new)
  obtain b node where run: "bridge_reaches UNIV b0 b" "br_gateway b \<noteq> None"
    "btree_get (br_cache b) (NodeId 3) = Some node" "is_controllable node" "br_session_ids b = SessionIdAllocator_new"
    using example_run [OF UNIV_I new(2-)] by metis
  have delay: "bc_reconnect_max_delay example_config \<le> DURATION_MAX"
    by (simp add: example_config_def VeluxMqttBridgeConfig_new_def DURATION_MAX_def)
  let ?m = "\<lparr>im_topic = node_command (br_topics b) (NodeId 3), im_payload = ''OPEN'', im_retained = False\<rparr>"
  have "allocator_inv SessionIdAllocator_new" by (simp add: allocator_inv_ops)
  moreover have "session_valid (SessionId 1)" by (simp add: session_valid_def)
  ultimately obtain ids session where al: "allocate (br_session_ids b) = (ids, Ok session)"
    using sessions.alloc_succeeds [of SessionIdAllocator_new "SessionId 1"] run(5) by auto
  have "trim ''OPEN'' = ''OPEN''" by (simp add: trim_def whitespace_def trim_leading.simps)
  then have action: "node_action (trim (im_payload ?m)) = Ok OpenAction"
    by (simp add: node_action_def eq_ignore_ascii_case_def)
  have "resolve_action node OpenAction = Ok EndpointOpen" by (simp add: resolve_action_def)
  from mqtt_message_becomes_frame [OF new(1) delay run(1,3,4) _ action this al, of example_world] run(2)
  show ?thesis by (intro exI [of _ b] exI [of _ ?m]) auto
qed

section \<open>The base topic is normalised once too often\<close>

text \<open>What validating a configuration and building a layout each do to the base topic.\<close>

definition normalise_base :: "string \<Rightarrow> string" where
  "normalise_base base = trim_matches CHR ''/'' (trim base)"

lemma normalised_layout: "TopicLayout_new base = Ok topics \<Longrightarrow> tl_base topics = normalise_base base"
  by (auto simp: TopicLayout_new_def normalise_base_def Let_def split: if_splits)

lemma validated_base:
  "snd (MqttConfig_validate config) = Ok u \<Longrightarrow>
     mc_base_topic (fst (MqttConfig_validate config)) = normalise_base (mc_base_topic config)"
  by (auto simp: MqttConfig_validate_def normalise_base_def Let_def split: if_splits)

lemma client_layout:
  assumes "MqttConnection_new read_file config = Ok (options, topics)"
  shows "tl_base topics = normalise_base (normalise_base (mc_base_topic config))
    \<and> lw_topic (mo_last_will options) = topic_state topics"
  using assms validated_base [of config] normalised_layout
  by (auto simp: MqttConnection_new_def outcome_iffs Let_def split: prod.splits)

lemma bridge_layouts:
  assumes "VeluxMqttBridge_new read_file now config = Ok (b, options, topics)"
  obtains mqtt where "mc_base_topic mqtt = normalise_base (mc_base_topic (bc_mqtt config))"
    "TopicLayout_new (mc_base_topic mqtt) = Ok (br_topics b)" "MqttConnection_new read_file mqtt = Ok (options, topics)"
proof -
  let ?mqtt = "fst (MqttConfig_validate (bc_mqtt config))"
  have "snd (MqttConfig_validate (bc_mqtt config)) = Ok ()" "TopicLayout_new (mc_base_topic ?mqtt) = Ok (br_topics b)"
    "MqttConnection_new read_file ?mqtt = Ok (options, topics)"
    using assms by (auto simp: VeluxMqttBridge_new_def VeluxMqttBridgeConfig_validate_def outcome_iffs Let_def
        split_beta split: if_splits prod.splits)
  then show thesis using that [of ?mqtt] validated_base [of "bc_mqtt config"] by simp
qed

definition spaced_config :: "string \<Rightarrow> MqttConfig" where
  "spaced_config base = (MqttConfig_new ''broker'')\<lparr>mc_base_topic := base\<rparr>"

lemma spaced_normalised:
  "TopicLayout_new '' / a'' = Ok \<lparr>tl_base = '' a''\<rparr>" "TopicLayout_new '' a'' = Ok \<lparr>tl_base = ''a''\<rparr>"
  "MqttConfig_validate (spaced_config ''/ / a'') = (spaced_config '' / a'', Ok ())"
  "MqttConfig_validate (spaced_config '' / a'') = (spaced_config '' a'', Ok ())"
  by (simp_all add: spaced_config_def MqttConfig_validate_def TopicLayout_new_def MqttConfig_new_def trim_def
      whitespace_def trim_leading.simps trim_matches_def Let_def)

lemma spaced_starts:
  obtains b options topics where
    "VeluxMqttBridge_new (\<lambda>_. Ok []) 0 (example_config\<lparr>bc_mqtt := spaced_config ''/ / a''\<rparr>) = Ok (b, options, topics)"
proof -
  have base: "mc_base_topic (spaced_config base) = base" for base by (simp add: spaced_config_def)
  have valid: "VeluxMqttBridgeConfig_validate (example_config\<lparr>bc_mqtt := spaced_config ''/ / a''\<rparr>) =
      (example_config\<lparr>bc_mqtt := spaced_config '' / a''\<rparr>, Ok ())"
    by (simp add: VeluxMqttBridgeConfig_validate_def example_config_def VeluxMqttBridgeConfig_new_def
        spaced_normalised Klf200Config_new_def trim_def whitespace_def trim_leading.simps
        DEFAULT_STATUS_REFRESH_def ConnectionSettings_default_def Let_def)
  have "transport (\<lambda>_. Ok []) (spaced_config '' a'') = Ok TransportTcp"
    by (simp add: transport_def spaced_config_def MqttConfig_new_def)
  then obtain options where "MqttConnection_new (\<lambda>_. Ok []) (spaced_config '' / a'') = Ok (options, \<lparr>tl_base = ''a''\<rparr>)"
    by (simp add: MqttConnection_new_def spaced_normalised base)
  then show thesis using that by (simp add: VeluxMqttBridge_new_def valid base spaced_normalised)
qed

text \<open>
  C31. The bridge normalises the configured base topic twice and its MQTT client three times: the bridge
  publishes and parses below the one base, the client subscribes and announces its last will below the other.
  The two are the same exactly if a third trimming of white space and slashes changes nothing, which fails for
  white space between leading slashes, as in the base topic of the example.
\<close>

theorem base_topic_normalised_twice:
  assumes "VeluxMqttBridge_new read_file now config = Ok (b, options, topics)"
  defines "base \<equiv> normalise_base (normalise_base (mc_base_topic (bc_mqtt config)))"
  shows "tl_base (br_topics b) = base \<and> tl_base topics = normalise_base base
    \<and> (lw_topic (mo_last_will options) = topic_state (br_topics b) \<longleftrightarrow> normalise_base base = base)
    \<and> (command_filter topics = command_filter (br_topics b) \<longleftrightarrow> normalise_base base = base)"
proof -
  obtain mqtt where mqtt: "mc_base_topic mqtt = normalise_base (mc_base_topic (bc_mqtt config))"
    "TopicLayout_new (mc_base_topic mqtt) = Ok (br_topics b)" "MqttConnection_new read_file mqtt = Ok (options, topics)"
    by (rule bridge_layouts [OF assms(1)])
  have "tl_base (br_topics b) = base" "tl_base topics = normalise_base base" "lw_topic (mo_last_will options) = topic_state topics"
    using normalised_layout [OF mqtt(2)] client_layout [OF mqtt(3)] mqtt(1) by (simp_all add: base_def)
  then show ?thesis by (auto simp: topic_state_def command_filter_def)
qed

theorem base_topic_normalised_twice_witness:
  "\<exists>b options topics.
     VeluxMqttBridge_new (\<lambda>_. Ok []) 0 (example_config\<lparr>bc_mqtt := spaced_config ''/ / a''\<rparr>) = Ok (b, options, topics)
     \<and> tl_base (br_topics b) = '' a'' \<and> tl_base topics = ''a''
     \<and> lw_topic (mo_last_will options) \<noteq> topic_state (br_topics b)
     \<and> command_filter topics \<noteq> command_filter (br_topics b)"
proof -
  obtain b options topics where new: "VeluxMqttBridge_new (\<lambda>_. Ok []) 0
      (example_config\<lparr>bc_mqtt := spaced_config ''/ / a''\<rparr>) = Ok (b, options, topics)" by (rule spaced_starts)
  have "normalise_base (normalise_base ''/ / a'') = '' a''" "normalise_base '' a'' = ''a''"
    by (simp_all add: normalise_base_def trim_def whitespace_def trim_leading.simps trim_matches_def)
  with base_topic_normalised_twice [OF new] new show ?thesis by (simp add: spaced_config_def)
qed

end
